theory Spec2Isabelle
  imports Main "HOL-Library.Word"
begin

unbundle bit_operations_syntax

section \<open>AVRCP transaction pool and controller procedure of btif\_rc.cc\<close>

text \<open>
  The theory embeds the transaction-label pool, the controller-side (sink) response
  dispatcher \<open>handle_avk_rc_metamsg_rsp\<close> with its per-PDU handlers and timeout
  handlers, and the target-side volume response handler \<open>handle_rc_metamsg_rsp\<close>
  of \<open>btif/src/btif_rc.cc\<close>. Mutable globals (\<open>device\<close>, \<open>btif_rc_cb\<close>) are
  passed explicitly as a state record. Calls that leave the file (commands handed to
  the BTA layer, HAL callbacks) are appended to the trace \<open>sent\<close>. The \<open>lbllock\<close>
  mutex and logging are not represented: every function below runs to completion on
  one thread.
\<close>

subsection \<open>Protocol constants\<close>

text \<open>
  The AVRC and BTA constants live in headers outside the source file
  (\<open>avrc_defs.h\<close>, \<open>bta_av_api.h\<close>, \<open>hardware/bluetooth.h\<close>). They are given the
  numbers the AVRCP specification and those headers assign. \<open>MAX_LABEL\<close>,
  \<open>MAX_VOLUME\<close>, \<open>MAX_TRANSACTIONS_PER_SESSION\<close>, \<open>BTIF_RC_STS_TIMEOUT\<close> and the
  timeouts are defined in the source file itself.
\<close>

definition MAX_VOLUME :: "32 word" where "MAX_VOLUME = 128"
definition MAX_LABEL :: "8 word" where "MAX_LABEL = 16"
definition MAX_TRANSACTIONS_PER_SESSION :: nat where "MAX_TRANSACTIONS_PER_SESSION = 16"
definition BTIF_RC_STS_TIMEOUT :: "8 word" where "BTIF_RC_STS_TIMEOUT = 0xFE"
definition BTIF_TIMEOUT_RC_INTERIM_RSP_MS :: nat where "BTIF_TIMEOUT_RC_INTERIM_RSP_MS = 2 * 1000"
definition BTIF_TIMEOUT_RC_STATUS_CMD_MS :: nat where "BTIF_TIMEOUT_RC_STATUS_CMD_MS = 2 * 1000"
definition BTIF_TIMEOUT_RC_CONTROL_CMD_MS :: nat where "BTIF_TIMEOUT_RC_CONTROL_CMD_MS = 2 * 1000"

definition BT_STATUS_SUCCESS :: nat where "BT_STATUS_SUCCESS = 0"
definition BT_STATUS_FAIL :: nat where "BT_STATUS_FAIL = 1"
definition BT_STATUS_NOT_READY :: nat where "BT_STATUS_NOT_READY = 2"
definition BT_STATUS_NOMEM :: nat where "BT_STATUS_NOMEM = 3"

definition AVRC_OP_VENDOR :: "8 word" where "AVRC_OP_VENDOR = 0x00"

definition AVRC_CMD_CTRL :: "8 word" where "AVRC_CMD_CTRL = 0"
definition AVRC_CMD_STATUS :: "8 word" where "AVRC_CMD_STATUS = 1"
definition AVRC_CMD_NOTIF :: "8 word" where "AVRC_CMD_NOTIF = 3"

definition AVRC_RSP_NOT_IMPL :: "8 word" where "AVRC_RSP_NOT_IMPL = 8"
definition AVRC_RSP_ACCEPT :: "8 word" where "AVRC_RSP_ACCEPT = 9"
definition AVRC_RSP_REJ :: "8 word" where "AVRC_RSP_REJ = 10"
definition AVRC_RSP_IN_TRANS :: "8 word" where "AVRC_RSP_IN_TRANS = 11"
definition AVRC_RSP_IMPL_STBL :: "8 word" where "AVRC_RSP_IMPL_STBL = 12"
definition AVRC_RSP_CHANGED :: "8 word" where "AVRC_RSP_CHANGED = 13"
definition AVRC_RSP_INTERIM :: "8 word" where "AVRC_RSP_INTERIM = 15"

definition AVRC_STS_NO_ERROR :: "8 word" where "AVRC_STS_NO_ERROR = 0x04"

definition AVRC_PDU_GET_CAPABILITIES :: "8 word" where "AVRC_PDU_GET_CAPABILITIES = 0x10"
definition AVRC_PDU_LIST_PLAYER_APP_ATTR :: "8 word" where "AVRC_PDU_LIST_PLAYER_APP_ATTR = 0x11"
definition AVRC_PDU_LIST_PLAYER_APP_VALUES :: "8 word" where "AVRC_PDU_LIST_PLAYER_APP_VALUES = 0x12"
definition AVRC_PDU_GET_CUR_PLAYER_APP_VALUE :: "8 word" where "AVRC_PDU_GET_CUR_PLAYER_APP_VALUE = 0x13"
definition AVRC_PDU_SET_PLAYER_APP_VALUE :: "8 word" where "AVRC_PDU_SET_PLAYER_APP_VALUE = 0x14"
definition AVRC_PDU_GET_PLAYER_APP_ATTR_TEXT :: "8 word" where "AVRC_PDU_GET_PLAYER_APP_ATTR_TEXT = 0x15"
definition AVRC_PDU_GET_PLAYER_APP_VALUE_TEXT :: "8 word" where "AVRC_PDU_GET_PLAYER_APP_VALUE_TEXT = 0x16"
definition AVRC_PDU_GET_ELEMENT_ATTR :: "8 word" where "AVRC_PDU_GET_ELEMENT_ATTR = 0x20"
definition AVRC_PDU_GET_PLAY_STATUS :: "8 word" where "AVRC_PDU_GET_PLAY_STATUS = 0x30"
definition AVRC_PDU_REGISTER_NOTIFICATION :: "8 word" where "AVRC_PDU_REGISTER_NOTIFICATION = 0x31"
definition AVRC_PDU_SET_ABSOLUTE_VOLUME :: "8 word" where "AVRC_PDU_SET_ABSOLUTE_VOLUME = 0x50"

definition AVRC_CAP_COMPANY_ID :: "8 word" where "AVRC_CAP_COMPANY_ID = 0x02"
definition AVRC_CAP_EVENTS_SUPPORTED :: "8 word" where "AVRC_CAP_EVENTS_SUPPORTED = 0x03"

definition AVRC_EVT_PLAY_STATUS_CHANGE :: "8 word" where "AVRC_EVT_PLAY_STATUS_CHANGE = 0x01"
definition AVRC_EVT_TRACK_CHANGE :: "8 word" where "AVRC_EVT_TRACK_CHANGE = 0x02"
definition AVRC_EVT_TRACK_REACHED_END :: "8 word" where "AVRC_EVT_TRACK_REACHED_END = 0x03"
definition AVRC_EVT_TRACK_REACHED_START :: "8 word" where "AVRC_EVT_TRACK_REACHED_START = 0x04"
definition AVRC_EVT_PLAY_POS_CHANGED :: "8 word" where "AVRC_EVT_PLAY_POS_CHANGED = 0x05"
definition AVRC_EVT_BATTERY_STATUS_CHANGE :: "8 word" where "AVRC_EVT_BATTERY_STATUS_CHANGE = 0x06"
definition AVRC_EVT_SYSTEM_STATUS_CHANGE :: "8 word" where "AVRC_EVT_SYSTEM_STATUS_CHANGE = 0x07"
definition AVRC_EVT_APP_SETTING_CHANGE :: "8 word" where "AVRC_EVT_APP_SETTING_CHANGE = 0x08"
definition AVRC_EVT_NOW_PLAYING_CHANGE :: "8 word" where "AVRC_EVT_NOW_PLAYING_CHANGE = 0x09"
definition AVRC_EVT_AVAL_PLAYERS_CHANGE :: "8 word" where "AVRC_EVT_AVAL_PLAYERS_CHANGE = 0x0a"
definition AVRC_EVT_ADDR_PLAYER_CHANGE :: "8 word" where "AVRC_EVT_ADDR_PLAYER_CHANGE = 0x0b"
definition AVRC_EVT_UIDS_CHANGE :: "8 word" where "AVRC_EVT_UIDS_CHANGE = 0x0c"
definition AVRC_EVT_VOLUME_CHANGE :: "8 word" where "AVRC_EVT_VOLUME_CHANGE = 0x0d"

definition AVRC_PLAYSTATE_PLAYING :: "8 word" where "AVRC_PLAYSTATE_PLAYING = 0x01"
definition AVRC_PLAYER_SETTING_LOW_MENU_EXT :: "8 word" where "AVRC_PLAYER_SETTING_LOW_MENU_EXT = 0x80"
definition BTA_AV_FEAT_APP_SETTING :: "16 word" where "BTA_AV_FEAT_APP_SETTING = 0x2000"

definition attr_list :: "32 word list" where
  \<comment> \<open>\<open>AVRC_MEDIA_ATTR_ID_TITLE\<close> .. \<open>AVRC_MEDIA_ATTR_ID_PLAYING_TIME\<close>, the seven
      element attributes requested by every \<open>get_element_attribute_cmd\<close> call of the file\<close>
  "attr_list = [1, 2, 3, 4, 5, 6, 7]"

subsection \<open>Timers\<close>

text \<open>
  Modelled from the spec: the osi alarm is not in the source file; the spec describes
  it as a cancellable, one-shot deadline. An \<open>alarm_t *\<close> is \<open>Alarm_null\<close> (NULL),
  \<open>Alarm_idle\<close> (allocated, not scheduled) or \<open>Alarm_set ms cb\<close> (scheduled to call
  \<open>cb\<close> after \<open>ms\<close> milliseconds). A scheduled alarm is the only one that can fire.
\<close>

datatype alarm_cb =
    Status_cmd_timer_timeout
  | Control_cmd_timer_timeout
  | Play_status_timer_timeout

datatype alarm_t =
    Alarm_null
  | Alarm_idle
  | Alarm_set nat alarm_cb

definition alarm_is_scheduled :: "alarm_t \<Rightarrow> bool" where
  "alarm_is_scheduled a = (case a of Alarm_set _ _ \<Rightarrow> True | _ \<Rightarrow> False)"

definition alarm_cancel :: "alarm_t \<Rightarrow> alarm_t" where
  "alarm_cancel a = (case a of Alarm_null \<Rightarrow> Alarm_null | _ \<Rightarrow> Alarm_idle)"

subsection \<open>The transaction pool\<close>

record btif_rc_timer_context_t =
  ctx_label :: "8 word"
  ctx_pdu_id :: "8 word"

record rc_transaction_t =
  in_use :: bool
  lbl :: "8 word"
  handle :: "8 word"
  txn_timer_context :: btif_rc_timer_context_t
  txn_timer :: alarm_t

text \<open>\<open>device.transaction\<close>: an array of \<open>MAX_TRANSACTIONS_PER_SESSION\<close> slots. A pointer
  to a slot is its index.\<close>

type_synonym rc_device_t = "rc_transaction_t list"

definition get_transaction_by_lbl :: "8 word \<Rightarrow> rc_device_t \<Rightarrow> nat option" where
  "get_transaction_by_lbl l d =
     (if unat l < MAX_TRANSACTIONS_PER_SESSION
      then (if \<not> in_use (d ! unat l) then None else Some (unat l))
      else None)"

definition clear_cmd_timeout :: "8 word \<Rightarrow> rc_device_t \<Rightarrow> rc_device_t" where
  "clear_cmd_timeout l d =
     (case get_transaction_by_lbl l d of
        None \<Rightarrow> d
      | Some i \<Rightarrow>
          (if txn_timer (d ! i) \<noteq> Alarm_null
           then d[i := (d ! i)\<lparr>txn_timer := alarm_cancel (txn_timer (d ! i))\<rparr>]
           else d))"

text \<open>\<open>initialize_transaction\<close> takes an \<open>int\<close>; both callers pass a \<open>uint8_t\<close>, so the
  argument is a natural number here.\<close>

definition initialize_transaction :: "nat \<Rightarrow> rc_device_t \<Rightarrow> rc_device_t" where
  "initialize_transaction l d =
     (if l < MAX_TRANSACTIONS_PER_SESSION
      then (let d1 = (if alarm_is_scheduled (txn_timer (d ! l))
                      then clear_cmd_timeout (of_nat l) d else d)
            in d1[l := (d1 ! l)\<lparr>lbl := of_nat l, in_use := False, handle := 0\<rparr>])
      else d)"

definition init_all_transactions :: "rc_device_t \<Rightarrow> rc_device_t" where
  "init_all_transactions d = fold initialize_transaction [0..<MAX_TRANSACTIONS_PER_SESSION] d"

definition zero_transaction :: rc_transaction_t where
  "zero_transaction =
     \<lparr>in_use = False, lbl = 0, handle = 0,
      txn_timer_context = \<lparr>ctx_label = 0, ctx_pdu_id = 0\<rparr>,
      txn_timer = Alarm_null\<rparr>"

definition lbl_init :: rc_device_t where
  "lbl_init = init_all_transactions (replicate MAX_TRANSACTIONS_PER_SESSION zero_transaction)"

function get_transaction_loop :: "nat \<Rightarrow> rc_device_t \<Rightarrow> nat option" where
  "get_transaction_loop i d =
     (if i < MAX_TRANSACTIONS_PER_SESSION
      then (if \<not> in_use (d ! i) then Some i else get_transaction_loop (Suc i) d)
      else None)"
  by pat_completeness auto
termination
  by (relation "measure (\<lambda>(i, d). MAX_TRANSACTIONS_PER_SESSION - i)") auto

declare get_transaction_loop.simps [simp del]

text \<open>\<open>get_transaction\<close> returns the status, the slot written to \<open>*ptransaction\<close> (if any)
  and the pool.\<close>

definition get_transaction :: "rc_device_t \<Rightarrow> nat \<times> nat option \<times> rc_device_t" where
  "get_transaction d =
     (case get_transaction_loop 0 d of
        None \<Rightarrow> (BT_STATUS_NOMEM, None, d)
      | Some i \<Rightarrow> (BT_STATUS_SUCCESS, Some i, d[i := (d ! i)\<lparr>in_use := True\<rparr>]))"

definition release_transaction :: "8 word \<Rightarrow> rc_device_t \<Rightarrow> rc_device_t" where
  "release_transaction l d =
     (case get_transaction_by_lbl l d of
        None \<Rightarrow> d
      | Some i \<Rightarrow> initialize_transaction (unat l) d)"

text \<open>Both timer helpers free the slot's old alarm, allocate a new one and schedule it;
  \<open>p_txn\<close> is the slot's index.\<close>

definition start_status_command_timer :: "8 word \<Rightarrow> nat \<Rightarrow> rc_device_t \<Rightarrow> rc_device_t" where
  "start_status_command_timer pdu_id p_txn d =
     d[p_txn := (d ! p_txn)
        \<lparr>txn_timer_context := \<lparr>ctx_label = lbl (d ! p_txn), ctx_pdu_id = pdu_id\<rparr>,
         txn_timer := Alarm_set BTIF_TIMEOUT_RC_STATUS_CMD_MS Status_cmd_timer_timeout\<rparr>]"

definition start_control_command_timer :: "8 word \<Rightarrow> nat \<Rightarrow> rc_device_t \<Rightarrow> rc_device_t" where
  "start_control_command_timer pdu_id p_txn d =
     d[p_txn := (d ! p_txn)
        \<lparr>txn_timer_context := \<lparr>ctx_label = lbl (d ! p_txn), ctx_pdu_id = pdu_id\<rparr>,
         txn_timer := Alarm_set BTIF_TIMEOUT_RC_CONTROL_CMD_MS Control_cmd_timer_timeout\<rparr>]"

text \<open>Sequences of pool calls, started from the pool \<open>lbl_init\<close> builds.\<close>

datatype pool_call = Acquire | Release "8 word"

fun pool_step :: "pool_call \<Rightarrow> rc_device_t \<Rightarrow> rc_device_t" where
  "pool_step Acquire d = snd (snd (get_transaction d))"
| "pool_step (Release l) d = release_transaction l d"

definition pool_run :: "pool_call list \<Rightarrow> rc_device_t" where
  "pool_run cs = fold pool_step cs lbl_init"

definition in_use_count :: "rc_device_t \<Rightarrow> nat" where
  "in_use_count d = length (filter in_use d)"

text \<open>A pool with four slots in use and a status-command timer armed on slot 3.\<close>

definition example_pool :: rc_device_t where
  "example_pool =
     start_status_command_timer AVRC_PDU_GET_PLAY_STATUS 3 (pool_run (replicate 4 Acquire))"

subsection \<open>Session data\<close>

datatype btif_rc_nfn_reg_status_t = eNOT_REGISTERED | eREGISTERED | eINTERIM

record btif_rc_supported_event_t =
  event_id :: "8 word"
  label :: "8 word"
  status :: btif_rc_nfn_reg_status_t

text \<open>
  The HAL types of \<open>bt_rc.h\<close> and the parsed-response types of \<open>avrc_defs.h\<close> are
  declared outside the source file; the records below carry the fields the source file
  reads or writes. A C array is an index function: the source indexes the arrays with
  counters it does not check against the declared sizes, and the model does not bound
  them either, so an index past the end of the C array (a buffer overrun there) is an
  ordinary index here. A byte string behind a pointer is a list, \<open>None\<close> for NULL.
\<close>

record btrc_player_app_attr_t =
  attr_id :: "8 word"
  num_val :: "8 word"
  attr_val :: "nat \<Rightarrow> 8 word"

record btrc_player_app_ext_attr_val_t =
  val :: "8 word"
  val_charset_id :: "16 word"
  val_str_len :: "16 word"
  val_p_str :: "8 word list option"

record btrc_player_app_ext_attr_t =
  ext_attr_id :: "8 word"
  charset_id :: "16 word"
  str_len :: "16 word"
  p_str :: "8 word list option"
  ext_num_val :: "8 word"
  ext_attr_val :: "nat \<Rightarrow> btrc_player_app_ext_attr_val_t"

record btif_rc_player_app_settings_t =
  query_started :: bool
  num_attrs :: "8 word"
  num_ext_attrs :: "8 word"
  attr_index :: "8 word"
  ext_attr_index :: "8 word"
  ext_val_index :: "8 word"
  attrs :: "nat \<Rightarrow> btrc_player_app_attr_t"
  ext_attrs :: "nat \<Rightarrow> btrc_player_app_ext_attr_t"

text \<open>\<open>btif_rc_cb\<close>, without the fields only the target-side command path uses
  (\<open>rc_addr\<close>, \<open>rc_pending_play\<close>, \<open>rc_pdu_info\<close>, \<open>rc_notif\<close>). The supported-event
  list is \<open>None\<close> while the pointer is NULL.\<close>

record btif_rc_cb_t =
  rc_connected :: bool
  rc_handle :: "8 word"
  rc_features :: "16 word"
  rc_volume :: "32 word"
  rc_vol_label :: "8 word"
  rc_supported_event_list :: "btif_rc_supported_event_t list option"
  rc_app_settings :: btif_rc_player_app_settings_t
  rc_play_status_timer :: alarm_t
  rc_features_processed :: bool
  rc_playing_uid :: "64 word"
  rc_procedure_complete :: bool

subsection \<open>Commands, responses and the trace of outbound calls\<close>

text \<open>The commands the file builds: the PDU and the fields it fills in.\<close>

datatype tAVRC_COMMAND =
    Cmd_get_caps "8 word"
  | Cmd_list_app_attr
  | Cmd_list_app_values "8 word"
  | Cmd_get_cur_app_val "8 word list"
  | Cmd_get_app_attr_txt "8 word list"
  | Cmd_get_app_val_txt "8 word list"
  | Cmd_reg_notif "8 word" "32 word"
  | Cmd_get_elem_attrs "32 word list"
  | Cmd_get_play_status

datatype hal_callback =
    play_status_changed_cb "8 word"
  | playerapplicationsetting_changed_cb "(8 word \<times> 8 word) list"
  | playerapplicationsetting_cb "8 word" "nat \<Rightarrow> btrc_player_app_attr_t"
      "8 word" "(nat \<Rightarrow> btrc_player_app_ext_attr_t) option"
  | setplayerappsetting_rsp_cb "8 word"
  | track_changed_cb "8 word" "(32 word \<times> 8 word list) list"
  | play_position_changed_cb "32 word" "32 word"
  | volume_change_cb "8 word" "8 word"

text \<open>An outbound call: \<open>BTA_AvVendorCmd\<close> and \<open>BTA_AvMetaCmd\<close> with the handle, the
  transaction label, the command type and the command, or a HAL callback. The peer
  address argument of the callbacks is left out. \<open>HAL_CBACK\<close> is recorded as the call
  of the callback (the callback table is taken to be registered).\<close>

datatype action =
    BTA_AvVendorCmd "8 word" "8 word" "8 word" tAVRC_COMMAND
  | BTA_AvMetaCmd "8 word" "8 word" "8 word" tAVRC_COMMAND
  | HAL_CBACK hal_callback

record tAVRC_PLAYER_APP_PARAM =
  ps_num_attr :: "8 word"
  ps_attr_id :: "nat \<Rightarrow> 8 word"
  ps_attr_value :: "nat \<Rightarrow> 8 word"

text \<open>\<open>param\<close> of a notification response is a union in C; each branch of the source
  reads the member that belongs to the event it handles, so the members are separate
  fields here.\<close>

record tAVRC_REG_NOTIF_RSP =
  rn_event_id :: "8 word"
  param_play_status :: "8 word"
  param_track :: "8 word list"
  param_player_setting :: tAVRC_PLAYER_APP_PARAM
  param_volume :: "8 word"

record tAVRC_GET_CAPS_RSP =
  caps_status :: "8 word"
  capability_id :: "8 word"
  caps_count :: "8 word"
  param_event_id :: "nat \<Rightarrow> 8 word"

record tAVRC_LIST_APP_ATTR_RSP =
  la_status :: "8 word"
  la_num_attr :: "8 word"
  la_attrs :: "nat \<Rightarrow> 8 word"

record tAVRC_LIST_APP_VALUES_RSP =
  lv_status :: "8 word"
  lv_num_val :: "8 word"
  lv_vals :: "nat \<Rightarrow> 8 word"

record tAVRC_GET_CUR_APP_VALUE_RSP =
  cv_status :: "8 word"
  cv_num_val :: "8 word"
  cv_p_vals :: "nat \<Rightarrow> 8 word \<times> 8 word"

record tAVRC_APP_SETTING_TEXT =
  txt_attr_id :: "8 word"
  txt_charset_id :: "16 word"
  txt_str_len :: "8 word"
  txt_p_str :: "8 word list option"

record tAVRC_GET_APP_ATTR_TXT_RSP =
  at_status :: "8 word"
  at_num_attr :: "8 word"
  at_p_attrs :: "nat \<Rightarrow> tAVRC_APP_SETTING_TEXT"

record tAVRC_ATTR_ENTRY =
  ea_attr_id :: "32 word"
  name_str_len :: "16 word"
  name_p_str :: "8 word list option"

record tAVRC_GET_ELEM_ATTRS_RSP =
  ea_status :: "8 word"
  ea_num_attr :: "8 word"
  ea_p_attrs :: "nat \<Rightarrow> tAVRC_ATTR_ENTRY"

record tAVRC_GET_PLAY_STATUS_RSP =
  gp_status :: "8 word"
  song_len :: "32 word"
  song_pos :: "32 word"

text \<open>The union \<open>tAVRC_RESPONSE\<close>: the constructor is the PDU the parser put into
  \<open>pdu\<close>, with the member it filled in. \<open>Rsp_other pdu\<close> stands for every PDU the
  file has no member for, among them the zeroed response after a failed parse.\<close>

datatype tAVRC_RESPONSE =
    Rsp_reg_notif tAVRC_REG_NOTIF_RSP
  | Rsp_get_caps tAVRC_GET_CAPS_RSP
  | Rsp_list_app_attr tAVRC_LIST_APP_ATTR_RSP
  | Rsp_list_app_values tAVRC_LIST_APP_VALUES_RSP
  | Rsp_get_cur_app_val tAVRC_GET_CUR_APP_VALUE_RSP
  | Rsp_get_app_attr_txt tAVRC_GET_APP_ATTR_TXT_RSP
  | Rsp_get_app_val_txt tAVRC_GET_APP_ATTR_TXT_RSP
  | Rsp_set_app_val
  | Rsp_get_elem_attrs tAVRC_GET_ELEM_ATTRS_RSP
  | Rsp_get_play_status tAVRC_GET_PLAY_STATUS_RSP
  | Rsp_volume "8 word"
  | Rsp_other "8 word"

definition rsp_pdu :: "tAVRC_RESPONSE \<Rightarrow> 8 word" where
  "rsp_pdu r =
     (case r of
        Rsp_reg_notif _ \<Rightarrow> AVRC_PDU_REGISTER_NOTIFICATION
      | Rsp_get_caps _ \<Rightarrow> AVRC_PDU_GET_CAPABILITIES
      | Rsp_list_app_attr _ \<Rightarrow> AVRC_PDU_LIST_PLAYER_APP_ATTR
      | Rsp_list_app_values _ \<Rightarrow> AVRC_PDU_LIST_PLAYER_APP_VALUES
      | Rsp_get_cur_app_val _ \<Rightarrow> AVRC_PDU_GET_CUR_PLAYER_APP_VALUE
      | Rsp_get_app_attr_txt _ \<Rightarrow> AVRC_PDU_GET_PLAYER_APP_ATTR_TEXT
      | Rsp_get_app_val_txt _ \<Rightarrow> AVRC_PDU_GET_PLAYER_APP_VALUE_TEXT
      | Rsp_set_app_val \<Rightarrow> AVRC_PDU_SET_PLAYER_APP_VALUE
      | Rsp_get_elem_attrs _ \<Rightarrow> AVRC_PDU_GET_ELEMENT_ATTR
      | Rsp_get_play_status _ \<Rightarrow> AVRC_PDU_GET_PLAY_STATUS
      | Rsp_volume _ \<Rightarrow> AVRC_PDU_SET_ABSOLUTE_VOLUME
      | Rsp_other p \<Rightarrow> p)"

text \<open>\<open>tBTA_AV_META_MSG\<close>: the opcode of the message header, the response code and the
  transaction label.\<close>

record tBTA_AV_META_MSG =
  msg_opcode :: "8 word"
  msg_code :: "8 word"
  msg_label :: "8 word"

text \<open>
  The whole state: the two globals, the trace, and what the environment decides.
  Modelled from the spec: \<open>AVRC_BldCommand\<close> is the external encoder,
  \<open>PduCodec.encode(command) -> bytes | EncodeError\<close>; the field gives the status it
  returns for a command, and a message is produced exactly when the status is
  \<open>AVRC_STS_NO_ERROR\<close>. \<open>osi_malloc_label n\<close> is the content of the \<open>label\<close> byte of
  the \<open>n\<close>-th list entry \<open>handle_get_capability_response\<close> allocates and never
  initialises; \<open>p_event_uninit_null\<close> says whether the uninitialised local \<open>p_event\<close>
  of \<open>handle_notification_response\<close> happens to be NULL.
\<close>

record rc_state =
  device :: rc_device_t
  btif_rc_cb :: btif_rc_cb_t
  sent :: "action list"
  AVRC_BldCommand :: "tAVRC_COMMAND \<Rightarrow> 8 word"
  osi_malloc_label :: "nat \<Rightarrow> 8 word"
  p_event_uninit_null :: bool

subsection \<open>Sending commands\<close>

definition emit :: "action \<Rightarrow> rc_state \<Rightarrow> rc_state" where
  "emit a s = s\<lparr>sent := sent s @ [a]\<rparr>"

text \<open>
  The status commands \<open>getcapabilities_cmd\<close>, \<open>list_player_app_setting_attrib_cmd\<close>,
  \<open>list_player_app_setting_value_cmd\<close>, \<open>get_player_app_setting_cmd\<close>,
  \<open>get_player_app_setting_value_text_cmd\<close>, \<open>get_element_attribute_cmd\<close> and
  \<open>get_play_status_cmd\<close> have one body:
  \<open>CHECK_RC_CONNECTED\<close>, \<open>get_transaction\<close> (\<open>BT_STATUS_FAIL\<close> when it fails),
  \<open>AVRC_BldCommand\<close>, and on \<open>AVRC_STS_NO_ERROR\<close> the call of \<open>BTA_AvVendorCmd\<close> with
  \<open>AVRC_CMD_STATUS\<close> followed by \<open>start_status_command_timer\<close>. On a build error the
  acquired transaction is kept and the AVRC status is returned, cast to \<open>bt_status_t\<close>.
  \<open>status_command\<close> is that body; the result is the status and the state.
\<close>

definition status_command :: "8 word \<Rightarrow> tAVRC_COMMAND \<Rightarrow> rc_state \<Rightarrow> nat \<times> rc_state" where
  "status_command pdu cmd s =
     (if \<not> rc_connected (btif_rc_cb s) then (BT_STATUS_NOT_READY, s)
      else
        (case get_transaction (device s) of
           (tran_status, None, d) \<Rightarrow> (BT_STATUS_FAIL, s\<lparr>device := d\<rparr>)
         | (tran_status, Some p, d) \<Rightarrow>
             (if tran_status \<noteq> BT_STATUS_SUCCESS then (BT_STATUS_FAIL, s\<lparr>device := d\<rparr>)
              else if AVRC_BldCommand s cmd = AVRC_STS_NO_ERROR
              then (BT_STATUS_SUCCESS,
                    (emit (BTA_AvVendorCmd (rc_handle (btif_rc_cb s)) (lbl (d ! p))
                             AVRC_CMD_STATUS cmd) s)
                      \<lparr>device := start_status_command_timer pdu p d\<rparr>)
              else (unat (AVRC_BldCommand s cmd), s\<lparr>device := d\<rparr>))))"

definition getcapabilities_cmd :: "8 word \<Rightarrow> rc_state \<Rightarrow> nat \<times> rc_state" where
  "getcapabilities_cmd cap_id = status_command AVRC_PDU_GET_CAPABILITIES (Cmd_get_caps cap_id)"

definition list_player_app_setting_attrib_cmd :: "rc_state \<Rightarrow> nat \<times> rc_state" where
  "list_player_app_setting_attrib_cmd =
     status_command AVRC_PDU_LIST_PLAYER_APP_ATTR Cmd_list_app_attr"

definition list_player_app_setting_value_cmd :: "8 word \<Rightarrow> rc_state \<Rightarrow> nat \<times> rc_state" where
  "list_player_app_setting_value_cmd attrib_id =
     status_command AVRC_PDU_LIST_PLAYER_APP_VALUES (Cmd_list_app_values attrib_id)"

definition get_player_app_setting_cmd :: "8 word list \<Rightarrow> rc_state \<Rightarrow> nat \<times> rc_state" where
  "get_player_app_setting_cmd attrib_ids =
     status_command AVRC_PDU_GET_CUR_PLAYER_APP_VALUE (Cmd_get_cur_app_val attrib_ids)"

text \<open>
  \<open>get_player_app_setting_attr_text_cmd\<close> has the same steps, but on the success path
  it calls \<open>osi_free(p_msg)\<close> after \<open>BTA_AvVendorCmd\<close> and once more before it
  returns. Freeing the buffer twice ends the process: the call does not return, which is
  the result \<open>None\<close>. The other paths free the buffer once and return.
\<close>

definition get_player_app_setting_attr_text_cmd ::
    "8 word list \<Rightarrow> rc_state \<Rightarrow> (nat \<times> rc_state) option" where
  "get_player_app_setting_attr_text_cmd attr_ids s =
     (if \<not> rc_connected (btif_rc_cb s) then Some (BT_STATUS_NOT_READY, s)
      else
        (case get_transaction (device s) of
           (tran_status, None, d) \<Rightarrow> Some (BT_STATUS_FAIL, s\<lparr>device := d\<rparr>)
         | (tran_status, Some p, d) \<Rightarrow>
             (if tran_status \<noteq> BT_STATUS_SUCCESS then Some (BT_STATUS_FAIL, s\<lparr>device := d\<rparr>)
              else if AVRC_BldCommand s (Cmd_get_app_attr_txt attr_ids) = AVRC_STS_NO_ERROR
              then None
              else Some (unat (AVRC_BldCommand s (Cmd_get_app_attr_txt attr_ids)),
                         s\<lparr>device := d\<rparr>))))"

definition get_player_app_setting_value_text_cmd :: "8 word list \<Rightarrow> rc_state \<Rightarrow> nat \<times> rc_state" where
  "get_player_app_setting_value_text_cmd vals =
     status_command AVRC_PDU_GET_PLAYER_APP_VALUE_TEXT (Cmd_get_app_val_txt vals)"

definition get_element_attribute_cmd :: "32 word list \<Rightarrow> rc_state \<Rightarrow> nat \<times> rc_state" where
  "get_element_attribute_cmd p_attr_ids =
     status_command AVRC_PDU_GET_ELEMENT_ATTR (Cmd_get_elem_attrs p_attr_ids)"

definition get_play_status_cmd :: "rc_state \<Rightarrow> nat \<times> rc_state" where
  "get_play_status_cmd = status_command AVRC_PDU_GET_PLAY_STATUS Cmd_get_play_status"

definition register_notification_cmd ::
    "8 word \<Rightarrow> 8 word \<Rightarrow> 32 word \<Rightarrow> rc_state \<Rightarrow> nat \<times> rc_state" where
  "register_notification_cmd l ev event_value s =
     (if \<not> rc_connected (btif_rc_cb s) then (BT_STATUS_NOT_READY, s)
      else if AVRC_BldCommand s (Cmd_reg_notif ev event_value) = AVRC_STS_NO_ERROR
      then (BT_STATUS_SUCCESS,
            emit (BTA_AvVendorCmd (rc_handle (btif_rc_cb s)) l AVRC_CMD_NOTIF
                    (Cmd_reg_notif ev event_value)) s)
      else (unat (AVRC_BldCommand s (Cmd_reg_notif ev event_value)), s))"

definition rc_ctrl_procedure_complete :: "rc_state \<Rightarrow> rc_state" where
  "rc_ctrl_procedure_complete s =
     (if rc_procedure_complete (btif_rc_cb s) then s
      else snd (get_element_attribute_cmd attr_list
                  (s\<lparr>btif_rc_cb := (btif_rc_cb s)\<lparr>rc_procedure_complete := True\<rparr>\<rparr>)))"

definition rc_start_play_status_timer :: "rc_state \<Rightarrow> rc_state" where
  "rc_start_play_status_timer s =
     (if \<not> alarm_is_scheduled (rc_play_status_timer (btif_rc_cb s))
      then s\<lparr>btif_rc_cb := (btif_rc_cb s)
               \<lparr>rc_play_status_timer :=
                  Alarm_set BTIF_TIMEOUT_RC_INTERIM_RSP_MS Play_status_timer_timeout\<rparr>\<rparr>
      else s)"

definition rc_stop_play_status_timer :: "rc_state \<Rightarrow> rc_state" where
  "rc_stop_play_status_timer s =
     (if rc_play_status_timer (btif_rc_cb s) \<noteq> Alarm_null
      then s\<lparr>btif_rc_cb := (btif_rc_cb s)
               \<lparr>rc_play_status_timer := alarm_cancel (rc_play_status_timer (btif_rc_cb s))\<rparr>\<rparr>
      else s)"

subsection \<open>The supported-event list\<close>

text \<open>
  Modelled from the spec: the osi list is not in the source file. Following the design
  note on linked-list iteration, the list is an ordered sequence, iteration visits the
  entries in order and stops at the first match, and \<open>list_front\<close> of an empty list is
  NULL (the caller tests its result against NULL). A pointer to an entry is its
  position. The handlers that iterate the list take it as an argument and give it back;
  their callers read it from \<open>rc_supported_event_list\<close> and store it there again.
\<close>

fun first_index :: "('a \<Rightarrow> bool) \<Rightarrow> 'a list \<Rightarrow> nat option" where
  "first_index P [] = None"
| "first_index P (x # xs) = (if P x then Some 0 else map_option Suc (first_index P xs))"

text \<open>\<open>list_foreach\<close> with \<open>iterate_supported_event_list_for_interim_rsp\<close>.\<close>

fun iterate_supported_event_list_for_interim_rsp ::
    "8 word \<Rightarrow> btif_rc_supported_event_t list \<Rightarrow> btif_rc_supported_event_t list" where
  "iterate_supported_event_list_for_interim_rsp ev [] = []"
| "iterate_supported_event_list_for_interim_rsp ev (p_event # rest) =
     (if event_id p_event = ev then p_event\<lparr>status := eINTERIM\<rparr> # rest
      else p_event # iterate_supported_event_list_for_interim_rsp ev rest)"

text \<open>\<open>list_foreach\<close> with \<open>iterate_supported_event_list_for_timeout\<close>.\<close>

fun iterate_supported_event_list_for_timeout ::
    "8 word \<Rightarrow> btif_rc_supported_event_t list \<Rightarrow> btif_rc_supported_event_t list" where
  "iterate_supported_event_list_for_timeout l [] = []"
| "iterate_supported_event_list_for_timeout l (p_event # rest) =
     (if label p_event = l then rest
      else p_event # iterate_supported_event_list_for_timeout l rest)"

definition register_for_event_notification ::
    "nat \<Rightarrow> btif_rc_supported_event_t list \<Rightarrow> rc_state
       \<Rightarrow> btif_rc_supported_event_t list \<times> rc_state" where
  "register_for_event_notification p_event evs s =
     (case get_transaction (device s) of
        (st, None, d) \<Rightarrow> (evs, s\<lparr>device := d\<rparr>)
      | (st, Some p, d) \<Rightarrow>
          (if st = BT_STATUS_SUCCESS
           then
             (case register_notification_cmd (lbl (d ! p)) (event_id (evs ! p_event)) 0
                     (s\<lparr>device := d\<rparr>) of
                (st2, s2) \<Rightarrow>
                  (if st2 \<noteq> BT_STATUS_SUCCESS
                   then (evs, s2\<lparr>device := release_transaction (lbl (d ! p)) (device s2)\<rparr>)
                   else
                     (evs[p_event := (evs ! p_event)\<lparr>label := lbl (d ! p), status := eREGISTERED\<rparr>],
                      s2\<lparr>device := (device s2)[p := (device s2 ! p)
                            \<lparr>txn_timer_context :=
                               \<lparr>ctx_label = lbl (d ! p),
                                ctx_pdu_id = AVRC_PDU_REGISTER_NOTIFICATION\<rparr>,
                             txn_timer := Alarm_set BTIF_TIMEOUT_RC_INTERIM_RSP_MS
                                            Status_cmd_timer_timeout\<rparr>]\<rparr>)))
           else (evs, s\<lparr>device := d\<rparr>)))"

text \<open>The loop both \<open>handle_notification_response\<close> (interim branch) and
  \<open>rc_notification_interim_timout\<close> run: register the first entry that is
  \<open>eNOT_REGISTERED\<close>, if there is one.\<close>

definition register_first_not_registered ::
    "btif_rc_supported_event_t list \<Rightarrow> rc_state
       \<Rightarrow> btif_rc_supported_event_t list \<times> rc_state" where
  "register_first_not_registered evs s =
     (case first_index (\<lambda>e. status e = eNOT_REGISTERED) evs of
        None \<Rightarrow> (evs, s)
      | Some p_event \<Rightarrow> register_for_event_notification p_event evs s)"

definition set_event_list :: "btif_rc_supported_event_t list \<times> rc_state \<Rightarrow> rc_state" where
  "set_event_list r =
     (snd r)\<lparr>btif_rc_cb := (btif_rc_cb (snd r))\<lparr>rc_supported_event_list := Some (fst r)\<rparr>\<rparr>"

definition rc_notification_interim_timout :: "8 word \<Rightarrow> rc_state \<Rightarrow> rc_state option" where
  "rc_notification_interim_timout l s =
     (case rc_supported_event_list (btif_rc_cb s) of
        None \<Rightarrow> None
      | Some evs \<Rightarrow>
          Some (set_event_list
                  (register_first_not_registered
                     (iterate_supported_event_list_for_timeout l evs) s)))"

definition supported_event :: "8 word \<Rightarrow> bool" where
  "supported_event ev \<longleftrightarrow>
     ev = AVRC_EVT_PLAY_STATUS_CHANGE \<or> ev = AVRC_EVT_TRACK_CHANGE
     \<or> ev = AVRC_EVT_APP_SETTING_CHANGE"

definition handle_get_capability_response :: "tAVRC_GET_CAPS_RSP \<Rightarrow> rc_state \<Rightarrow> rc_state" where
  "handle_get_capability_response p_rsp s =
     (if caps_status p_rsp \<noteq> AVRC_STS_NO_ERROR then s
      else if capability_id p_rsp = AVRC_CAP_EVENTS_SUPPORTED
      then
        (let evs = map (\<lambda>xx. \<lparr>event_id = param_event_id p_rsp xx,
                               label = osi_malloc_label s xx,
                               status = eNOT_REGISTERED\<rparr>)
                     (filter (\<lambda>xx. supported_event (param_event_id p_rsp xx))
                        [0..<unat (caps_count p_rsp)])
         in (case evs of
               [] \<Rightarrow> set_event_list (evs, s)
             | _ # _ \<Rightarrow> set_event_list (register_for_event_notification 0 evs s)))
      else if capability_id p_rsp = AVRC_CAP_COMPANY_ID
      then snd (getcapabilities_cmd AVRC_CAP_EVENTS_SUPPORTED s)
      else s)"

subsection \<open>Notification responses\<close>

definition rc_is_track_id_valid :: "8 word list \<Rightarrow> bool" where
  "rc_is_track_id_valid uid \<longleftrightarrow> uid \<noteq> replicate 8 0xFF"

definition BE_STREAM_TO_UINT64 :: "8 word list \<Rightarrow> 64 word" where
  "BE_STREAM_TO_UINT64 p_data = foldl (\<lambda>acc b. push_bit 8 acc OR ucast b) 0 (take 8 p_data)"

text \<open>The events both \<open>switch\<close> statements of \<open>handle_notification_response\<close> leave
  with \<open>break\<close>; on every other event id they \<open>return\<close>.\<close>

definition notification_event_handled :: "8 word \<Rightarrow> bool" where
  "notification_event_handled ev \<longleftrightarrow>
     ev = AVRC_EVT_PLAY_STATUS_CHANGE \<or> ev = AVRC_EVT_TRACK_CHANGE
     \<or> ev = AVRC_EVT_APP_SETTING_CHANGE \<or> ev = AVRC_EVT_NOW_PLAYING_CHANGE
     \<or> ev = AVRC_EVT_AVAL_PLAYERS_CHANGE \<or> ev = AVRC_EVT_ADDR_PLAYER_CHANGE
     \<or> ev = AVRC_EVT_UIDS_CHANGE"

definition set_query_started :: "rc_state \<Rightarrow> rc_state" where
  "set_query_started s =
     s\<lparr>btif_rc_cb := (btif_rc_cb s)
          \<lparr>rc_app_settings := (rc_app_settings (btif_rc_cb s))\<lparr>query_started := True\<rparr>\<rparr>\<rparr>"

text \<open>The interim branch. Iterating a NULL list is a failed assertion of the list
  module: the result is \<open>None\<close>.\<close>

definition handle_notification_interim :: "tAVRC_REG_NOTIF_RSP \<Rightarrow> rc_state \<Rightarrow> rc_state option" where
  "handle_notification_interim p_rsp s =
     (if \<not> notification_event_handled (rn_event_id p_rsp) then Some s
      else
        (let s1 =
               (if rn_event_id p_rsp = AVRC_EVT_PLAY_STATUS_CHANGE
                then emit (HAL_CBACK (play_status_changed_cb (param_play_status p_rsp)))
                       (if param_play_status p_rsp = AVRC_PLAYSTATE_PLAYING
                        then rc_start_play_status_timer s else s)
                else if rn_event_id p_rsp = AVRC_EVT_TRACK_CHANGE
                then (if \<not> rc_is_track_id_valid (param_track p_rsp) then s
                      else s\<lparr>btif_rc_cb := (btif_rc_cb s)
                               \<lparr>rc_playing_uid := BE_STREAM_TO_UINT64 (param_track p_rsp)\<rparr>\<rparr>)
                else s)
         in (case rc_supported_event_list (btif_rc_cb s1) of
               None \<Rightarrow> None
             | Some evs \<Rightarrow>
                 (let evs1 = iterate_supported_event_list_for_interim_rsp (rn_event_id p_rsp) evs;
                      s2 = set_event_list (register_first_not_registered evs1 s1);
                      p_event_null =
                        (if evs1 = [] then p_event_uninit_null s
                         else first_index (\<lambda>e. status e = eNOT_REGISTERED) evs1 = None)
                  in Some
                       (if p_event_null \<and> \<not> query_started (rc_app_settings (btif_rc_cb s2))
                        then (if rc_features (btif_rc_cb s2) AND BTA_AV_FEAT_APP_SETTING \<noteq> 0
                              then snd (list_player_app_setting_attrib_cmd (set_query_started s2))
                              else rc_ctrl_procedure_complete (set_query_started s2))
                        else s2)))))"

definition handle_notification_changed :: "tAVRC_REG_NOTIF_RSP \<Rightarrow> rc_state \<Rightarrow> rc_state option" where
  "handle_notification_changed p_rsp s =
     (case rc_supported_event_list (btif_rc_cb s) of
        None \<Rightarrow> None
      | Some evs \<Rightarrow>
          (let s1 = set_event_list
                 (case first_index (\<lambda>e. event_id e = rn_event_id p_rsp) evs of
                    None \<Rightarrow> (evs, s)
                  | Some p_event \<Rightarrow>
                      register_for_event_notification p_event
                        (evs[p_event := (evs ! p_event)\<lparr>status := eNOT_REGISTERED\<rparr>]) s)
           in Some
                (if rn_event_id p_rsp = AVRC_EVT_PLAY_STATUS_CHANGE
                 then emit (HAL_CBACK (play_status_changed_cb (param_play_status p_rsp)))
                        (if param_play_status p_rsp = AVRC_PLAYSTATE_PLAYING
                         then rc_start_play_status_timer s1 else rc_stop_play_status_timer s1)
                 else if rn_event_id p_rsp = AVRC_EVT_TRACK_CHANGE
                 then (if \<not> rc_is_track_id_valid (param_track p_rsp) then s1
                       else snd (get_element_attribute_cmd attr_list s1))
                 else if rn_event_id p_rsp = AVRC_EVT_APP_SETTING_CHANGE
                 then emit (HAL_CBACK (playerapplicationsetting_changed_cb
                              (map (\<lambda>xx. (ps_attr_id (param_player_setting p_rsp) xx,
                                           ps_attr_value (param_player_setting p_rsp) xx))
                                 [0..<unat (ps_num_attr (param_player_setting p_rsp))]))) s1
                 else s1)))"

definition handle_notification_response ::
    "8 word \<Rightarrow> tAVRC_REG_NOTIF_RSP \<Rightarrow> rc_state \<Rightarrow> rc_state option" where
  "handle_notification_response code p_rsp s =
     (if code = AVRC_RSP_INTERIM then handle_notification_interim p_rsp s
      else if code = AVRC_RSP_CHANGED then handle_notification_changed p_rsp s
      else Some s)"

subsection \<open>Player application settings\<close>

definition set_app_settings :: "btif_rc_player_app_settings_t \<Rightarrow> rc_state \<Rightarrow> rc_state" where
  "set_app_settings a s = s\<lparr>btif_rc_cb := (btif_rc_cb s)\<lparr>rc_app_settings := a\<rparr>\<rparr>"

definition std_attr_ids :: "btif_rc_player_app_settings_t \<Rightarrow> 8 word list" where
  "std_attr_ids a = map (\<lambda>xx. attr_id (attrs a xx)) [0..<unat (num_attrs a)]"

definition ext_attr_ids :: "btif_rc_player_app_settings_t \<Rightarrow> 8 word list" where
  "ext_attr_ids a = map (\<lambda>xx. ext_attr_id (ext_attrs a xx)) [0..<unat (num_ext_attrs a)]"

definition ext_vals :: "btrc_player_app_ext_attr_t \<Rightarrow> 8 word list" where
  "ext_vals e = map (\<lambda>xx. val (ext_attr_val e xx)) [0..<unat (ext_num_val e)]"

definition handle_app_attr_response :: "tAVRC_LIST_APP_ATTR_RSP \<Rightarrow> rc_state \<Rightarrow> rc_state" where
  "handle_app_attr_response p_rsp s =
     (if la_status p_rsp \<noteq> AVRC_STS_NO_ERROR then rc_ctrl_procedure_complete s
      else
        (let a = fold
                   (\<lambda>xx a.
                      if la_attrs p_rsp xx > AVRC_PLAYER_SETTING_LOW_MENU_EXT
                      then a\<lparr>ext_attrs := (ext_attrs a)
                               (unat (num_ext_attrs a) :=
                                  (ext_attrs a (unat (num_ext_attrs a)))
                                    \<lparr>ext_attr_id := la_attrs p_rsp xx\<rparr>),
                             num_ext_attrs := num_ext_attrs a + 1\<rparr>
                      else a\<lparr>attrs := (attrs a)
                               (unat (num_attrs a) :=
                                  (attrs a (unat (num_attrs a)))\<lparr>attr_id := la_attrs p_rsp xx\<rparr>),
                             num_attrs := num_attrs a + 1\<rparr>)
                   [0..<unat (la_num_attr p_rsp)]
                   (rc_app_settings (btif_rc_cb s));
             a1 = a\<lparr>attr_index := 0, ext_attr_index := 0, ext_val_index := 0\<rparr>
         in (if la_num_attr p_rsp \<noteq> 0
             then snd (list_player_app_setting_value_cmd (attr_id (attrs a1 0))
                         (set_app_settings a1 s))
             else set_app_settings a1 s)))"

definition handle_app_val_response ::
    "tAVRC_LIST_APP_VALUES_RSP \<Rightarrow> rc_state \<Rightarrow> rc_state option" where
  "handle_app_val_response p_rsp s =
     (if lv_status p_rsp \<noteq> AVRC_STS_NO_ERROR then Some s
      else
        (let a = rc_app_settings (btif_rc_cb s) in
         if attr_index a < num_attrs a
         then
           (let i = unat (attr_index a);
                a1 = a\<lparr>attrs := (attrs a)
                          (i := (attrs a i)
                             \<lparr>num_val := lv_num_val p_rsp,
                              attr_val := (\<lambda>xx. if xx < unat (lv_num_val p_rsp)
                                                then lv_vals p_rsp xx
                                                else attr_val (attrs a i) xx)\<rparr>),
                        attr_index := attr_index a + 1\<rparr>
            in if attr_index a + 1 < num_attrs a1
               then Some (snd (list_player_app_setting_value_cmd
                           (attr_id (attrs a1 (unat (attr_index a1)))) (set_app_settings a1 s)))
               else if ext_attr_index a1 < num_ext_attrs a1
               then Some (snd (list_player_app_setting_value_cmd (ext_attr_id (ext_attrs a1 0))
                           (set_app_settings (a1\<lparr>ext_attr_index := 0\<rparr>) s)))
               else Some (emit (HAL_CBACK (playerapplicationsetting_cb (num_attrs a1) (attrs a1)
                                  0 None))
                            (snd (get_player_app_setting_cmd (std_attr_ids a1)
                                    (set_app_settings a1 s)))))
         else if ext_attr_index a < num_ext_attrs a
         then
           (let i = unat (ext_attr_index a);
                a1 = a\<lparr>ext_attrs := (ext_attrs a)
                          (i := (ext_attrs a i)
                             \<lparr>ext_num_val := lv_num_val p_rsp,
                              ext_attr_val :=
                                (\<lambda>xx. if xx < unat (lv_num_val p_rsp)
                                       then (ext_attr_val (ext_attrs a i) xx)
                                              \<lparr>val := lv_vals p_rsp xx\<rparr>
                                       else ext_attr_val (ext_attrs a i) xx)\<rparr>),
                        ext_attr_index := ext_attr_index a + 1\<rparr>
            in if ext_attr_index a + 1 < num_ext_attrs a1
               then Some (snd (list_player_app_setting_value_cmd
                           (ext_attr_id (ext_attrs a1 (unat (ext_attr_index a1))))
                           (set_app_settings a1 s)))
               else map_option snd
                      (get_player_app_setting_attr_text_cmd (ext_attr_ids a1)
                         (set_app_settings a1 s)))
         else Some s))"

definition handle_app_cur_val_response :: "tAVRC_GET_CUR_APP_VALUE_RSP \<Rightarrow> rc_state \<Rightarrow> rc_state" where
  "handle_app_cur_val_response p_rsp s =
     (if cv_status p_rsp \<noteq> AVRC_STS_NO_ERROR then s
      else rc_ctrl_procedure_complete
             (emit (HAL_CBACK (playerapplicationsetting_changed_cb
                       (map (cv_p_vals p_rsp) [0..<unat (cv_num_val p_rsp)]))) s))"

text \<open>The error branch the two text handlers share up to the extra clean-up of the
  second: drop the extended attributes, report the standard ones to the HAL and ask for
  their current values.\<close>

definition handle_app_attr_txt_response :: "tAVRC_GET_APP_ATTR_TXT_RSP \<Rightarrow> rc_state \<Rightarrow> rc_state" where
  "handle_app_attr_txt_response p_rsp s =
     (let a = rc_app_settings (btif_rc_cb s) in
      if at_status p_rsp \<noteq> AVRC_STS_NO_ERROR
      then
        (let a1 = a\<lparr>num_ext_attrs := 0,
                     ext_attrs := (\<lambda>xx. if xx < unat (ext_attr_index a)
                                         then (ext_attrs a xx)\<lparr>p_str := None\<rparr>
                                         else ext_attrs a xx),
                     ext_attr_index := 0\<rparr>
         in snd (get_player_app_setting_cmd (std_attr_ids a1)
                   (emit (HAL_CBACK (playerapplicationsetting_cb (num_attrs a1) (attrs a1) 0 None))
                      (set_app_settings a1 s))))
      else
        (let a1 = fold
                    (\<lambda>xx a.
                       case find (\<lambda>x. ext_attr_id (ext_attrs a x) = txt_attr_id (at_p_attrs p_rsp xx))
                              [0..<unat (num_ext_attrs a)] of
                         None \<Rightarrow> a
                       | Some x \<Rightarrow>
                           a\<lparr>ext_attrs := (ext_attrs a)
                                (x := (ext_attrs a x)
                                   \<lparr>charset_id := txt_charset_id (at_p_attrs p_rsp xx),
                                    str_len := ucast (txt_str_len (at_p_attrs p_rsp xx)),
                                    p_str := txt_p_str (at_p_attrs p_rsp xx)\<rparr>)\<rparr>)
                    [0..<unat (at_num_attr p_rsp)] a
         in snd (get_player_app_setting_value_text_cmd (ext_vals (ext_attrs a1 0))
                   (set_app_settings a1 s))))"

definition free_ext_attr :: "btrc_player_app_ext_attr_t \<Rightarrow> btrc_player_app_ext_attr_t" where
  "free_ext_attr e =
     e\<lparr>ext_attr_val := (\<lambda>x. if x < unat (ext_num_val e)
                             then (ext_attr_val e x)\<lparr>val_p_str := None\<rparr>
                             else ext_attr_val e x),
       ext_num_val := 0,
       p_str := None\<rparr>"

definition handle_app_attr_val_txt_response ::
    "tAVRC_GET_APP_ATTR_TXT_RSP \<Rightarrow> rc_state \<Rightarrow> rc_state" where
  "handle_app_attr_val_txt_response p_rsp s =
     (let a = rc_app_settings (btif_rc_cb s) in
      if at_status p_rsp \<noteq> AVRC_STS_NO_ERROR
      then
        (let a1 = a\<lparr>num_ext_attrs := 0,
                     ext_attrs := (\<lambda>xx. if xx < unat (ext_attr_index a)
                                         then free_ext_attr (ext_attrs a xx)
                                         else ext_attrs a xx),
                     ext_attr_index := 0\<rparr>
         in snd (get_player_app_setting_cmd (std_attr_ids a1)
                   (emit (HAL_CBACK (playerapplicationsetting_cb (num_attrs a1) (attrs a1) 0 None))
                      (set_app_settings a1 s))))
      else
        (let i = unat (ext_val_index a);
             a1 = fold
                    (\<lambda>xx a.
                       case find (\<lambda>x. val (ext_attr_val (ext_attrs a i) x)
                                        = txt_attr_id (at_p_attrs p_rsp xx))
                              [0..<unat (at_num_attr p_rsp)] of
                         None \<Rightarrow> a
                       | Some x \<Rightarrow>
                           a\<lparr>ext_attrs := (ext_attrs a)
                                (i := (ext_attrs a i)
                                   \<lparr>ext_attr_val := (ext_attr_val (ext_attrs a i))
                                      (x := (ext_attr_val (ext_attrs a i) x)
                                         \<lparr>val_charset_id := txt_charset_id (at_p_attrs p_rsp xx),
                                          val_str_len := ucast (txt_str_len (at_p_attrs p_rsp xx)),
                                          val_p_str := txt_p_str (at_p_attrs p_rsp xx)\<rparr>)\<rparr>)\<rparr>)
                    [0..<unat (at_num_attr p_rsp)] a;
             a2 = a1\<lparr>ext_val_index := ext_val_index a1 + 1\<rparr>
         in if ext_val_index a2 < num_ext_attrs a2
            then snd (get_player_app_setting_value_text_cmd
                        (ext_vals (ext_attrs a2 (unat (ext_val_index a2))))
                        (set_app_settings a2 s))
            else
              (let s1 = snd (get_player_app_setting_cmd
                               (take (unat (num_attrs a2 + num_ext_attrs a2))
                                  (std_attr_ids a2 @ ext_attr_ids a2))
                               (emit (HAL_CBACK (playerapplicationsetting_cb (num_attrs a2)
                                        (attrs a2) (num_ext_attrs a2) (Some (ext_attrs a2))))
                                  (set_app_settings a2 s)))
               in set_app_settings
                    (a2\<lparr>ext_attrs := (\<lambda>xx. if xx < unat (ext_attr_index a2)
                                             then free_ext_attr (ext_attrs a2 xx)
                                             else ext_attrs a2 xx),
                        num_attrs := 0\<rparr>) s1)))"

definition handle_set_app_attr_val_response :: "8 word \<Rightarrow> rc_state \<Rightarrow> rc_state" where
  "handle_set_app_attr_val_response code s =
     emit (HAL_CBACK (setplayerappsetting_rsp_cb (if code = AVRC_RSP_ACCEPT then 1 else 0))) s"

definition handle_get_elem_attr_response :: "tAVRC_GET_ELEM_ATTRS_RSP \<Rightarrow> rc_state \<Rightarrow> rc_state" where
  "handle_get_elem_attr_response p_rsp s =
     (if ea_status p_rsp = AVRC_STS_NO_ERROR
      then emit (HAL_CBACK (track_changed_cb (ea_num_attr p_rsp)
                   (map (\<lambda>i. (ea_attr_id (ea_p_attrs p_rsp i),
                               (case name_p_str (ea_p_attrs p_rsp i) of
                                  None \<Rightarrow> []
                                | Some str \<Rightarrow>
                                    if name_str_len (ea_p_attrs p_rsp i) \<noteq> 0
                                    then take (unat (name_str_len (ea_p_attrs p_rsp i))) str
                                    else [])))
                      [0..<unat (ea_num_attr p_rsp)]))) s
      else if ea_status p_rsp = BTIF_RC_STS_TIMEOUT
      then snd (get_element_attribute_cmd attr_list s)
      else s)"

definition handle_get_playstatus_response :: "tAVRC_GET_PLAY_STATUS_RSP \<Rightarrow> rc_state \<Rightarrow> rc_state" where
  "handle_get_playstatus_response p_rsp s =
     (if gp_status p_rsp = AVRC_STS_NO_ERROR
      then emit (HAL_CBACK (play_position_changed_cb (song_len p_rsp) (song_pos p_rsp))) s
      else s)"

subsection \<open>The controller-side response dispatcher\<close>

definition release :: "8 word \<Rightarrow> rc_state \<Rightarrow> rc_state" where
  \<comment> \<open>\<open>release_transaction\<close> on the pool of the state\<close>
  "release l s = s\<lparr>device := release_transaction l (device s)\<rparr>"

text \<open>
  \<open>handle_avk_rc_metamsg_rsp\<close>. \<open>AVRC_Ctrl_ParsResponse\<close> is the external decoder; what it
  parsed from the message is the argument \<open>avrc_response\<close>. Its status is only logged.
\<close>

definition handle_avk_rc_metamsg_rsp ::
    "tBTA_AV_META_MSG \<Rightarrow> tAVRC_RESPONSE \<Rightarrow> rc_state \<Rightarrow> rc_state option" where
  "handle_avk_rc_metamsg_rsp pmeta_msg avrc_response s =
     (if msg_opcode pmeta_msg = AVRC_OP_VENDOR
         \<and> msg_code pmeta_msg \<ge> AVRC_RSP_NOT_IMPL \<and> msg_code pmeta_msg \<le> AVRC_RSP_INTERIM
      then
        (case avrc_response of
           Rsp_reg_notif r \<Rightarrow>
             (case handle_notification_response (msg_code pmeta_msg) r s of
                None \<Rightarrow> None
              | Some s1 \<Rightarrow>
                  (if msg_code pmeta_msg = AVRC_RSP_INTERIM
                   then Some (s1\<lparr>device := clear_cmd_timeout (msg_label pmeta_msg) (device s1)\<rparr>)
                   else Some (release (msg_label pmeta_msg) s1)))
         | Rsp_get_caps r \<Rightarrow>
             Some (release (msg_label pmeta_msg) (handle_get_capability_response r s))
         | Rsp_list_app_attr r \<Rightarrow>
             Some (release (msg_label pmeta_msg) (handle_app_attr_response r s))
         | Rsp_list_app_values r \<Rightarrow>
             map_option (release (msg_label pmeta_msg)) (handle_app_val_response r s)
         | Rsp_get_cur_app_val r \<Rightarrow>
             Some (release (msg_label pmeta_msg) (handle_app_cur_val_response r s))
         | Rsp_get_app_attr_txt r \<Rightarrow>
             Some (release (msg_label pmeta_msg) (handle_app_attr_txt_response r s))
         | Rsp_get_app_val_txt r \<Rightarrow>
             Some (release (msg_label pmeta_msg) (handle_app_attr_val_txt_response r s))
         | Rsp_set_app_val \<Rightarrow>
             Some (release (msg_label pmeta_msg)
                     (handle_set_app_attr_val_response (msg_code pmeta_msg) s))
         | Rsp_get_elem_attrs r \<Rightarrow>
             Some (release (msg_label pmeta_msg) (handle_get_elem_attr_response r s))
         | Rsp_get_play_status r \<Rightarrow>
             Some (release (msg_label pmeta_msg) (handle_get_playstatus_response r s))
         | Rsp_volume _ \<Rightarrow> Some (release (msg_label pmeta_msg) s)
         | Rsp_other _ \<Rightarrow> Some (release (msg_label pmeta_msg) s))
      else Some s)"

subsection \<open>Timeout handlers\<close>

text \<open>The timeout handlers pass a zeroed response with the status
  \<open>BTIF_RC_STS_TIMEOUT\<close>, and a zeroed \<open>meta_msg\<close>, to the response handlers.\<close>

text \<open>The cases of the \<open>switch\<close> in \<open>btif_rc_status_cmd_timeout_handler\<close> other than
  \<open>AVRC_PDU_REGISTER_NOTIFICATION\<close>. A timeout of \<open>GET_PLAYER_APP_VALUE_TEXT\<close> is
  passed to \<open>handle_app_attr_txt_response\<close>, as in the source.\<close>

definition status_cmd_timeout_response :: "8 word \<Rightarrow> rc_state \<Rightarrow> rc_state option" where
  "status_cmd_timeout_response pdu_id s =
       (if pdu_id = AVRC_PDU_GET_CAPABILITIES
        then Some (handle_get_capability_response
                \<lparr>caps_status = BTIF_RC_STS_TIMEOUT, capability_id = 0, caps_count = 0,
                 param_event_id = (\<lambda>_. 0)\<rparr> s)
        else if pdu_id = AVRC_PDU_LIST_PLAYER_APP_ATTR
        then Some (handle_app_attr_response
                \<lparr>la_status = BTIF_RC_STS_TIMEOUT, la_num_attr = 0, la_attrs = (\<lambda>_. 0)\<rparr> s)
        else if pdu_id = AVRC_PDU_LIST_PLAYER_APP_VALUES
        then handle_app_val_response
                \<lparr>lv_status = BTIF_RC_STS_TIMEOUT, lv_num_val = 0, lv_vals = (\<lambda>_. 0)\<rparr> s
        else if pdu_id = AVRC_PDU_GET_CUR_PLAYER_APP_VALUE
        then Some (handle_app_cur_val_response
                \<lparr>cv_status = BTIF_RC_STS_TIMEOUT, cv_num_val = 0, cv_p_vals = (\<lambda>_. (0, 0))\<rparr> s)
        else if pdu_id = AVRC_PDU_GET_PLAYER_APP_ATTR_TEXT
                \<or> pdu_id = AVRC_PDU_GET_PLAYER_APP_VALUE_TEXT
        then Some (handle_app_attr_txt_response
                \<lparr>at_status = BTIF_RC_STS_TIMEOUT, at_num_attr = 0,
                 at_p_attrs = (\<lambda>_. \<lparr>txt_attr_id = 0, txt_charset_id = 0, txt_str_len = 0,
                                     txt_p_str = None\<rparr>)\<rparr> s)
        else if pdu_id = AVRC_PDU_GET_ELEMENT_ATTR
        then Some (handle_get_elem_attr_response
                \<lparr>ea_status = BTIF_RC_STS_TIMEOUT, ea_num_attr = 0,
                 ea_p_attrs = (\<lambda>_. \<lparr>ea_attr_id = 0, name_str_len = 0, name_p_str = None\<rparr>)\<rparr> s)
        else if pdu_id = AVRC_PDU_GET_PLAY_STATUS
        then Some (handle_get_playstatus_response
                \<lparr>gp_status = BTIF_RC_STS_TIMEOUT, song_len = 0, song_pos = 0\<rparr> s)
        else Some s)"

definition btif_rc_status_cmd_timeout_handler ::
    "btif_rc_timer_context_t \<Rightarrow> rc_state \<Rightarrow> rc_state option" where
  "btif_rc_status_cmd_timeout_handler p_context s =
     map_option (release (ctx_label p_context))
       (if ctx_pdu_id p_context = AVRC_PDU_REGISTER_NOTIFICATION
        then rc_notification_interim_timout (ctx_label p_context) s
        else status_cmd_timeout_response (ctx_pdu_id p_context) s)"

definition btif_rc_control_cmd_timeout_handler ::
    "btif_rc_timer_context_t \<Rightarrow> rc_state \<Rightarrow> rc_state" where
  "btif_rc_control_cmd_timeout_handler p_context s =
     release (ctx_label p_context)
       (if ctx_pdu_id p_context = AVRC_PDU_SET_PLAYER_APP_VALUE
        then handle_set_app_attr_val_response 0 s else s)"

definition btif_rc_play_status_timeout_handler :: "rc_state \<Rightarrow> rc_state" where
  "btif_rc_play_status_timeout_handler s = rc_start_play_status_timer (snd (get_play_status_cmd s))"

text \<open>What reaches the controller side while a connection is up: a response, or one of
  the three timeouts, each handled to completion before the next.\<close>

datatype rc_event =
    Meta_msg_rsp tBTA_AV_META_MSG tAVRC_RESPONSE
  | Status_cmd_timeout btif_rc_timer_context_t
  | Control_cmd_timeout btif_rc_timer_context_t
  | Play_status_timeout

fun rc_step :: "rc_event \<Rightarrow> rc_state \<Rightarrow> rc_state option" where
  "rc_step (Meta_msg_rsp pmeta_msg avrc_response) s =
     handle_avk_rc_metamsg_rsp pmeta_msg avrc_response s"
| "rc_step (Status_cmd_timeout p_context) s = btif_rc_status_cmd_timeout_handler p_context s"
| "rc_step (Control_cmd_timeout p_context) s =
     Some (btif_rc_control_cmd_timeout_handler p_context s)"
| "rc_step Play_status_timeout s = Some (btif_rc_play_status_timeout_handler s)"

fun rc_run :: "rc_event list \<Rightarrow> rc_state \<Rightarrow> rc_state option" where
  "rc_run [] s = Some s"
| "rc_run (e # es) s = (case rc_step e s of None \<Rightarrow> None | Some s1 \<Rightarrow> rc_run es s1)"

subsection \<open>The target-side volume responses\<close>

definition register_volumechange :: "8 word \<Rightarrow> rc_state \<Rightarrow> rc_state" where
  "register_volumechange l s =
     (if AVRC_BldCommand s (Cmd_reg_notif AVRC_EVT_VOLUME_CHANGE 0) = AVRC_STS_NO_ERROR
      then (case get_transaction_by_lbl l (device s) of
              Some p \<Rightarrow>
                emit (BTA_AvMetaCmd (rc_handle (btif_rc_cb s)) (lbl (device s ! p)) AVRC_CMD_NOTIF
                        (Cmd_reg_notif AVRC_EVT_VOLUME_CHANGE 0)) s
            | None \<Rightarrow> s)
      else s)"

definition btif_rc_upstreams_rsp_evt :: "tAVRC_RESPONSE \<Rightarrow> 8 word \<Rightarrow> rc_state \<Rightarrow> rc_state" where
  "btif_rc_upstreams_rsp_evt pavrc_resp ctype s =
     (case pavrc_resp of
        Rsp_reg_notif r \<Rightarrow>
          emit (HAL_CBACK (volume_change_cb (param_volume r) ctype))
            (if ctype = AVRC_RSP_CHANGED
             then s\<lparr>btif_rc_cb := (btif_rc_cb s)\<lparr>rc_volume := ucast (param_volume r)\<rparr>\<rparr>
             else s)
      | Rsp_volume v \<Rightarrow>
          emit (HAL_CBACK (volume_change_cb v ctype))
            (if ctype = AVRC_RSP_ACCEPT
             then s\<lparr>btif_rc_cb := (btif_rc_cb s)\<lparr>rc_volume := ucast v\<rparr>\<rparr>
             else s)
      | _ \<Rightarrow> s)"

definition is_volume_change_notif :: "tAVRC_RESPONSE \<Rightarrow> bool" where
  \<comment> \<open>\<open>AVRC_PDU_REGISTER_NOTIFICATION == rsp.pdu && AVRC_EVT_VOLUME_CHANGE == reg_notif.event_id\<close>\<close>
  "is_volume_change_notif r =
     (case r of Rsp_reg_notif n \<Rightarrow> rn_event_id n = AVRC_EVT_VOLUME_CHANGE | _ \<Rightarrow> False)"

text \<open>\<open>handle_rc_metamsg_rsp\<close>; \<open>parse_status\<close> and \<open>avrc_response\<close> are what the external
  \<open>AVRC_ParsResponse\<close> returned for the message.\<close>

definition handle_rc_metamsg_rsp ::
    "tBTA_AV_META_MSG \<Rightarrow> 8 word \<Rightarrow> tAVRC_RESPONSE \<Rightarrow> rc_state \<Rightarrow> rc_state" where
  "handle_rc_metamsg_rsp pmeta_msg parse_status avrc_response s =
     (if msg_opcode pmeta_msg = AVRC_OP_VENDOR
         \<and> (msg_code pmeta_msg = AVRC_RSP_CHANGED \<or> msg_code pmeta_msg = AVRC_RSP_INTERIM
            \<or> msg_code pmeta_msg = AVRC_RSP_ACCEPT \<or> msg_code pmeta_msg = AVRC_RSP_REJ
            \<or> msg_code pmeta_msg = AVRC_RSP_NOT_IMPL)
      then
        (if parse_status \<noteq> AVRC_STS_NO_ERROR
         then
           (if is_volume_change_notif avrc_response
               \<and> rc_vol_label (btif_rc_cb s) = msg_label pmeta_msg
            then release MAX_LABEL (s\<lparr>btif_rc_cb := (btif_rc_cb s)\<lparr>rc_vol_label := MAX_LABEL\<rparr>\<rparr>)
            else if rsp_pdu avrc_response = AVRC_PDU_SET_ABSOLUTE_VOLUME
            then release (msg_label pmeta_msg) s
            else s)
         else if is_volume_change_notif avrc_response
                 \<and> rc_vol_label (btif_rc_cb s) \<noteq> msg_label pmeta_msg
         then s
         else
           btif_rc_upstreams_rsp_evt avrc_response (msg_code pmeta_msg)
             (if is_volume_change_notif avrc_response \<and> msg_code pmeta_msg = AVRC_RSP_CHANGED
              then register_volumechange (rc_vol_label (btif_rc_cb s)) s
              else if rsp_pdu avrc_response = AVRC_PDU_SET_ABSOLUTE_VOLUME
              then release (msg_label pmeta_msg) s
              else s))
      else s)"

subsection \<open>Notions used in the statements\<close>

text \<open>A well-formed pool has its 16 slots, each carrying its own index as label, as
  \<open>lbl_init\<close> builds it and every pool operation keeps it.\<close>

definition pool_wf :: "rc_device_t \<Rightarrow> bool" where
  "pool_wf d \<longleftrightarrow>
     length d = MAX_TRANSACTIONS_PER_SESSION
     \<and> (\<forall>i < MAX_TRANSACTIONS_PER_SESSION. lbl (d ! i) = of_nat i)"

text \<open>The event ids of the \<open>REGISTER_NOTIFICATION\<close> commands of a trace, in the order
  sent, and the number of \<open>LIST_PLAYER_APP_ATTR\<close> commands in it.\<close>

fun reg_notif_events :: "action list \<Rightarrow> 8 word list" where
  "reg_notif_events [] = []"
| "reg_notif_events (BTA_AvVendorCmd h l c (Cmd_reg_notif ev v) # acts) = ev # reg_notif_events acts"
| "reg_notif_events (a # acts) = reg_notif_events acts"

fun list_app_attr_cmds :: "action list \<Rightarrow> nat" where
  "list_app_attr_cmds [] = 0"
| "list_app_attr_cmds (BTA_AvVendorCmd h l c Cmd_list_app_attr # acts) = Suc (list_app_attr_cmds acts)"
| "list_app_attr_cmds (a # acts) = list_app_attr_cmds acts"

definition event_list :: "rc_state \<Rightarrow> btif_rc_supported_event_t list" where
  "event_list s = (case rc_supported_event_list (btif_rc_cb s) of None \<Rightarrow> [] | Some evs \<Rightarrow> evs)"

text \<open>The registrations in flight: entries whose command went out and whose interim
  response has not arrived (\<open>eREGISTERED\<close>).\<close>

definition in_flight :: "rc_state \<Rightarrow> nat" where
  "in_flight s = length (filter (\<lambda>e. status e = eREGISTERED) (event_list s))"

text \<open>A capabilities response is the one event that builds the supported-event list.\<close>

fun builds_event_list :: "rc_event \<Rightarrow> bool" where
  "builds_event_list (Meta_msg_rsp m (Rsp_get_caps r)) = True"
| "builds_event_list e = False"

subsection \<open>Example states\<close>

text \<open>A session as \<open>init_ctrl\<close> and \<open>handle_rc_connect\<close> leave it, with a peer that
  supports player application settings, an encoder that accepts every command, and zero
  for the uninitialised bytes.\<close>

definition zero_app_settings :: btif_rc_player_app_settings_t where
  "zero_app_settings =
     \<lparr>query_started = False, num_attrs = 0, num_ext_attrs = 0, attr_index = 0,
      ext_attr_index = 0, ext_val_index = 0,
      attrs = (\<lambda>_. \<lparr>attr_id = 0, num_val = 0, attr_val = (\<lambda>_. 0)\<rparr>),
      ext_attrs = (\<lambda>_. \<lparr>ext_attr_id = 0, charset_id = 0, str_len = 0, p_str = None,
                         ext_num_val = 0,
                         ext_attr_val = (\<lambda>_. \<lparr>val = 0, val_charset_id = 0, val_str_len = 0,
                                               val_p_str = None\<rparr>)\<rparr>)\<rparr>"

definition connected_state :: rc_state where
  "connected_state =
     \<lparr>device = lbl_init,
      btif_rc_cb =
        \<lparr>rc_connected = True, rc_handle = 1, rc_features = 0x2049, rc_volume = MAX_VOLUME,
         rc_vol_label = MAX_LABEL, rc_supported_event_list = None,
         rc_app_settings = zero_app_settings, rc_play_status_timer = Alarm_null,
         rc_features_processed = True, rc_playing_uid = - 1,
         rc_procedure_complete = False\<rparr>,
      sent = [],
      AVRC_BldCommand = (\<lambda>_. AVRC_STS_NO_ERROR),
      osi_malloc_label = (\<lambda>_. 0),
      p_event_uninit_null = False\<rparr>"

text \<open>The events query is out (label 0), as after the company-id response.\<close>

definition events_query_sent :: rc_state where
  "events_query_sent = snd (getcapabilities_cmd AVRC_CAP_EVENTS_SUPPORTED connected_state)"

definition vendor_rsp :: "8 word \<Rightarrow> 8 word \<Rightarrow> tBTA_AV_META_MSG" where
  "vendor_rsp code l = \<lparr>msg_opcode = AVRC_OP_VENDOR, msg_code = code, msg_label = l\<rparr>"

definition events_supported_caps :: "8 word list \<Rightarrow> tAVRC_GET_CAPS_RSP" where
  "events_supported_caps evs =
     \<lparr>caps_status = AVRC_STS_NO_ERROR, capability_id = AVRC_CAP_EVENTS_SUPPORTED,
      caps_count = of_nat (length evs),
      param_event_id = (\<lambda>xx. if xx < length evs then evs ! xx else 0)\<rparr>"

definition events_supported_rsp :: "8 word list \<Rightarrow> tAVRC_RESPONSE" where
  "events_supported_rsp evs = Rsp_get_caps (events_supported_caps evs)"

definition notif :: "8 word \<Rightarrow> 8 word \<Rightarrow> tAVRC_REG_NOTIF_RSP" where
  "notif ev play_status =
     \<lparr>rn_event_id = ev, param_play_status = play_status,
      param_track = [0, 0, 0, 0, 0, 0, 0, 1],
      param_player_setting =
        \<lparr>ps_num_attr = 0, ps_attr_id = (\<lambda>_. 0), ps_attr_value = (\<lambda>_. 0)\<rparr>,
      param_volume = 0\<rparr>"

definition notif_rsp :: "8 word \<Rightarrow> 8 word \<Rightarrow> tAVRC_RESPONSE" where
  "notif_rsp ev play_status = Rsp_reg_notif (notif ev play_status)"

text \<open>The peer answered the events query with play-status, battery-status and
  track-change events: the list holds the first and the third, and the registration of
  the first is out under label 1.\<close>

definition example_registering :: rc_state where
  "example_registering =
     release 0 (handle_get_capability_response
                  (events_supported_caps
                     [AVRC_EVT_PLAY_STATUS_CHANGE, AVRC_EVT_BATTERY_STATUS_CHANGE,
                      AVRC_EVT_TRACK_CHANGE])
                  events_query_sent)"


text \<open>\<open>quiet s s'\<close>: going from \<open>s\<close> to \<open>s'\<close> left the supported-event list and the
  \<open>query_started\<close> flag as they were, did not clear \<open>rc_procedure_complete\<close>, and sent
  neither a \<open>REGISTER_NOTIFICATION\<close> nor a \<open>LIST_PLAYER_APP_ATTR\<close> command.\<close>

definition quiet :: "rc_state \<Rightarrow> rc_state \<Rightarrow> bool" where
  "quiet s s' \<longleftrightarrow>
     rc_supported_event_list (btif_rc_cb s') = rc_supported_event_list (btif_rc_cb s)
     \<and> query_started (rc_app_settings (btif_rc_cb s')) = query_started (rc_app_settings (btif_rc_cb s))
     \<and> (rc_procedure_complete (btif_rc_cb s) \<longrightarrow> rc_procedure_complete (btif_rc_cb s'))
     \<and> reg_notif_events (sent s') = reg_notif_events (sent s)
     \<and> list_app_attr_cmds (sent s') = list_app_attr_cmds (sent s)"

text \<open>\<open>pool_kept d d'\<close>: \<open>d'\<close> is well formed and every slot that was in use in \<open>d\<close> is
  untouched.\<close>

definition pool_kept :: "rc_device_t \<Rightarrow> rc_device_t \<Rightarrow> bool" where
  "pool_kept d d' \<longleftrightarrow> pool_wf d' \<and> (\<forall>i. in_use (d ! i) \<longrightarrow> d' ! i = d ! i)"

definition event_ids :: "rc_state \<Rightarrow> 8 word set" where
  "event_ids s = event_id ` set (event_list s)"

text \<open>\<open>flags_kept s s'\<close>: \<open>rc_procedure_complete\<close> and \<open>query_started\<close> were not
  cleared, and a \<open>LIST_PLAYER_APP_ATTR\<close> command was sent at most once, only while
  \<open>query_started\<close> was clear and together with setting it.\<close>

definition flags_kept :: "rc_state \<Rightarrow> rc_state \<Rightarrow> bool" where
  "flags_kept s s' \<longleftrightarrow>
     (rc_procedure_complete (btif_rc_cb s) \<longrightarrow> rc_procedure_complete (btif_rc_cb s'))
     \<and> (query_started (rc_app_settings (btif_rc_cb s)) \<longrightarrow>
          query_started (rc_app_settings (btif_rc_cb s'))
          \<and> list_app_attr_cmds (sent s') = list_app_attr_cmds (sent s))
     \<and> list_app_attr_cmds (sent s') \<le> list_app_attr_cmds (sent s) + 1
     \<and> (list_app_attr_cmds (sent s') \<noteq> list_app_attr_cmds (sent s) \<longrightarrow>
          query_started (rc_app_settings (btif_rc_cb s')))"

text \<open>\<open>tame s s'\<close>: moreover no event id was added to the list, and every
  \<open>REGISTER_NOTIFICATION\<close> sent was for an event id of the list.\<close>

definition tame :: "rc_state \<Rightarrow> rc_state \<Rightarrow> bool" where
  "tame s s' \<longleftrightarrow>
     event_ids s' \<subseteq> event_ids s
     \<and> (\<exists>X. reg_notif_events (sent s') = reg_notif_events (sent s) @ X \<and> set X \<subseteq> event_ids s)
     \<and> flags_kept s s'"

text \<open>\<open>sup_inv s\<close>: the list holds only the three events the file registers for.\<close>

definition sup_inv :: "rc_state \<Rightarrow> bool" where
  "sup_inv s \<longleftrightarrow> (\<forall>ev\<in>event_ids s. supported_event ev)"

text \<open>\<open>keeps s s'\<close>: if the pool of \<open>s\<close> is well formed, so is the pool of \<open>s'\<close>, and
  the slots in use in \<open>s\<close> are untouched.\<close>

definition keeps :: "rc_state \<Rightarrow> rc_state \<Rightarrow> bool" where
  "keeps s s' \<longleftrightarrow> (pool_wf (device s) \<longrightarrow> pool_kept (device s) (device s'))"

text \<open>\<open>registered_first s s'\<close>: between \<open>s\<close> and \<open>s'\<close> at most one
  \<open>REGISTER_NOTIFICATION\<close> went out, and if one did it was for an entry of the list of
  \<open>s'\<close> that is now \<open>eREGISTERED\<close> and has no \<open>eNOT_REGISTERED\<close> entry before it.\<close>

definition registered_first :: "rc_state \<Rightarrow> rc_state \<Rightarrow> bool" where
  "registered_first s s' \<longleftrightarrow>
     reg_notif_events (sent s') = reg_notif_events (sent s)
     \<or> (\<exists>k < length (event_list s').
           reg_notif_events (sent s') = reg_notif_events (sent s) @ [event_id (event_list s' ! k)]
           \<and> status (event_list s' ! k) = eREGISTERED
           \<and> (\<forall>j < k. status (event_list s' ! j) \<noteq> eNOT_REGISTERED))"

text \<open>The commands that answer a track change: the notification is registered again and
  the element attributes are fetched.\<close>

fun refetch_action :: "action \<Rightarrow> bool" where
  "refetch_action (BTA_AvVendorCmd h l c (Cmd_reg_notif ev v)) \<longleftrightarrow> ev = AVRC_EVT_TRACK_CHANGE"
| "refetch_action (BTA_AvVendorCmd h l c (Cmd_get_elem_attrs ids)) \<longleftrightarrow> True"
| "refetch_action a \<longleftrightarrow> False"

subsection \<open>More example states\<close>

text \<open>\<open>example_registering\<close> after the procedure was completed.\<close>

definition example_completed :: rc_state where
  "example_completed = rc_ctrl_procedure_complete example_registering"

text \<open>The peer advertised three events; the first one sent its interim response and
  then changed while the registration of the second was still out.\<close>

definition example_changed_run :: "rc_event list" where
  "example_changed_run =
     [Meta_msg_rsp (vendor_rsp AVRC_RSP_IMPL_STBL 0)
        (events_supported_rsp
           [AVRC_EVT_PLAY_STATUS_CHANGE, AVRC_EVT_TRACK_CHANGE, AVRC_EVT_APP_SETTING_CHANGE]),
      Meta_msg_rsp (vendor_rsp AVRC_RSP_INTERIM 1) (notif_rsp AVRC_EVT_PLAY_STATUS_CHANGE 1),
      Meta_msg_rsp (vendor_rsp AVRC_RSP_CHANGED 1) (notif_rsp AVRC_EVT_PLAY_STATUS_CHANGE 2)]"

text \<open>The peer advertised the play-status event only: its registration, out under
  label 1, is the last one.\<close>

definition example_last_registration :: rc_state where
  "example_last_registration =
     release 0 (handle_get_capability_response
                  (events_supported_caps [AVRC_EVT_PLAY_STATUS_CHANGE]) events_query_sent)"

text \<open>The peer advertised the play-status event twice, and the first registration timed
  out.\<close>

definition example_duplicate_run :: "rc_event list" where
  "example_duplicate_run =
     [Meta_msg_rsp (vendor_rsp AVRC_RSP_IMPL_STBL 0)
        (events_supported_rsp [AVRC_EVT_PLAY_STATUS_CHANGE, AVRC_EVT_PLAY_STATUS_CHANGE]),
      Status_cmd_timeout \<lparr>ctx_label = 1, ctx_pdu_id = AVRC_PDU_REGISTER_NOTIFICATION\<rparr>]"

text \<open>The registration of the play-status event timed out, and a second answer to the
  events query arrived afterwards.\<close>

definition example_rebuilt_run :: "rc_event list" where
  "example_rebuilt_run =
     [Meta_msg_rsp (vendor_rsp AVRC_RSP_IMPL_STBL 0)
        (events_supported_rsp [AVRC_EVT_PLAY_STATUS_CHANGE, AVRC_EVT_TRACK_CHANGE]),
      Status_cmd_timeout \<lparr>ctx_label = 1, ctx_pdu_id = AVRC_PDU_REGISTER_NOTIFICATION\<rparr>,
      Meta_msg_rsp (vendor_rsp AVRC_RSP_IMPL_STBL 2)
        (events_supported_rsp [AVRC_EVT_PLAY_STATUS_CHANGE, AVRC_EVT_TRACK_CHANGE])]"

text \<open>The application-settings query found one attribute (the equalizer, id 1); the
  query for its values is out under label 1.\<close>

definition example_values_pending :: rc_state where
  "example_values_pending =
     release 0
       (handle_app_attr_response
          \<lparr>la_status = AVRC_STS_NO_ERROR, la_num_attr = 1, la_attrs = (\<lambda>_. 1)\<rparr>
          (snd (list_player_app_setting_attrib_cmd (set_query_started connected_state))))"



definition rejected_values :: tAVRC_LIST_APP_VALUES_RSP where
  "rejected_values = \<lparr>lv_status = 0x01, lv_num_val = 0, lv_vals = (\<lambda>_. 0)\<rparr>"

definition rejected_cur_values :: tAVRC_GET_CUR_APP_VALUE_RSP where
  "rejected_cur_values = \<lparr>cv_status = 0x01, cv_num_val = 0, cv_p_vals = (\<lambda>_. (0, 0))\<rparr>"

text \<open>A target-side session as \<open>handle_rc_features\<close> leaves it: the volume-change
  notification is registered under label 0, the first label of the pool.\<close>

definition example_volume_subscribed :: rc_state where
  "example_volume_subscribed =
     connected_state
       \<lparr>device := pool_run [Acquire],
        btif_rc_cb := (btif_rc_cb connected_state)\<lparr>rc_vol_label := 0\<rparr>\<rparr>"

definition volume_notif :: "8 word \<Rightarrow> tAVRC_REG_NOTIF_RSP" where
  "volume_notif v =
     \<lparr>rn_event_id = AVRC_EVT_VOLUME_CHANGE, param_play_status = 0,
      param_track = replicate 8 0,
      param_player_setting = \<lparr>ps_num_attr = 0, ps_attr_id = (\<lambda>_. 0), ps_attr_value = (\<lambda>_. 0)\<rparr>,
      param_volume = v\<rparr>"
section \<open>Properties\<close>

subsection \<open>The transaction pool\<close>

lemma length_clear_cmd_timeout [simp]: "length (clear_cmd_timeout l d) = length d"
  by (simp add: clear_cmd_timeout_def split: option.splits)

lemma length_initialize_transaction [simp]: "length (initialize_transaction l d) = length d"
  by (simp add: initialize_transaction_def Let_def)

lemma length_release_transaction [simp]: "length (release_transaction l d) = length d"
  by (simp add: release_transaction_def split: option.splits)

lemma length_get_transaction [simp]: "length (snd (snd (get_transaction d))) = length d"
  by (simp add: get_transaction_def split: option.splits)

lemma length_init_all_transactions [simp]: "length (init_all_transactions d) = length d"
proof -
  have "length (fold initialize_transaction ls d) = length d" for ls
    by (induction ls arbitrary: d) simp_all
  then show ?thesis by (simp add: init_all_transactions_def)
qed

lemma length_lbl_init [simp]: "length lbl_init = MAX_TRANSACTIONS_PER_SESSION"
  by (simp add: lbl_init_def)

lemma length_pool_step [simp]: "length (pool_step c d) = length d"
  by (cases c) simp_all

lemma length_fold_pool_step: "length (fold pool_step cs d) = length d"
  by (induction cs arbitrary: d) simp_all

lemma length_pool_run [simp]: "length (pool_run cs) = MAX_TRANSACTIONS_PER_SESSION"
  by (simp add: pool_run_def length_fold_pool_step)

lemma get_transaction_loop_None:
  "get_transaction_loop i d = None \<longleftrightarrow>
     (\<forall>j. i \<le> j \<and> j < MAX_TRANSACTIONS_PER_SESSION \<longrightarrow> in_use (d ! j))"
proof (induction i d rule: get_transaction_loop.induct)
  case (1 i d)
  show ?case
  proof (cases "i < MAX_TRANSACTIONS_PER_SESSION")
    case False
    then have "get_transaction_loop i d = None"
      by (subst get_transaction_loop.simps) simp
    moreover have "\<forall>j. i \<le> j \<and> j < MAX_TRANSACTIONS_PER_SESSION \<longrightarrow> in_use (d ! j)"
      using False by auto
    ultimately show ?thesis by simp
  next
    case lt: True
    show ?thesis
    proof (cases "in_use (d ! i)")
      case False
      then have "get_transaction_loop i d = Some i"
        using lt by (subst get_transaction_loop.simps) simp
      moreover have "\<not> (\<forall>j. i \<le> j \<and> j < MAX_TRANSACTIONS_PER_SESSION \<longrightarrow> in_use (d ! j))"
        using False lt by (auto intro: exI [of _ i])
      ultimately show ?thesis by simp
    next
      case True
      then have eq: "get_transaction_loop i d = get_transaction_loop (Suc i) d"
        using lt by (subst get_transaction_loop.simps) simp
      have ih: "(get_transaction_loop (Suc i) d = None) =
          (\<forall>j. Suc i \<le> j \<and> j < MAX_TRANSACTIONS_PER_SESSION \<longrightarrow> in_use (d ! j))"
        using "1.IH" lt True by simp
      have "(\<forall>j. Suc i \<le> j \<and> j < MAX_TRANSACTIONS_PER_SESSION \<longrightarrow> in_use (d ! j))
          \<longleftrightarrow> (\<forall>j. i \<le> j \<and> j < MAX_TRANSACTIONS_PER_SESSION \<longrightarrow> in_use (d ! j))"
      proof (intro iffI allI impI)
        fix j assume a: "\<forall>j. Suc i \<le> j \<and> j < MAX_TRANSACTIONS_PER_SESSION \<longrightarrow> in_use (d ! j)"
          and b: "i \<le> j \<and> j < MAX_TRANSACTIONS_PER_SESSION"
        show "in_use (d ! j)"
        proof (cases "j = i")
          case True with \<open>in_use (d ! i)\<close> show ?thesis by simp
        next
          case False
          with b have "Suc i \<le> j" by arith
          with a b show ?thesis by blast
        qed
      next
        fix j assume a: "\<forall>j. i \<le> j \<and> j < MAX_TRANSACTIONS_PER_SESSION \<longrightarrow> in_use (d ! j)"
          and b: "Suc i \<le> j \<and> j < MAX_TRANSACTIONS_PER_SESSION"
        from b have "i \<le> j" by arith
        with a b show "in_use (d ! j)" by blast
      qed
      with eq ih show ?thesis by simp
    qed
  qed
qed

lemma get_transaction_loop_Some:
  "get_transaction_loop i d = Some k \<Longrightarrow>
     i \<le> k \<and> k < MAX_TRANSACTIONS_PER_SESSION \<and> \<not> in_use (d ! k)
     \<and> (\<forall>j. i \<le> j \<and> j < k \<longrightarrow> in_use (d ! j))"
proof (induction i d rule: get_transaction_loop.induct)
  case (1 i d)
  show ?case
  proof (cases "i < MAX_TRANSACTIONS_PER_SESSION")
    case False
    then have "get_transaction_loop i d = None"
      by (subst get_transaction_loop.simps) simp
    with "1.prems" show ?thesis by simp
  next
    case lt: True
    show ?thesis
    proof (cases "in_use (d ! i)")
      case False
      then have "get_transaction_loop i d = Some i"
        using lt by (subst get_transaction_loop.simps) simp
      with "1.prems" have "k = i" by simp
      with False lt show ?thesis by auto
    next
      case True
      then have eq: "get_transaction_loop i d = get_transaction_loop (Suc i) d"
        using lt by (subst get_transaction_loop.simps) simp
      with "1.prems" have "get_transaction_loop (Suc i) d = Some k" by simp
      with "1.IH" lt True
      have ih: "Suc i \<le> k \<and> k < MAX_TRANSACTIONS_PER_SESSION \<and> \<not> in_use (d ! k)
          \<and> (\<forall>j. Suc i \<le> j \<and> j < k \<longrightarrow> in_use (d ! j))" by simp
      have "in_use (d ! j)" if b: "i \<le> j \<and> j < k" for j
      proof (cases "j = i")
        case True with \<open>in_use (d ! i)\<close> show ?thesis by simp
      next
        case False
        with b have "Suc i \<le> j" by arith
        with ih b show ?thesis by blast
      qed
      moreover from ih have "i \<le> k" by arith
      ultimately show ?thesis using ih by blast
    qed
  qed
qed

lemma in_use_count_le: "in_use_count d \<le> length d"
  by (simp add: in_use_count_def)

lemma filter_in_use_all:
  "length (filter in_use xs) = length xs \<Longrightarrow> \<forall>x\<in>set xs. in_use x"
proof (induction xs)
  case Nil then show ?case by simp
next
  case (Cons x xs)
  have le: "length (filter in_use xs) \<le> length xs" by simp
  show ?case
  proof (cases "in_use x")
    case True
    with Cons.prems have "length (filter in_use xs) = length xs" by simp
    with Cons.IH True show ?thesis by simp
  next
    case False
    with Cons.prems have "length (filter in_use xs) = Suc (length xs)" by simp
    with le show ?thesis by arith
  qed
qed

lemma in_use_count_full:
  "in_use_count d = length d \<Longrightarrow> j < length d \<Longrightarrow> in_use (d ! j)"
  using filter_in_use_all [of d] nth_mem [of j d] by (auto simp: in_use_count_def)

lemma get_transaction_full:
  assumes "length d = MAX_TRANSACTIONS_PER_SESSION" "in_use_count d = MAX_TRANSACTIONS_PER_SESSION"
  shows "get_transaction d = (BT_STATUS_NOMEM, None, d)"
proof -
  have "get_transaction_loop 0 d = None"
    using assms in_use_count_full [of d] by (simp add: get_transaction_loop_None)
  then show ?thesis by (simp add: get_transaction_def)
qed

lemma release_frees:
  assumes "length d = MAX_TRANSACTIONS_PER_SESSION" "unat l < MAX_TRANSACTIONS_PER_SESSION"
  shows "\<not> in_use (release_transaction l d ! unat l)"
  using assms
  by (auto simp: release_transaction_def get_transaction_by_lbl_def initialize_transaction_def
      Let_def clear_cmd_timeout_def split: option.splits)

lemma get_transaction_after_release:
  assumes "length d = MAX_TRANSACTIONS_PER_SESSION" "unat l < MAX_TRANSACTIONS_PER_SESSION"
  shows "\<exists>i. i < MAX_TRANSACTIONS_PER_SESSION \<and> \<not> in_use (release_transaction l d ! i) \<and>
     get_transaction (release_transaction l d) =
       (BT_STATUS_SUCCESS, Some i,
        (release_transaction l d)[i := (release_transaction l d ! i)\<lparr>in_use := True\<rparr>])"
proof -
  let ?r = "release_transaction l d"
  have "get_transaction_loop 0 ?r \<noteq> None"
    using release_frees [OF assms] assms(2) by (auto simp: get_transaction_loop_None)
  then obtain i where i: "get_transaction_loop 0 ?r = Some i" by auto
  from get_transaction_loop_Some [OF i] i show ?thesis
    by (auto simp: get_transaction_def)
qed

lemma get_transaction_after_release_full:
  assumes "length d = MAX_TRANSACTIONS_PER_SESSION" "unat l < MAX_TRANSACTIONS_PER_SESSION"
    and "in_use_count d = MAX_TRANSACTIONS_PER_SESSION"
  shows "get_transaction (release_transaction l d) =
       (BT_STATUS_SUCCESS, Some (unat l),
        (release_transaction l d)[unat l := (release_transaction l d ! unat l)\<lparr>in_use := True\<rparr>])"
proof -
  let ?r = "release_transaction l d"
  have all: "\<And>j. j < MAX_TRANSACTIONS_PER_SESSION \<Longrightarrow> in_use (d ! j)"
    using in_use_count_full [of d] assms by simp
  have other: "j < MAX_TRANSACTIONS_PER_SESSION \<Longrightarrow> j \<noteq> unat l \<Longrightarrow> in_use (?r ! j)" for j
    using all [of j] assms(1,2)
    by (auto simp: release_transaction_def get_transaction_by_lbl_def initialize_transaction_def
      Let_def clear_cmd_timeout_def split: option.splits)
  have "get_transaction_loop 0 ?r \<noteq> None"
    using release_frees [OF assms(1,2)] assms(2) by (auto simp: get_transaction_loop_None)
  then obtain i where i: "get_transaction_loop 0 ?r = Some i" by auto
  from get_transaction_loop_Some [OF i] have "i < MAX_TRANSACTIONS_PER_SESSION" "\<not> in_use (?r ! i)"
    by simp_all
  with other [of i] have "i = unat l" by blast
  with i show ?thesis by (simp add: get_transaction_def)
qed

text \<open>
  Claim C1. Whatever sequence of \<open>get_transaction\<close> and \<open>release_transaction\<close> calls
  is run on the initial pool, at most \<open>MAX_TRANSACTIONS_PER_SESSION\<close> (16) slots are
  in use. When all 16 are in use, \<open>get_transaction\<close> returns \<open>BT_STATUS_NOMEM\<close>, writes
  no slot and leaves the pool as it is, and after \<open>release_transaction l\<close> for any slot
  \<open>l\<close> the next \<open>get_transaction\<close> succeeds and hands out that slot. In any reachable
  pool, an acquire that follows a release of a slot below 16 succeeds and returns a slot
  that was free.
\<close>

theorem pool_never_exceeds_capacity:
  "in_use_count (pool_run cs) \<le> MAX_TRANSACTIONS_PER_SESSION
   \<and> (in_use_count (pool_run cs) = MAX_TRANSACTIONS_PER_SESSION \<longrightarrow>
        get_transaction (pool_run cs) = (BT_STATUS_NOMEM, None, pool_run cs)
        \<and> (\<forall>l. unat l < MAX_TRANSACTIONS_PER_SESSION \<longrightarrow>
             get_transaction (release_transaction l (pool_run cs)) =
               (BT_STATUS_SUCCESS, Some (unat l),
                (release_transaction l (pool_run cs))
                  [unat l := (release_transaction l (pool_run cs) ! unat l)\<lparr>in_use := True\<rparr>])))
   \<and> (unat l < MAX_TRANSACTIONS_PER_SESSION \<longrightarrow>
        (\<exists>i. i < MAX_TRANSACTIONS_PER_SESSION
           \<and> \<not> in_use (release_transaction l (pool_run cs) ! i)
           \<and> get_transaction (release_transaction l (pool_run cs)) =
               (BT_STATUS_SUCCESS, Some i,
                (release_transaction l (pool_run cs))
                  [i := (release_transaction l (pool_run cs) ! i)\<lparr>in_use := True\<rparr>])))"
proof (intro conjI impI allI)
  show "in_use_count (pool_run cs) \<le> MAX_TRANSACTIONS_PER_SESSION"
    using in_use_count_le [of "pool_run cs"] by simp
next
  assume "in_use_count (pool_run cs) = MAX_TRANSACTIONS_PER_SESSION"
  then show "get_transaction (pool_run cs) = (BT_STATUS_NOMEM, None, pool_run cs)"
    by (simp add: get_transaction_full)
next
  fix l' :: "8 word"
  assume "in_use_count (pool_run cs) = MAX_TRANSACTIONS_PER_SESSION"
    and "unat l' < MAX_TRANSACTIONS_PER_SESSION"
  then show "get_transaction (release_transaction l' (pool_run cs)) =
               (BT_STATUS_SUCCESS, Some (unat l'),
                (release_transaction l' (pool_run cs))
                  [unat l' := (release_transaction l' (pool_run cs) ! unat l')\<lparr>in_use := True\<rparr>])"
    by (simp add: get_transaction_after_release_full)
next
  assume "unat l < MAX_TRANSACTIONS_PER_SESSION"
  then show "\<exists>i. i < MAX_TRANSACTIONS_PER_SESSION
           \<and> \<not> in_use (release_transaction l (pool_run cs) ! i)
           \<and> get_transaction (release_transaction l (pool_run cs)) =
               (BT_STATUS_SUCCESS, Some i,
                (release_transaction l (pool_run cs))
                  [i := (release_transaction l (pool_run cs) ! i)\<lparr>in_use := True\<rparr>])"
    using get_transaction_after_release [of "pool_run cs" l] by simp
qed

theorem pool_never_exceeds_capacity_witness:
  "in_use_count (pool_run (replicate 16 Acquire)) = MAX_TRANSACTIONS_PER_SESSION
   \<and> get_transaction (pool_run (replicate 16 Acquire))
       = (BT_STATUS_NOMEM, None, pool_run (replicate 16 Acquire))
   \<and> unat (5 :: 8 word) < MAX_TRANSACTIONS_PER_SESSION
   \<and> get_transaction (release_transaction 5 (pool_run (replicate 16 Acquire))) =
       (BT_STATUS_SUCCESS, Some (unat (5 :: 8 word)),
        (release_transaction 5 (pool_run (replicate 16 Acquire)))
          [unat (5 :: 8 word) :=
             (release_transaction 5 (pool_run (replicate 16 Acquire)) ! unat (5 :: 8 word))
               \<lparr>in_use := True\<rparr>])"
proof -
  have full: "in_use_count (pool_run (replicate 16 Acquire)) = MAX_TRANSACTIONS_PER_SESSION"
    by code_simp
  have l: "unat (5 :: 8 word) < MAX_TRANSACTIONS_PER_SESSION"
    by (simp add: MAX_TRANSACTIONS_PER_SESSION_def)
  from pool_never_exceeds_capacity [of "replicate 16 Acquire" 5] full l
  show ?thesis by blast
qed

text \<open>
  Claim C7. On a pool of 16 slots, \<open>release_transaction l\<close> of a slot in use leaves that
  slot unused with no alarm scheduled on it (a cancelled alarm cannot fire) and touches
  no other slot; on a label that is not in use (free, or not below 16) it returns the
  pool unchanged; releasing twice is the same as releasing once.
\<close>

theorem release_cancels_timer_and_is_idempotent:
  assumes "length d = MAX_TRANSACTIONS_PER_SESSION"
  shows "(get_transaction_by_lbl l d \<noteq> None \<longrightarrow>
            \<not> in_use (release_transaction l d ! unat l)
          \<and> \<not> alarm_is_scheduled (txn_timer (release_transaction l d ! unat l))
          \<and> (\<forall>j. j \<noteq> unat l \<longrightarrow> release_transaction l d ! j = d ! j))
       \<and> (get_transaction_by_lbl l d = None \<longrightarrow> release_transaction l d = d)
       \<and> release_transaction l (release_transaction l d) = release_transaction l d"
proof (intro conjI impI allI)
  assume a: "get_transaction_by_lbl l d \<noteq> None"
  then have l: "unat l < MAX_TRANSACTIONS_PER_SESSION"
    by (simp add: get_transaction_by_lbl_def split: if_splits)
  show "\<not> in_use (release_transaction l d ! unat l)"
    using release_frees [OF assms l] .
  show "\<not> alarm_is_scheduled (txn_timer (release_transaction l d ! unat l))"
    using a assms l
    by (auto simp: release_transaction_def get_transaction_by_lbl_def initialize_transaction_def
        Let_def clear_cmd_timeout_def alarm_is_scheduled_def alarm_cancel_def
        split: option.splits if_splits alarm_t.splits)
  fix j assume "j \<noteq> unat l"
  then show "release_transaction l d ! j = d ! j"
    by (auto simp: release_transaction_def get_transaction_by_lbl_def initialize_transaction_def
        Let_def clear_cmd_timeout_def split: option.splits)
next
  assume "get_transaction_by_lbl l d = None"
  then show "release_transaction l d = d"
    by (simp add: release_transaction_def)
next
  show "release_transaction l (release_transaction l d) = release_transaction l d"
  proof (cases "unat l < MAX_TRANSACTIONS_PER_SESSION")
    case True
    from release_frees [OF assms True]
    have "get_transaction_by_lbl l (release_transaction l d) = None"
      by (simp add: get_transaction_by_lbl_def)
    then show ?thesis by (simp add: release_transaction_def [of l "release_transaction l d"])
  next
    case False
    then show ?thesis by (simp add: release_transaction_def get_transaction_by_lbl_def)
  qed
qed

theorem release_cancels_timer_and_is_idempotent_witness:
  "length example_pool = MAX_TRANSACTIONS_PER_SESSION
   \<and> get_transaction_by_lbl 3 example_pool \<noteq> None
   \<and> alarm_is_scheduled (txn_timer (example_pool ! unat (3 :: 8 word)))
   \<and> \<not> in_use (release_transaction 3 example_pool ! unat (3 :: 8 word))
   \<and> \<not> alarm_is_scheduled (txn_timer (release_transaction 3 example_pool ! unat (3 :: 8 word)))
   \<and> get_transaction_by_lbl 7 example_pool = None
   \<and> release_transaction 7 example_pool = example_pool
   \<and> release_transaction 3 (release_transaction 3 example_pool) = release_transaction 3 example_pool"
proof -
  have len: "length example_pool = MAX_TRANSACTIONS_PER_SESSION" by code_simp
  have busy: "get_transaction_by_lbl 3 example_pool \<noteq> None" by code_simp
  have armed: "alarm_is_scheduled (txn_timer (example_pool ! unat (3 :: 8 word)))" by code_simp
  have free: "get_transaction_by_lbl 7 example_pool = None" by code_simp
  from release_cancels_timer_and_is_idempotent [OF len, of 3]
    release_cancels_timer_and_is_idempotent [OF len, of 7] len busy armed free
  show ?thesis by blast
qed
lemmas cmd_defs = getcapabilities_cmd_def list_player_app_setting_attrib_cmd_def
  list_player_app_setting_value_cmd_def get_player_app_setting_cmd_def
  get_player_app_setting_value_text_cmd_def
  get_element_attribute_cmd_def get_play_status_cmd_def

subsection \<open>Traces\<close>

lemma reg_notif_events_append [simp]:
  "reg_notif_events (xs @ ys) = reg_notif_events xs @ reg_notif_events ys"
  by (induction xs rule: reg_notif_events.induct) simp_all

lemma list_app_attr_cmds_append [simp]:
  "list_app_attr_cmds (xs @ ys) = list_app_attr_cmds xs + list_app_attr_cmds ys"
  by (induction xs rule: list_app_attr_cmds.induct) simp_all

lemma sent_emit [simp]: "sent (emit a s) = sent s @ [a]"
  by (simp add: emit_def)

lemma btif_rc_cb_emit [simp]: "btif_rc_cb (emit a s) = btif_rc_cb s"
  by (simp add: emit_def)

lemma device_emit [simp]: "device (emit a s) = device s"
  by (simp add: emit_def)

lemma sent_release [simp]: "sent (release l s) = sent s"
  by (simp add: release_def)

lemma btif_rc_cb_release [simp]: "btif_rc_cb (release l s) = btif_rc_cb s"
  by (simp add: release_def)

lemma device_release [simp]: "device (release l s) = release_transaction l (device s)"
  by (simp add: release_def)

subsection \<open>Commands\<close>

lemma btif_rc_cb_status_command [simp]:
  "btif_rc_cb (snd (status_command pdu cmd s)) = btif_rc_cb s"
  by (simp add: status_command_def emit_def split: prod.splits option.splits)

lemma sent_status_command:
  "sent (snd (status_command pdu cmd s)) = sent s
   \<or> (\<exists>l. sent (snd (status_command pdu cmd s))
            = sent s @ [BTA_AvVendorCmd (rc_handle (btif_rc_cb s)) l AVRC_CMD_STATUS cmd])"
  by (simp add: status_command_def emit_def split: prod.splits option.splits)

lemma reg_notif_events_status_command:
  assumes "\<And>ev v. cmd \<noteq> Cmd_reg_notif ev v"
  shows "reg_notif_events (sent (snd (status_command pdu cmd s))) = reg_notif_events (sent s)"
proof -
  have "reg_notif_events [BTA_AvVendorCmd h l c cmd] = []" for h l c
    using assms by (cases cmd) auto
  with sent_status_command [of pdu cmd s] show ?thesis by auto
qed

lemma list_app_attr_cmds_status_command:
  assumes "cmd \<noteq> Cmd_list_app_attr"
  shows "list_app_attr_cmds (sent (snd (status_command pdu cmd s))) = list_app_attr_cmds (sent s)"
proof -
  have "list_app_attr_cmds [BTA_AvVendorCmd h l c cmd] = 0" for h l c
    using assms by (cases cmd) auto
  with sent_status_command [of pdu cmd s] show ?thesis by auto
qed

lemma quiet_refl [simp]: "quiet s s"
  by (simp add: quiet_def)

lemma quiet_trans: "quiet s s1 \<Longrightarrow> quiet s1 s2 \<Longrightarrow> quiet s s2"
  by (simp add: quiet_def)

lemma quiet_status_command:
  assumes "\<And>ev v. cmd \<noteq> Cmd_reg_notif ev v" "cmd \<noteq> Cmd_list_app_attr" "quiet s s1"
  shows "quiet s (snd (status_command pdu cmd s1))"
  using assms(3) reg_notif_events_status_command [OF assms(1), of pdu s1]
    list_app_attr_cmds_status_command [OF assms(2), of pdu s1]
  by (simp add: quiet_def)

lemma quiet_cmds:
  "quiet s s1 \<Longrightarrow> quiet s (snd (getcapabilities_cmd c s1))"
  "quiet s s1 \<Longrightarrow> quiet s (snd (list_player_app_setting_value_cmd a s1))"
  "quiet s s1 \<Longrightarrow> quiet s (snd (get_player_app_setting_cmd ids s1))"
  "quiet s s1 \<Longrightarrow> quiet s (snd (get_player_app_setting_value_text_cmd ids s1))"
  "quiet s s1 \<Longrightarrow> quiet s (snd (get_element_attribute_cmd ids32 s1))"
  "quiet s s1 \<Longrightarrow> quiet s (snd (get_play_status_cmd s1))"
  by (simp_all add: cmd_defs quiet_status_command)

lemma quiet_emit_hal: "quiet s s1 \<Longrightarrow> quiet s (emit (HAL_CBACK c) s1)"
  by (simp add: quiet_def)

lemma quiet_release: "quiet s s1 \<Longrightarrow> quiet s (release l s1)"
  by (simp add: quiet_def)

lemma quiet_set_app_settings:
  "quiet s s1 \<Longrightarrow> query_started a = query_started (rc_app_settings (btif_rc_cb s1))
     \<Longrightarrow> quiet s (set_app_settings a s1)"
  by (simp add: quiet_def set_app_settings_def)

lemma quiet_rc_ctrl_procedure_complete:
  assumes "quiet s s1" shows "quiet s (rc_ctrl_procedure_complete s1)"
proof (cases "rc_procedure_complete (btif_rc_cb s1)")
  case True
  with assms show ?thesis by (simp add: rc_ctrl_procedure_complete_def)
next
  case False
  have "quiet s (s1\<lparr>btif_rc_cb := (btif_rc_cb s1)\<lparr>rc_procedure_complete := True\<rparr>\<rparr>)"
    using assms by (simp add: quiet_def)
  then show ?thesis using False
    by (simp add: rc_ctrl_procedure_complete_def quiet_cmds)
qed

lemma quiet_play_status_timer:
  "quiet s s1 \<Longrightarrow> quiet s (rc_start_play_status_timer s1)"
  "quiet s s1 \<Longrightarrow> quiet s (rc_stop_play_status_timer s1)"
  by (simp_all add: quiet_def rc_start_play_status_timer_def rc_stop_play_status_timer_def)

lemma quiet_if: "(c \<Longrightarrow> quiet s a) \<Longrightarrow> (\<not> c \<Longrightarrow> quiet s b) \<Longrightarrow> quiet s (if c then a else b)"
  by simp

lemmas quiet_intros = quiet_if quiet_cmds quiet_emit_hal quiet_release
  quiet_rc_ctrl_procedure_complete quiet_play_status_timer quiet_refl


subsection \<open>Handlers that leave the event list alone\<close>

lemma query_started_fold:
  assumes "\<And>x a. query_started (f x a) = query_started a"
  shows "query_started (fold f xs a) = query_started a"
  using assms by (induction xs arbitrary: a) simp_all

lemma quiet_handle_app_attr_response: "quiet s (handle_app_attr_response r s)"
  unfolding handle_app_attr_response_def Let_def
  by (intro quiet_intros quiet_set_app_settings) (simp_all add: query_started_fold)

text \<open>Rules for a handler that may not return: the property is shown of the state
  it returns, if it returns one.\<close>

lemma opt_if:
  "(c \<Longrightarrow> \<forall>s'. a = Some s' \<longrightarrow> P s') \<Longrightarrow> (\<not> c \<Longrightarrow> \<forall>s'. b = Some s' \<longrightarrow> P s')
     \<Longrightarrow> \<forall>s'. (if c then a else b) = Some s' \<longrightarrow> P s'"
  by simp

lemma opt_Some: "P x \<Longrightarrow> \<forall>s'. Some x = Some s' \<longrightarrow> P s'"
  by simp

lemma get_player_app_setting_attr_text_cmd_returns:
  assumes "get_player_app_setting_attr_text_cmd ids s = Some r"
  shows "r = status_command AVRC_PDU_GET_PLAYER_APP_ATTR_TEXT (Cmd_get_app_attr_txt ids) s"
  using assms
  by (auto simp: get_player_app_setting_attr_text_cmd_def status_command_def
      split: if_splits prod.splits option.splits)

lemma quiet_attr_text_cmd:
  assumes "quiet s t"
  shows "\<forall>s'. map_option snd (get_player_app_setting_attr_text_cmd ids t) = Some s'
            \<longrightarrow> quiet s s'"
proof (intro allI impI)
  fix s' assume "map_option snd (get_player_app_setting_attr_text_cmd ids t) = Some s'"
  then obtain r where r: "get_player_app_setting_attr_text_cmd ids t = Some r" "s' = snd r"
    by auto
  from get_player_app_setting_attr_text_cmd_returns [OF r(1)] r(2)
  have "s' = snd (status_command AVRC_PDU_GET_PLAYER_APP_ATTR_TEXT (Cmd_get_app_attr_txt ids) t)"
    by simp
  then show "quiet s s'" using assms by (simp add: quiet_status_command)
qed

lemma quiet_handle_app_val_response_all:
  "\<forall>s'. handle_app_val_response r s = Some s' \<longrightarrow> quiet s s'"
  unfolding handle_app_val_response_def Let_def
  by (intro opt_if opt_Some quiet_attr_text_cmd quiet_intros quiet_set_app_settings) simp_all

lemma quiet_handle_app_val_response:
  "handle_app_val_response r s = Some s' \<Longrightarrow> quiet s s'"
  using quiet_handle_app_val_response_all by blast

lemma quiet_handle_app_cur_val_response: "quiet s (handle_app_cur_val_response r s)"
  unfolding handle_app_cur_val_response_def
  by (intro quiet_intros)

lemma quiet_handle_app_attr_txt_response: "quiet s (handle_app_attr_txt_response r s)"
  unfolding handle_app_attr_txt_response_def Let_def
  by (intro quiet_intros quiet_set_app_settings)
     (simp_all add: query_started_fold split: option.splits)

lemma quiet_handle_app_attr_val_txt_response: "quiet s (handle_app_attr_val_txt_response r s)"
  unfolding handle_app_attr_val_txt_response_def Let_def
  by (intro quiet_intros quiet_set_app_settings)
     (simp_all add: query_started_fold set_app_settings_def cmd_defs split: option.splits)

lemma quiet_handle_set_app_attr_val_response: "quiet s (handle_set_app_attr_val_response c s)"
  unfolding handle_set_app_attr_val_response_def by (intro quiet_intros)

lemma quiet_handle_get_elem_attr_response: "quiet s (handle_get_elem_attr_response r s)"
  unfolding handle_get_elem_attr_response_def by (intro quiet_intros)

lemma quiet_handle_get_playstatus_response: "quiet s (handle_get_playstatus_response r s)"
  unfolding handle_get_playstatus_response_def by (intro quiet_intros)

lemma quiet_btif_rc_control_cmd_timeout_handler:
  "quiet s (btif_rc_control_cmd_timeout_handler c s)"
  unfolding btif_rc_control_cmd_timeout_handler_def
  by (intro quiet_intros quiet_handle_set_app_attr_val_response)

lemma quiet_btif_rc_play_status_timeout_handler:
  "quiet s (btif_rc_play_status_timeout_handler s)"
  unfolding btif_rc_play_status_timeout_handler_def by (intro quiet_intros)
subsection \<open>Registration\<close>

lemma register_notification_cmd_cases:
  "register_notification_cmd l ev v s = (BT_STATUS_SUCCESS, s)
   \<or> register_notification_cmd l ev v s
        = (BT_STATUS_SUCCESS,
           emit (BTA_AvVendorCmd (rc_handle (btif_rc_cb s)) l AVRC_CMD_NOTIF (Cmd_reg_notif ev v)) s)
   \<or> (\<exists>st. st \<noteq> BT_STATUS_SUCCESS \<and> register_notification_cmd l ev v s = (st, s))"
  by (auto simp: register_notification_cmd_def)

lemma register_for_event_notification_cases:
  obtains (fail) d where "register_for_event_notification k evs s = (evs, s\<lparr>device := d\<rparr>)"
  | (silent) d l where "register_for_event_notification k evs s
           = (evs[k := (evs ! k)\<lparr>label := l, status := eREGISTERED\<rparr>], s\<lparr>device := d\<rparr>)"
  | (sent) d l where "register_for_event_notification k evs s
           = (evs[k := (evs ! k)\<lparr>label := l, status := eREGISTERED\<rparr>],
              (emit (BTA_AvVendorCmd (rc_handle (btif_rc_cb s)) l AVRC_CMD_NOTIF
                       (Cmd_reg_notif (event_id (evs ! k)) 0)) s)\<lparr>device := d\<rparr>)"
proof (cases "get_transaction (device s)")
  case (fields st p d)
  show ?thesis
  proof (cases p)
    case None
    with fields have "register_for_event_notification k evs s = (evs, s\<lparr>device := d\<rparr>)"
      by (simp add: register_for_event_notification_def)
    then show ?thesis by (rule fail)
  next
    case (Some i)
    show ?thesis
    proof (cases "st = BT_STATUS_SUCCESS")
      case False
      with fields Some have "register_for_event_notification k evs s = (evs, s\<lparr>device := d\<rparr>)"
        by (simp add: register_for_event_notification_def)
      then show ?thesis by (rule fail)
    next
      case True
      let ?s1 = "s\<lparr>device := d\<rparr>"
      let ?l = "lbl (d ! i)"
      let ?arm = "\<lambda>dv. dv[i := (dv ! i)
                            \<lparr>txn_timer_context :=
                               \<lparr>ctx_label = ?l, ctx_pdu_id = AVRC_PDU_REGISTER_NOTIFICATION\<rparr>,
                             txn_timer := Alarm_set BTIF_TIMEOUT_RC_INTERIM_RSP_MS
                                            Status_cmd_timer_timeout\<rparr>]"
      from register_notification_cmd_cases [of ?l "event_id (evs ! k)" 0 ?s1]
      consider (a) "register_notification_cmd ?l (event_id (evs ! k)) 0 ?s1 = (BT_STATUS_SUCCESS, ?s1)"
        | (b) "register_notification_cmd ?l (event_id (evs ! k)) 0 ?s1
            = (BT_STATUS_SUCCESS,
               emit (BTA_AvVendorCmd (rc_handle (btif_rc_cb ?s1)) ?l AVRC_CMD_NOTIF
                       (Cmd_reg_notif (event_id (evs ! k)) 0)) ?s1)"
        | (c) st2 where "st2 \<noteq> BT_STATUS_SUCCESS"
            "register_notification_cmd ?l (event_id (evs ! k)) 0 ?s1 = (st2, ?s1)"
        by blast
      then show ?thesis
      proof cases
        case a
        with fields Some True have "register_for_event_notification k evs s
           = (evs[k := (evs ! k)\<lparr>label := ?l, status := eREGISTERED\<rparr>], s\<lparr>device := ?arm d\<rparr>)"
          by (simp add: register_for_event_notification_def)
        then show ?thesis by (rule silent)
      next
        case b
        with fields Some True have "register_for_event_notification k evs s
           = (evs[k := (evs ! k)\<lparr>label := ?l, status := eREGISTERED\<rparr>],
              (emit (BTA_AvVendorCmd (rc_handle (btif_rc_cb s)) ?l AVRC_CMD_NOTIF
                       (Cmd_reg_notif (event_id (evs ! k)) 0)) s)\<lparr>device := ?arm d\<rparr>)"
          by (simp add: register_for_event_notification_def emit_def)
        then show ?thesis by (rule sent)
      next
        case c
        with fields Some True have "register_for_event_notification k evs s
           = (evs, s\<lparr>device := release_transaction ?l d\<rparr>)"
          by (simp add: register_for_event_notification_def)
        then show ?thesis by (rule fail)
      qed
    qed
  qed
qed

text \<open>What a registration does to the list and to the trace.\<close>

lemma register_for_event_notification_summary:
  assumes "register_for_event_notification k evs s = (evs', s')" "k < length evs"
  shows "btif_rc_cb s' = btif_rc_cb s"
    and "map event_id evs' = map event_id evs"
    and "length evs' = length evs"
    and "list_app_attr_cmds (sent s') = list_app_attr_cmds (sent s)"
    and "reg_notif_events (sent s') = reg_notif_events (sent s)
         \<or> reg_notif_events (sent s') = reg_notif_events (sent s) @ [event_id (evs ! k)]"
    and "evs' = evs \<or> (\<exists>l. evs' = evs[k := (evs ! k)\<lparr>label := l, status := eREGISTERED\<rparr>])"
proof -
  have ids: "map event_id (evs[k := (evs ! k)\<lparr>label := l, status := eREGISTERED\<rparr>]) = map event_id evs" for l
    using assms(2) by (simp add: map_update list_update_same_conv)
  show "btif_rc_cb s' = btif_rc_cb s"
    using assms(1) by (cases rule: register_for_event_notification_cases [of k evs s]) auto
  show "map event_id evs' = map event_id evs"
    using assms(1) ids by (cases rule: register_for_event_notification_cases [of k evs s]) auto
  show "length evs' = length evs"
    using assms(1) by (cases rule: register_for_event_notification_cases [of k evs s]) auto
  show "list_app_attr_cmds (sent s') = list_app_attr_cmds (sent s)"
    using assms(1) by (cases rule: register_for_event_notification_cases [of k evs s]) auto
  show "reg_notif_events (sent s') = reg_notif_events (sent s)
         \<or> reg_notif_events (sent s') = reg_notif_events (sent s) @ [event_id (evs ! k)]"
    using assms(1) by (cases rule: register_for_event_notification_cases [of k evs s]) auto
  show "evs' = evs \<or> (\<exists>l. evs' = evs[k := (evs ! k)\<lparr>label := l, status := eREGISTERED\<rparr>])"
    using assms(1) by (cases rule: register_for_event_notification_cases [of k evs s]) auto
qed

lemma first_index_Some:
  "first_index P xs = Some k \<Longrightarrow> k < length xs \<and> P (xs ! k) \<and> (\<forall>j<k. \<not> P (xs ! j))"
proof (induction xs arbitrary: k)
  case Nil then show ?case by simp
next
  case (Cons x xs)
  show ?case
  proof (cases "P x")
    case True with Cons.prems show ?thesis by simp
  next
    case False
    with Cons.prems obtain k' where k': "first_index P xs = Some k'" "k = Suc k'" by auto
    from Cons.IH [OF k'(1)] False k'(2) show ?thesis
      by (auto simp: less_Suc_eq_0_disj)
  qed
qed

lemma first_index_None: "first_index P xs = None \<longleftrightarrow> (\<forall>x\<in>set xs. \<not> P x)"
  by (induction xs) auto
subsection \<open>Steps that keep the flags and the list\<close>

lemma flags_kept_refl [simp]: "flags_kept s s"
  by (simp add: flags_kept_def)

lemma flags_kept_trans: "flags_kept s a \<Longrightarrow> flags_kept a b \<Longrightarrow> flags_kept s b"
  unfolding flags_kept_def by (cases "list_app_attr_cmds (sent a) = list_app_attr_cmds (sent s)") auto

lemma tame_refl [simp]: "tame s s"
  by (simp add: tame_def)

lemma tame_trans:
  assumes "tame s a" "tame a b" shows "tame s b"
proof -
  from assms obtain X Y where
    X: "reg_notif_events (sent a) = reg_notif_events (sent s) @ X" "set X \<subseteq> event_ids s"
    and Y: "reg_notif_events (sent b) = reg_notif_events (sent a) @ Y" "set Y \<subseteq> event_ids a"
    by (auto simp: tame_def)
  from assms have sub: "event_ids b \<subseteq> event_ids a" "event_ids a \<subseteq> event_ids s"
    by (auto simp: tame_def)
  have "reg_notif_events (sent b) = reg_notif_events (sent s) @ (X @ Y)"
    using X Y by simp
  moreover have "set (X @ Y) \<subseteq> event_ids s" using X Y sub by auto
  moreover have "flags_kept s b"
    using assms flags_kept_trans by (auto simp: tame_def)
  ultimately show ?thesis using sub unfolding tame_def by blast
qed

lemma quiet_flags_kept: "quiet s s' \<Longrightarrow> flags_kept s s'"
  by (simp add: quiet_def flags_kept_def)

lemma quiet_tame: "quiet s s' \<Longrightarrow> tame s s'"
  by (simp add: quiet_def tame_def flags_kept_def event_ids_def event_list_def)

lemma set_event_list_simps [simp]:
  "btif_rc_cb (set_event_list (evs, s)) = (btif_rc_cb s)\<lparr>rc_supported_event_list := Some evs\<rparr>"
  "sent (set_event_list (evs, s)) = sent s"
  "device (set_event_list (evs, s)) = device s"
  "event_list (set_event_list (evs, s)) = evs"
  by (simp_all add: set_event_list_def event_list_def)

lemma register_first_not_registered_summary:
  assumes "register_first_not_registered evs s = (evs', s')"
  shows "btif_rc_cb s' = btif_rc_cb s"
    and "map event_id evs' = map event_id evs"
    and "list_app_attr_cmds (sent s') = list_app_attr_cmds (sent s)"
    and "reg_notif_events (sent s') = reg_notif_events (sent s)
         \<or> (\<exists>k. first_index (\<lambda>e. status e = eNOT_REGISTERED) evs = Some k
              \<and> reg_notif_events (sent s') = reg_notif_events (sent s) @ [event_id (evs ! k)])"
proof -
  show "btif_rc_cb s' = btif_rc_cb s"
    using assms register_for_event_notification_summary(1) first_index_Some
    by (fastforce simp: register_first_not_registered_def split: option.splits)
  show "map event_id evs' = map event_id evs"
    using assms register_for_event_notification_summary(2) first_index_Some
    by (fastforce simp: register_first_not_registered_def split: option.splits)
  show "list_app_attr_cmds (sent s') = list_app_attr_cmds (sent s)"
    using assms register_for_event_notification_summary(4) first_index_Some
    by (fastforce simp: register_first_not_registered_def split: option.splits)
  show "reg_notif_events (sent s') = reg_notif_events (sent s)
         \<or> (\<exists>k. first_index (\<lambda>e. status e = eNOT_REGISTERED) evs = Some k
              \<and> reg_notif_events (sent s') = reg_notif_events (sent s) @ [event_id (evs ! k)])"
  proof (cases "first_index (\<lambda>e. status e = eNOT_REGISTERED) evs")
    case None
    with assms show ?thesis by (simp add: register_first_not_registered_def)
  next
    case (Some k)
    with assms have r: "register_for_event_notification k evs s = (evs', s')"
      by (simp add: register_first_not_registered_def)
    from first_index_Some [OF Some] have "k < length evs" by simp
    from register_for_event_notification_summary(5) [OF r this] Some show ?thesis by auto
  qed
qed

lemma tame_register_first_not_registered:
  assumes "event_id ` set evs \<subseteq> event_ids s"
  shows "tame s (set_event_list (register_first_not_registered evs s))"
proof (cases "register_first_not_registered evs s")
  case (Pair evs' s')
  note sm = register_first_not_registered_summary [OF Pair]
  have ids: "event_id ` set evs' = event_id ` set evs"
    using sm(2) by (metis list.set_map)
  have 1: "event_ids (set_event_list (evs', s')) \<subseteq> event_ids s"
    using assms ids by (simp add: event_ids_def)
  have 2: "\<exists>X. reg_notif_events (sent s') = reg_notif_events (sent s) @ X \<and> set X \<subseteq> event_ids s"
  proof -
    from sm(4) consider "reg_notif_events (sent s') = reg_notif_events (sent s) @ []"
      | k where "first_index (\<lambda>e. status e = eNOT_REGISTERED) evs = Some k"
          "reg_notif_events (sent s') = reg_notif_events (sent s) @ [event_id (evs ! k)]"
      by auto
    then show ?thesis
    proof cases
      case 1
      then show ?thesis by (intro exI [of _ "[]"]) simp
    next
      case 2
      from first_index_Some [OF 2(1)] have "evs ! k \<in> set evs" by simp
      with assms have "event_id (evs ! k) \<in> event_ids s" by auto
      with 2(2) show ?thesis by (intro exI [of _ "[event_id (evs ! k)]"]) simp
    qed
  qed
  have 3: "flags_kept s (set_event_list (evs', s'))"
    using sm(1,3) by (simp add: flags_kept_def)
  from 1 2 3 show ?thesis by (simp add: Pair tame_def)
qed

lemma iterate_interim_ids [simp]:
  "map event_id (iterate_supported_event_list_for_interim_rsp ev evs) = map event_id evs"
  by (induction evs) simp_all

lemma iterate_timeout_ids:
  "set (iterate_supported_event_list_for_timeout l evs) \<subseteq> set evs"
  by (induction evs) auto

lemma event_ids_Some:
  "rc_supported_event_list (btif_rc_cb s) = Some evs \<Longrightarrow> event_ids s = event_id ` set evs"
  by (simp add: event_ids_def event_list_def)

lemma tame_rc_notification_interim_timout:
  assumes "rc_notification_interim_timout l s = Some s'" shows "tame s s'"
proof -
  from assms obtain evs where evs: "rc_supported_event_list (btif_rc_cb s) = Some evs"
    and s': "s' = set_event_list (register_first_not_registered
                     (iterate_supported_event_list_for_timeout l evs) s)"
    by (auto simp: rc_notification_interim_timout_def split: option.splits)
  have "event_id ` set (iterate_supported_event_list_for_timeout l evs) \<subseteq> event_ids s"
    using iterate_timeout_ids [of l evs] event_ids_Some [OF evs] by auto
  from tame_register_first_not_registered [OF this] s' show ?thesis by simp
qed

lemma tame_signal:
  assumes "\<not> query_started (rc_app_settings (btif_rc_cb s))"
  shows "tame s (snd (list_player_app_setting_attrib_cmd (set_query_started s)))"
    and "tame s (rc_ctrl_procedure_complete (set_query_started s))"
proof -
  have q: "tame s (set_query_started s)"
    using assms by (simp add: tame_def flags_kept_def set_query_started_def event_ids_def event_list_def)
  let ?t = "set_query_started s"
  have qs: "query_started (rc_app_settings (btif_rc_cb ?t))"
    by (simp add: set_query_started_def)
  have "sent (snd (status_command AVRC_PDU_LIST_PLAYER_APP_ATTR Cmd_list_app_attr ?t)) = sent ?t
    \<or> (\<exists>l. sent (snd (status_command AVRC_PDU_LIST_PLAYER_APP_ATTR Cmd_list_app_attr ?t))
          = sent ?t @ [BTA_AvVendorCmd (rc_handle (btif_rc_cb ?t)) l AVRC_CMD_STATUS Cmd_list_app_attr])"
    by (rule sent_status_command)
  then have "tame s (snd (status_command AVRC_PDU_LIST_PLAYER_APP_ATTR Cmd_list_app_attr ?t))"
    using assms qs
    by (auto simp: tame_def flags_kept_def  event_ids_def event_list_def set_query_started_def)
  then show "tame s (snd (list_player_app_setting_attrib_cmd (set_query_started s)))"
    by (simp add: list_player_app_setting_attrib_cmd_def)
  show "tame s (rc_ctrl_procedure_complete (set_query_started s))"
    using q quiet_tame [OF quiet_rc_ctrl_procedure_complete [OF quiet_refl]] tame_trans by blast
qed
subsection \<open>Notification handlers and the dispatcher\<close>

lemma tame_handle_notification_interim:
  assumes "handle_notification_interim r s = Some s'" shows "tame s s'"
proof (cases "notification_event_handled (rn_event_id r)")
  case False
  with assms show ?thesis by (simp add: handle_notification_interim_def)
next
  case True
  define s1 where "s1 =
               (if rn_event_id r = AVRC_EVT_PLAY_STATUS_CHANGE
                then emit (HAL_CBACK (play_status_changed_cb (param_play_status r)))
                       (if param_play_status r = AVRC_PLAYSTATE_PLAYING
                        then rc_start_play_status_timer s else s)
                else if rn_event_id r = AVRC_EVT_TRACK_CHANGE
                then (if \<not> rc_is_track_id_valid (param_track r) then s
                      else s\<lparr>btif_rc_cb := (btif_rc_cb s)
                               \<lparr>rc_playing_uid := BE_STREAM_TO_UINT64 (param_track r)\<rparr>\<rparr>)
                else s)"
  have uid: "quiet s (s\<lparr>btif_rc_cb := (btif_rc_cb s)\<lparr>rc_playing_uid := u\<rparr>\<rparr>)" for u
    by (simp add: quiet_def)
  have q1: "quiet s s1"
    unfolding s1_def by (intro quiet_intros uid)
  from assms True obtain evs where evs: "rc_supported_event_list (btif_rc_cb s1) = Some evs"
    by (auto simp: handle_notification_interim_def Let_def s1_def [symmetric] split: option.splits)
  define evs1 where "evs1 = iterate_supported_event_list_for_interim_rsp (rn_event_id r) evs"
  define s2 where "s2 = set_event_list (register_first_not_registered evs1 s1)"
  have "event_id ` set evs1 = event_id ` set evs"
    unfolding evs1_def by (metis iterate_interim_ids list.set_map)
  then have "event_id ` set evs1 \<subseteq> event_ids s1"
    using event_ids_Some [OF evs] by simp
  from tame_register_first_not_registered [OF this] have t2: "tame s1 s2"
    by (simp add: s2_def)
  have t12: "tame s s2" using quiet_tame [OF q1] t2 tame_trans by blast
  define p_null where "p_null =
                        (if evs1 = [] then p_event_uninit_null s
                         else first_index (\<lambda>e. status e = eNOT_REGISTERED) evs1 = None)"
  have "handle_notification_interim r s = Some
                       (if p_null \<and> \<not> query_started (rc_app_settings (btif_rc_cb s2))
                        then (if rc_features (btif_rc_cb s2) AND BTA_AV_FEAT_APP_SETTING \<noteq> 0
                              then snd (list_player_app_setting_attrib_cmd (set_query_started s2))
                              else rc_ctrl_procedure_complete (set_query_started s2))
                        else s2)"
    unfolding handle_notification_interim_def Let_def s1_def [symmetric]
    using True evs by (simp only: evs1_def s2_def p_null_def if_False not_True_eq_False
        option.case simp_thms)
  with assms have
    "s' = s2 \<or> (\<not> query_started (rc_app_settings (btif_rc_cb s2))
        \<and> (s' = snd (list_player_app_setting_attrib_cmd (set_query_started s2))
           \<or> s' = rc_ctrl_procedure_complete (set_query_started s2)))"
    by (auto split: if_splits)
  then show ?thesis using t12 tame_signal tame_trans by blast
qed

lemma tame_handle_notification_changed:
  assumes "handle_notification_changed r s = Some s'" shows "tame s s'"
proof -
  from assms obtain evs where evs: "rc_supported_event_list (btif_rc_cb s) = Some evs"
    by (auto simp: handle_notification_changed_def split: option.splits)
  define s1 where "s1 = set_event_list
                 (case first_index (\<lambda>e. event_id e = rn_event_id r) evs of
                    None \<Rightarrow> (evs, s)
                  | Some p_event \<Rightarrow>
                      register_for_event_notification p_event
                        (evs[p_event := (evs ! p_event)\<lparr>status := eNOT_REGISTERED\<rparr>]) s)"
  have t1: "tame s s1"
  proof (cases "first_index (\<lambda>e. event_id e = rn_event_id r) evs")
    case None
    then have "s1 = set_event_list (evs, s)" by (simp add: s1_def)
    then show ?thesis
      using evs by (simp add: tame_def flags_kept_def event_ids_def event_list_def)
  next
    case (Some k)
    let ?evs = "evs[k := (evs ! k)\<lparr>status := eNOT_REGISTERED\<rparr>]"
    from first_index_Some [OF Some] have k: "k < length evs" by simp
    obtain evs' t where r: "register_for_event_notification k ?evs s = (evs', t)"
      by (cases "register_for_event_notification k ?evs s")
    have k': "k < length ?evs" using k by simp
    note sm = register_for_event_notification_summary [OF r k']
    have "map event_id ?evs = map event_id evs"
      using k by (simp add: map_update list_update_same_conv)
    with sm(2) have ids: "event_id ` set evs' = event_id ` set evs"
      by (metis list.set_map)
    have ek: "event_id (?evs ! k) \<in> event_ids s"
      using k event_ids_Some [OF evs] by simp
    have s1: "s1 = set_event_list (evs', t)" using Some r by (simp add: s1_def)
    have "\<exists>X. reg_notif_events (sent t) = reg_notif_events (sent s) @ X \<and> set X \<subseteq> event_ids s"
      using sm(5) ek
      by (metis append_Nil2 empty_set empty_subsetI insert_subset list.simps(15))
    then show ?thesis
      using sm(1,4) ids event_ids_Some [OF evs]
      by (simp add: s1 tame_def flags_kept_def event_ids_def)
  qed
  have "quiet s1 s'"
  proof -
    have "quiet s1
                (if rn_event_id r = AVRC_EVT_PLAY_STATUS_CHANGE
                 then emit (HAL_CBACK (play_status_changed_cb (param_play_status r)))
                        (if param_play_status r = AVRC_PLAYSTATE_PLAYING
                         then rc_start_play_status_timer s1 else rc_stop_play_status_timer s1)
                 else if rn_event_id r = AVRC_EVT_TRACK_CHANGE
                 then (if \<not> rc_is_track_id_valid (param_track r) then s1
                       else snd (get_element_attribute_cmd attr_list s1))
                 else if rn_event_id r = AVRC_EVT_APP_SETTING_CHANGE
                 then emit (HAL_CBACK (playerapplicationsetting_changed_cb
                              (map (\<lambda>xx. (ps_attr_id (param_player_setting r) xx,
                                           ps_attr_value (param_player_setting r) xx))
                                 [0..<unat (ps_num_attr (param_player_setting r))]))) s1
                 else s1)"
      by (intro quiet_intros)
    then show ?thesis
      using assms evs by (simp add: handle_notification_changed_def Let_def s1_def [symmetric])
  qed
  with t1 show ?thesis using quiet_tame tame_trans by blast
qed

lemma tame_handle_notification_response:
  "handle_notification_response c r s = Some s' \<Longrightarrow> tame s s'"
  using tame_handle_notification_interim tame_handle_notification_changed
  by (auto simp: handle_notification_response_def split: if_splits)

lemma quiet_clear_cmd_timeout: "quiet s (s\<lparr>device := d\<rparr>)"
  by (simp add: quiet_def)

lemma tame_release: "tame s s1 \<Longrightarrow> tame s (release l s1)"
  using quiet_tame [OF quiet_release [OF quiet_refl]] tame_trans by blast

lemma tame_handle_avk_rc_metamsg_rsp:
  assumes "handle_avk_rc_metamsg_rsp m r s = Some s'" "\<And>c. r \<noteq> Rsp_get_caps c"
  shows "tame s s'"
proof (cases "msg_opcode m = AVRC_OP_VENDOR
         \<and> msg_code m \<ge> AVRC_RSP_NOT_IMPL \<and> msg_code m \<le> AVRC_RSP_INTERIM")
  case False
  with assms show ?thesis by (auto simp: handle_avk_rc_metamsg_rsp_def)
next
  case True
  show ?thesis
  proof (cases r)
    case (Rsp_reg_notif n)
    with assms True obtain s1 where s1: "handle_notification_response (msg_code m) n s = Some s1"
      and s': "s' = s1\<lparr>device := clear_cmd_timeout (msg_label m) (device s1)\<rparr>
             \<or> s' = release (msg_label m) s1"
      by (auto simp: handle_avk_rc_metamsg_rsp_def split: option.splits if_splits)
    from tame_handle_notification_response [OF s1] s' show ?thesis
      using quiet_tame [OF quiet_clear_cmd_timeout] tame_release tame_trans by blast
  next
    case (Rsp_get_caps c) with assms(2) [of c] show ?thesis by blast
  next
    case (Rsp_list_app_attr x)
    with assms True show ?thesis
      using quiet_tame [OF quiet_release [OF quiet_handle_app_attr_response]]
      by (auto simp: handle_avk_rc_metamsg_rsp_def)
  next
    case (Rsp_list_app_values x)
    with assms True obtain s1 where s1: "handle_app_val_response x s = Some s1"
      and s': "s' = release (msg_label m) s1"
      by (auto simp: handle_avk_rc_metamsg_rsp_def)
    from quiet_tame [OF quiet_release [OF quiet_handle_app_val_response [OF s1]]] s'
    show ?thesis by simp
  next
    case (Rsp_get_cur_app_val x)
    with assms True show ?thesis
      using quiet_tame [OF quiet_release [OF quiet_handle_app_cur_val_response]]
      by (auto simp: handle_avk_rc_metamsg_rsp_def)
  next
    case (Rsp_get_app_attr_txt x)
    with assms True show ?thesis
      using quiet_tame [OF quiet_release [OF quiet_handle_app_attr_txt_response]]
      by (auto simp: handle_avk_rc_metamsg_rsp_def)
  next
    case (Rsp_get_app_val_txt x)
    with assms True show ?thesis
      using quiet_tame [OF quiet_release [OF quiet_handle_app_attr_val_txt_response]]
      by (auto simp: handle_avk_rc_metamsg_rsp_def)
  next
    case Rsp_set_app_val
    with assms True show ?thesis
      using quiet_tame [OF quiet_release [OF quiet_handle_set_app_attr_val_response]]
      by (auto simp: handle_avk_rc_metamsg_rsp_def)
  next
    case (Rsp_get_elem_attrs x)
    with assms True show ?thesis
      using quiet_tame [OF quiet_release [OF quiet_handle_get_elem_attr_response]]
      by (auto simp: handle_avk_rc_metamsg_rsp_def)
  next
    case (Rsp_get_play_status x)
    with assms True show ?thesis
      using quiet_tame [OF quiet_release [OF quiet_handle_get_playstatus_response]]
      by (auto simp: handle_avk_rc_metamsg_rsp_def)
  next
    case (Rsp_volume x)
    with assms True show ?thesis
      using quiet_tame [OF quiet_release [OF quiet_refl]]
      by (auto simp: handle_avk_rc_metamsg_rsp_def)
  next
    case (Rsp_other x)
    with assms True show ?thesis
      using quiet_tame [OF quiet_release [OF quiet_refl]]
      by (auto simp: handle_avk_rc_metamsg_rsp_def)
  qed
qed

lemma quiet_caps_timeout:
  "quiet s (handle_get_capability_response
                \<lparr>caps_status = BTIF_RC_STS_TIMEOUT, capability_id = 0, caps_count = 0,
                 param_event_id = (\<lambda>_. 0)\<rparr> s)"
  by (simp add: handle_get_capability_response_def BTIF_RC_STS_TIMEOUT_def AVRC_STS_NO_ERROR_def)

lemma quiet_status_cmd_timeout_response_all:
  "\<forall>s'. status_cmd_timeout_response pdu s = Some s' \<longrightarrow> quiet s s'"
  unfolding status_cmd_timeout_response_def
  by (intro opt_if opt_Some quiet_handle_app_val_response_all quiet_caps_timeout
        quiet_handle_app_attr_response quiet_handle_app_cur_val_response
        quiet_handle_app_attr_txt_response quiet_handle_get_elem_attr_response
        quiet_handle_get_playstatus_response quiet_refl)

lemma quiet_status_cmd_timeout_response:
  "status_cmd_timeout_response pdu s = Some s' \<Longrightarrow> quiet s s'"
  using quiet_status_cmd_timeout_response_all by blast

lemma tame_btif_rc_status_cmd_timeout_handler:
  assumes "btif_rc_status_cmd_timeout_handler c s = Some s'" shows "tame s s'"
proof (cases "ctx_pdu_id c = AVRC_PDU_REGISTER_NOTIFICATION")
  case True
  with assms obtain s1 where "rc_notification_interim_timout (ctx_label c) s = Some s1"
    "s' = release (ctx_label c) s1"
    by (auto simp: btif_rc_status_cmd_timeout_handler_def)
  then show ?thesis using tame_rc_notification_interim_timout tame_release by blast
next
  case False
  with assms obtain s1 where s1: "status_cmd_timeout_response (ctx_pdu_id c) s = Some s1"
    and s': "s' = release (ctx_label c) s1"
    by (auto simp: btif_rc_status_cmd_timeout_handler_def)
  from quiet_tame [OF quiet_release [OF quiet_status_cmd_timeout_response [OF s1]]] s'
  show ?thesis by simp
qed

lemma tame_rc_step:
  assumes "rc_step e s = Some s'" "\<not> builds_event_list e" shows "tame s s'"
proof (cases e)
  case (Meta_msg_rsp m r)
  with assms(2) have "\<And>c. r \<noteq> Rsp_get_caps c" by auto
  with assms(1) Meta_msg_rsp show ?thesis using tame_handle_avk_rc_metamsg_rsp by simp
next
  case (Status_cmd_timeout c)
  with assms show ?thesis using tame_btif_rc_status_cmd_timeout_handler by simp
next
  case (Control_cmd_timeout c)
  with assms show ?thesis using quiet_tame [OF quiet_btif_rc_control_cmd_timeout_handler] by auto
next
  case Play_status_timeout
  with assms show ?thesis using quiet_tame [OF quiet_btif_rc_play_status_timeout_handler] by auto
qed

lemma tame_rc_run:
  "rc_run es s = Some s' \<Longrightarrow> \<forall>e\<in>set es. \<not> builds_event_list e \<Longrightarrow> tame s s'"
proof (induction es arbitrary: s)
  case Nil then show ?case by simp
next
  case (Cons e es)
  from Cons.prems obtain s1 where s1: "rc_step e s = Some s1" "rc_run es s1 = Some s'"
    by (auto split: option.splits)
  from tame_rc_step [OF s1(1)] Cons.prems(2) have "tame s s1" by simp
  moreover from Cons.IH [OF s1(2)] Cons.prems(2) have "tame s1 s'" by simp
  ultimately show ?case by (rule tame_trans)
qed
subsection \<open>The capabilities response\<close>

lemma first_index_all:
  "xs \<noteq> [] \<Longrightarrow> \<forall>x\<in>set xs. P x \<Longrightarrow> first_index P xs = Some 0"
  by (cases xs) simp_all

lemma handle_get_capability_response_events:
  assumes "caps_status r = AVRC_STS_NO_ERROR" "capability_id r = AVRC_CAP_EVENTS_SUPPORTED"
  shows "handle_get_capability_response r s
           = set_event_list (register_first_not_registered
               (map (\<lambda>xx. \<lparr>event_id = param_event_id r xx, label = osi_malloc_label s xx,
                               status = eNOT_REGISTERED\<rparr>)
                     (filter (\<lambda>xx. supported_event (param_event_id r xx))
                        [0..<unat (caps_count r)])) s)"
proof -
  let ?evs = "map (\<lambda>xx. \<lparr>event_id = param_event_id r xx, label = osi_malloc_label s xx,
                               status = eNOT_REGISTERED\<rparr>)
                     (filter (\<lambda>xx. supported_event (param_event_id r xx))
                        [0..<unat (caps_count r)])"
  show ?thesis
  proof (cases ?evs)
    case Nil
    then show ?thesis using assms
      by (simp add: handle_get_capability_response_def register_first_not_registered_def Let_def)
  next
    case (Cons e es)
    have "first_index (\<lambda>e. status e = eNOT_REGISTERED) ?evs = Some 0"
      by (rule first_index_all) (use Cons in auto)
    then have "register_first_not_registered ?evs s = register_for_event_notification 0 ?evs s"
      by (simp add: register_first_not_registered_def)
    then show ?thesis using assms Cons
      by (simp add: handle_get_capability_response_def Let_def)
  qed
qed

lemma handle_get_capability_response_cases:
  "(caps_status r = AVRC_STS_NO_ERROR \<and> capability_id r = AVRC_CAP_EVENTS_SUPPORTED)
   \<or> quiet s (handle_get_capability_response r s)"
  unfolding handle_get_capability_response_def
  by (auto intro: quiet_cmds)

lemma set_event_list_register_first:
  shows "flags_kept s (set_event_list (register_first_not_registered evs s))"
    and "event_ids (set_event_list (register_first_not_registered evs s)) = event_id ` set evs"
    and "\<exists>X. reg_notif_events (sent (set_event_list (register_first_not_registered evs s)))
               = reg_notif_events (sent s) @ X \<and> set X \<subseteq> event_id ` set evs"
proof -
  obtain evs' t where rf: "register_first_not_registered evs s = (evs', t)"
    by (cases "register_first_not_registered evs s")
  note sm = register_first_not_registered_summary [OF rf]
  have ids': "event_id ` set evs' = event_id ` set evs"
    using sm(2) by (metis list.set_map)
  show "flags_kept s (set_event_list (register_first_not_registered evs s))"
    using sm(1,3) by (simp add: rf flags_kept_def)
  show "event_ids (set_event_list (register_first_not_registered evs s)) = event_id ` set evs"
    using ids' by (simp add: rf event_ids_def)
  from sm(4) consider "reg_notif_events (sent t) = reg_notif_events (sent s) @ []"
    | k where "first_index (\<lambda>e. status e = eNOT_REGISTERED) evs = Some k"
        "reg_notif_events (sent t) = reg_notif_events (sent s) @ [event_id (evs ! k)]"
    by auto
  then show "\<exists>X. reg_notif_events (sent (set_event_list (register_first_not_registered evs s)))
               = reg_notif_events (sent s) @ X \<and> set X \<subseteq> event_id ` set evs"
  proof cases
    case 1
    then show ?thesis by (intro exI [of _ "[]"]) (simp add: rf)
  next
    case 2
    from first_index_Some [OF 2(1)] have "evs ! k \<in> set evs" using nth_mem by blast
    then have "event_id (evs ! k) \<in> event_id ` set evs" by blast
    with 2(2) show ?thesis by (intro exI [of _ "[event_id (evs ! k)]"]) (simp add: rf)
  qed
qed

lemma handle_get_capability_response_summary:
  shows "flags_kept s (handle_get_capability_response r s)"
    and "sup_inv s \<Longrightarrow> sup_inv (handle_get_capability_response r s)"
    and "caps_status r = AVRC_STS_NO_ERROR \<Longrightarrow> capability_id r = AVRC_CAP_EVENTS_SUPPORTED
          \<Longrightarrow> sup_inv (handle_get_capability_response r s)"
    and "\<exists>X. reg_notif_events (sent (handle_get_capability_response r s))
               = reg_notif_events (sent s) @ X
             \<and> set X \<subseteq> event_ids (handle_get_capability_response r s)"
proof -
  define evs where "evs = map (\<lambda>xx. \<lparr>event_id = param_event_id r xx, label = osi_malloc_label s xx,
                               status = eNOT_REGISTERED\<rparr>)
                     (filter (\<lambda>xx. supported_event (param_event_id r xx))
                        [0..<unat (caps_count r)])"
  let ?s' = "handle_get_capability_response r s"
  let ?t = "set_event_list (register_first_not_registered evs s)"
  have sup: "\<forall>ev \<in> event_id ` set evs. supported_event ev"
    unfolding evs_def by auto
  have eq: "?s' = ?t"
    if "caps_status r = AVRC_STS_NO_ERROR \<and> capability_id r = AVRC_CAP_EVENTS_SUPPORTED"
    using that handle_get_capability_response_events [of r s] by (simp only: evs_def)
  note t = set_event_list_register_first [where s = s and evs = evs]
  show "flags_kept s ?s'"
  proof (cases "caps_status r = AVRC_STS_NO_ERROR \<and> capability_id r = AVRC_CAP_EVENTS_SUPPORTED")
    case True
    from t(1) eq [OF True] show ?thesis by simp
  next
    case False
    with handle_get_capability_response_cases [of r s] show ?thesis
      using quiet_flags_kept by blast
  qed
  show ev: "sup_inv ?s'"
    if "caps_status r = AVRC_STS_NO_ERROR" "capability_id r = AVRC_CAP_EVENTS_SUPPORTED"
  proof -
    from that eq have "?s' = ?t" by simp
    with t(2) have e: "event_ids ?s' = event_id ` set evs" by simp
    show ?thesis unfolding sup_inv_def e using sup .
  qed
  show "sup_inv ?s'" if "sup_inv s"
  proof (cases "caps_status r = AVRC_STS_NO_ERROR \<and> capability_id r = AVRC_CAP_EVENTS_SUPPORTED")
    case True then show ?thesis using ev by simp
  next
    case False
    with handle_get_capability_response_cases [of r s] have "quiet s ?s'" by blast
    with that show ?thesis
      by (simp add: quiet_def sup_inv_def event_ids_def event_list_def)
  qed
  show "\<exists>X. reg_notif_events (sent ?s') = reg_notif_events (sent s) @ X \<and> set X \<subseteq> event_ids ?s'"
  proof (cases "caps_status r = AVRC_STS_NO_ERROR \<and> capability_id r = AVRC_CAP_EVENTS_SUPPORTED")
    case True
    from eq [OF True] t(2) t(3) show ?thesis by simp
  next
    case False
    with handle_get_capability_response_cases [of r s] have "quiet s ?s'" by blast
    then show ?thesis by (intro exI [of _ "[]"]) (simp add: quiet_def)
  qed
qed

lemma event_ids_release [simp]: "event_ids (release l s) = event_ids s"
  by (simp add: event_ids_def event_list_def)

lemma sup_inv_release [simp]: "sup_inv (release l s) = sup_inv s"
  by (simp add: sup_inv_def)

lemma flags_kept_release: "flags_kept s t \<Longrightarrow> flags_kept s (release l t)"
  by (simp add: flags_kept_def)

text \<open>Every step keeps the flags; every step keeps the list within the three events the
  file registers for, and registers for events of the list only.\<close>

lemma tame_flags_kept: "tame s s' \<Longrightarrow> flags_kept s s'"
  by (simp add: tame_def)

lemma flags_kept_rc_step:
  assumes "rc_step e s = Some s'" shows "flags_kept s s'"
proof (cases "builds_event_list e")
  case False
  from tame_rc_step [OF assms False] show ?thesis by (rule tame_flags_kept)
next
  case True
  then obtain m c where e: "e = Meta_msg_rsp m (Rsp_get_caps c)"
    by (cases e rule: builds_event_list.cases) auto
  with assms have "s' = s \<or> s' = release (msg_label m) (handle_get_capability_response c s)"
    by (auto simp: handle_avk_rc_metamsg_rsp_def split: if_splits)
  then show ?thesis
    using flags_kept_release [OF handle_get_capability_response_summary(1)] by auto
qed

lemma flags_kept_rc_run: "rc_run es s = Some s' \<Longrightarrow> flags_kept s s'"
proof (induction es arbitrary: s)
  case Nil then show ?case by simp
next
  case (Cons e es)
  from Cons.prems obtain s1 where s1: "rc_step e s = Some s1" "rc_run es s1 = Some s'"
    by (auto split: option.splits)
  from flags_kept_rc_step [OF s1(1)] Cons.IH [OF s1(2)] show ?case by (rule flags_kept_trans)
qed

lemma sup_rc_step:
  assumes "rc_step e s = Some s'" "sup_inv s"
  shows "sup_inv s' \<and> (\<exists>X. reg_notif_events (sent s') = reg_notif_events (sent s) @ X
                          \<and> (\<forall>ev\<in>set X. supported_event ev))"
proof (cases "builds_event_list e")
  case False
  from tame_rc_step [OF assms(1) False] assms(2) show ?thesis
    unfolding tame_def sup_inv_def by blast
next
  case True
  then obtain m c where e: "e = Meta_msg_rsp m (Rsp_get_caps c)"
    by (cases e rule: builds_event_list.cases) auto
  with assms have "s' = s \<or> s' = release (msg_label m) (handle_get_capability_response c s)"
    by (auto simp: handle_avk_rc_metamsg_rsp_def split: if_splits)
  then show ?thesis
  proof
    assume "s' = s"
    with assms(2) show ?thesis by (auto intro: exI [of _ "[]"])
  next
    assume s': "s' = release (msg_label m) (handle_get_capability_response c s)"
    from handle_get_capability_response_summary(2) [OF assms(2), of c]
    have inv: "sup_inv s'" by (simp add: s')
    from handle_get_capability_response_summary(4) [of c s] obtain X where
      X: "reg_notif_events (sent s') = reg_notif_events (sent s) @ X" "set X \<subseteq> event_ids s'"
      by (auto simp: s')
    from X(2) inv have "\<forall>ev\<in>set X. supported_event ev" by (auto simp: sup_inv_def)
    with inv X(1) show ?thesis by blast
  qed
qed

lemma sup_rc_run:
  "rc_run es s = Some s' \<Longrightarrow> sup_inv s \<Longrightarrow>
     sup_inv s' \<and> (\<exists>X. reg_notif_events (sent s') = reg_notif_events (sent s) @ X
                          \<and> (\<forall>ev\<in>set X. supported_event ev))"
proof (induction es arbitrary: s)
  case Nil then show ?case by (auto intro: exI [of _ "[]"])
next
  case (Cons e es)
  from Cons.prems obtain s1 where s1: "rc_step e s = Some s1" "rc_run es s1 = Some s'"
    by (auto split: option.splits)
  from sup_rc_step [OF s1(1) Cons.prems(2)] obtain X where
    X: "sup_inv s1" "reg_notif_events (sent s1) = reg_notif_events (sent s) @ X"
      "\<forall>ev\<in>set X. supported_event ev" by blast
  from Cons.IH [OF s1(2) X(1)] obtain Y where
    Y: "sup_inv s'" "reg_notif_events (sent s') = reg_notif_events (sent s1) @ Y"
      "\<forall>ev\<in>set Y. supported_event ev" by blast
  have "reg_notif_events (sent s') = reg_notif_events (sent s) @ (X @ Y)" using X Y by simp
  moreover have "\<forall>ev\<in>set (X @ Y). supported_event ev" using X Y by auto
  ultimately show ?case using Y(1) by blast
qed
subsection \<open>Slots in use are left alone\<close>

lemma lbl_clear_cmd_timeout [simp]: "lbl (clear_cmd_timeout l d ! i) = lbl (d ! i)"
proof -
  have "lbl (d[k := (d ! k)\<lparr>txn_timer := t\<rparr>] ! i) = lbl (d ! i)" for k t
  proof (cases "k = i")
    case False then show ?thesis by simp
  next
    case True
    then show ?thesis by (cases "i < length d") (simp_all add: list_update_beyond)
  qed
  then show ?thesis by (simp add: clear_cmd_timeout_def split: option.splits)
qed

lemma lbl_initialize_transaction:
  "i < length d \<Longrightarrow>
     lbl (initialize_transaction l d ! i)
       = (if i = l \<and> l < MAX_TRANSACTIONS_PER_SESSION then of_nat l else lbl (d ! i))"
  by (auto simp: initialize_transaction_def Let_def nth_list_update)

lemma length_fold_initialize_transaction [simp]:
  "length (fold initialize_transaction ls d) = length d"
  by (induction ls arbitrary: d) simp_all

lemma lbl_fold_initialize_transaction:
  assumes "i \<in> set ls" "i < length d" "\<forall>l\<in>set ls. l < MAX_TRANSACTIONS_PER_SESSION"
  shows "lbl (fold initialize_transaction ls d ! i) = of_nat i"
  using assms
proof (induction ls rule: rev_induct)
  case Nil then show ?case by simp
next
  case (snoc x xs)
  show ?case
  proof (cases "i = x")
    case True
    with snoc.prems show ?thesis by (simp add: lbl_initialize_transaction)
  next
    case False
    with snoc.prems have "i \<in> set xs" by simp
    with snoc.IH snoc.prems have "lbl (fold initialize_transaction xs d ! i) = of_nat i" by simp
    with False snoc.prems show ?thesis by (simp add: lbl_initialize_transaction)
  qed
qed

lemma pool_wf_lbl_init: "pool_wf lbl_init"
  unfolding pool_wf_def lbl_init_def init_all_transactions_def
  by (simp add: lbl_fold_initialize_transaction)

lemma pool_kept_refl: "pool_wf d \<Longrightarrow> pool_kept d d"
  by (simp add: pool_kept_def)

lemma pool_kept_trans: "pool_kept d d1 \<Longrightarrow> pool_kept d1 d2 \<Longrightarrow> pool_kept d d2"
  by (auto simp: pool_kept_def)

lemma keeps_refl [simp]: "keeps s s"
  by (simp add: keeps_def pool_kept_refl)

lemma keeps_trans: "keeps s s1 \<Longrightarrow> keeps s1 s2 \<Longrightarrow> keeps s s2"
  unfolding keeps_def using pool_kept_trans by (auto simp: pool_kept_def)

lemma keeps_same_device: "device s' = device s \<Longrightarrow> keeps s s'"
  by (simp add: keeps_def pool_kept_refl)

lemma pool_kept_acquire_arm:
  assumes "pool_wf d" "get_transaction_loop 0 d = Some p"
  shows "pool_kept d (d[p := (d ! p)\<lparr>in_use := True\<rparr>])"
    and "pool_kept d ((d[p := (d ! p)\<lparr>in_use := True\<rparr>])
           [p := (d[p := (d ! p)\<lparr>in_use := True\<rparr>] ! p)\<lparr>txn_timer_context := c, txn_timer := t\<rparr>])"
    and "lbl (d[p := (d ! p)\<lparr>in_use := True\<rparr>] ! p) = of_nat p"
    and "p < MAX_TRANSACTIONS_PER_SESSION"
proof -
  from get_transaction_loop_Some [OF assms(2)]
  have p: "p < MAX_TRANSACTIONS_PER_SESSION" "\<not> in_use (d ! p)" by simp_all
  show "p < MAX_TRANSACTIONS_PER_SESSION" by fact
  show "pool_kept d (d[p := (d ! p)\<lparr>in_use := True\<rparr>])"
    using assms(1) p by (auto simp: pool_kept_def pool_wf_def nth_list_update)
  show "pool_kept d ((d[p := (d ! p)\<lparr>in_use := True\<rparr>])
           [p := (d[p := (d ! p)\<lparr>in_use := True\<rparr>] ! p)\<lparr>txn_timer_context := c, txn_timer := t\<rparr>])"
    using assms(1) p by (auto simp: pool_kept_def pool_wf_def nth_list_update)
  show "lbl (d[p := (d ! p)\<lparr>in_use := True\<rparr>] ! p) = of_nat p"
    using assms(1) p by (auto simp: pool_wf_def)
qed


lemma keeps_step: "keeps s s1 \<Longrightarrow> keeps s1 s2 \<Longrightarrow> keeps s s2"
  by (rule keeps_trans)





lemma keeps_set_event_list: "keeps s s1 \<Longrightarrow> keeps s (set_event_list (evs, s1))"
  by (simp add: keeps_def)




subsection \<open>The dispatcher and the pool\<close>

lemma release_transaction_nth_other:
  "j \<noteq> unat l \<Longrightarrow> release_transaction l d ! j = d ! j"
  by (auto simp: release_transaction_def get_transaction_by_lbl_def initialize_transaction_def
        Let_def clear_cmd_timeout_def split: option.splits)

lemma pool_wf_release_transaction:
  assumes "pool_wf d" shows "pool_wf (release_transaction l d)"
proof -
  have len: "length d = MAX_TRANSACTIONS_PER_SESSION" using assms by (simp add: pool_wf_def)
  have "lbl (release_transaction l d ! i) = of_nat i" if i: "i < MAX_TRANSACTIONS_PER_SESSION" for i
  proof (cases "get_transaction_by_lbl l d")
    case None
    with assms i show ?thesis by (simp add: release_transaction_def pool_wf_def)
  next
    case (Some k)
    have "lbl (initialize_transaction (unat l) d ! i) = of_nat i"
      using i len assms by (simp add: lbl_initialize_transaction pool_wf_def)
    with Some show ?thesis by (simp add: release_transaction_def)
  qed
  with len show ?thesis by (simp add: pool_wf_def)
qed

lemma keeps_register_for_event_notification:
  "keeps s (snd (register_for_event_notification k evs s))"
proof (cases "get_transaction_loop 0 (device s)")
  case None
  then show ?thesis
    by (simp add: register_for_event_notification_def get_transaction_def keeps_same_device)
next
  case (Some p)
  show ?thesis
    unfolding keeps_def
  proof
    assume wf: "pool_wf (device s)"
    note pk = pool_kept_acquire_arm [OF wf Some]
    let ?d = "(device s)[p := (device s ! p)\<lparr>in_use := True\<rparr>]"
    let ?s1 = "s\<lparr>device := ?d\<rparr>"
    have p8: "unat (of_nat p :: 8 word) = p"
      using pk(4) by (simp add: MAX_TRANSACTIONS_PER_SESSION_def unat_of_nat)
    from get_transaction_loop_Some [OF Some] have free: "\<not> in_use (device s ! p)" by simp
    have rel: "pool_kept (device s) (release_transaction (of_nat p) ?d)"
    proof -
      have "pool_wf ?d" using pk(1) by (simp add: pool_kept_def)
      then have "pool_wf (release_transaction (of_nat p) ?d)"
        by (rule pool_wf_release_transaction)
      moreover have "release_transaction (of_nat p) ?d ! i = device s ! i"
        if "in_use (device s ! i)" for i
      proof -
        from that free have "i \<noteq> p" by auto
        then show ?thesis using p8 by (simp add: release_transaction_nth_other)
      qed
      ultimately show ?thesis by (simp add: pool_kept_def)
    qed
    from register_notification_cmd_cases [of "lbl (?d ! p)" "event_id (evs ! k)" 0 ?s1]
    show "pool_kept (device s) (device (snd (register_for_event_notification k evs s)))"
      using Some pk(2) pk(3) rel
      by (auto simp: register_for_event_notification_def get_transaction_def
          BT_STATUS_SUCCESS_def)
  qed
qed

lemma keeps_register_first_not_registered:
  assumes "keeps s s1"
  shows "keeps s (set_event_list (register_first_not_registered evs s1))"
proof -
  have "keeps s1 (snd (register_first_not_registered evs s1))"
    by (simp add: register_first_not_registered_def keeps_register_for_event_notification
        split: option.splits)
  with assms have "keeps s (snd (register_first_not_registered evs s1))" by (rule keeps_trans)
  then show ?thesis
    by (cases "register_first_not_registered evs s1") (simp add: keeps_set_event_list)
qed





















subsection \<open>The events of the capabilities response\<close>

lemma event_list_handle_get_capability_response:
  assumes "caps_status r = AVRC_STS_NO_ERROR" "capability_id r = AVRC_CAP_EVENTS_SUPPORTED"
  shows "map event_id (event_list (handle_get_capability_response r s))
           = filter supported_event (map (param_event_id r) [0..<unat (caps_count r)])"
proof -
  define evs where "evs = map (\<lambda>xx. \<lparr>event_id = param_event_id r xx, label = osi_malloc_label s xx,
                               status = eNOT_REGISTERED\<rparr>)
                     (filter (\<lambda>xx. supported_event (param_event_id r xx))
                        [0..<unat (caps_count r)])"
  obtain evs' t where rf: "register_first_not_registered evs s = (evs', t)"
    by (cases "register_first_not_registered evs s")
  have "handle_get_capability_response r s = set_event_list (evs', t)"
    using handle_get_capability_response_events [OF assms, of s] rf by (simp only: evs_def)
  then have "map event_id (event_list (handle_get_capability_response r s)) = map event_id evs'"
    by simp
  also have "\<dots> = map event_id evs"
    by (rule register_first_not_registered_summary(2) [OF rf])
  also have "\<dots> = filter supported_event (map (param_event_id r) [0..<unat (caps_count r)])"
    by (simp add: evs_def filter_map comp_def)
  finally show ?thesis .
qed

text \<open>
  Claim C10. Let a capabilities response that lists the supported events be dispatched
  (status without error). The event ids of the supported-event list the handler builds
  are those of the advertised ids that are \<open>PLAY_STATUS_CHANGE\<close>, \<open>TRACK_CHANGE\<close> or
  \<open>APP_SETTING_CHANGE\<close>, in the order advertised. Whatever responses and timeouts follow,
  every \<open>REGISTER_NOTIFICATION\<close> sent from the dispatch on is for one of these three
  event ids.
\<close>

theorem only_three_events_listed_and_registered:
  assumes "caps_status r = AVRC_STS_NO_ERROR" "capability_id r = AVRC_CAP_EVENTS_SUPPORTED"
    and "msg_opcode m = AVRC_OP_VENDOR"
    and "AVRC_RSP_NOT_IMPL \<le> msg_code m" and "msg_code m \<le> AVRC_RSP_INTERIM"
    and "rc_run (Meta_msg_rsp m (Rsp_get_caps r) # es) s = Some s'"
  shows "map event_id (event_list (handle_get_capability_response r s))
           = filter supported_event (map (param_event_id r) [0..<unat (caps_count r)])
       \<and> (\<exists>X. reg_notif_events (sent s') = reg_notif_events (sent s) @ X
              \<and> list_all supported_event X)"
proof
  show "map event_id (event_list (handle_get_capability_response r s))
           = filter supported_event (map (param_event_id r) [0..<unat (caps_count r)])"
    using assms(1,2) by (rule event_list_handle_get_capability_response)
  define s1 where "s1 = release (msg_label m) (handle_get_capability_response r s)"
  have step: "rc_step (Meta_msg_rsp m (Rsp_get_caps r)) s = Some s1"
    using assms(3-5) by (simp add: handle_avk_rc_metamsg_rsp_def s1_def)
  with assms(6) have run: "rc_run es s1 = Some s'" by simp
  from handle_get_capability_response_summary(3) [OF assms(1,2), of s]
  have inv: "sup_inv s1" by (simp add: s1_def)
  from handle_get_capability_response_summary(4) [of r s] obtain X where
    X: "reg_notif_events (sent s1) = reg_notif_events (sent s) @ X" "set X \<subseteq> event_ids s1"
    by (auto simp: s1_def)
  from X(2) inv have supX: "list_all supported_event X"
    by (auto simp: sup_inv_def list_all_iff)
  from sup_rc_run [OF run inv] obtain Y where
    Y: "reg_notif_events (sent s') = reg_notif_events (sent s1) @ Y"
      "\<forall>ev\<in>set Y. supported_event ev" by blast
  have "reg_notif_events (sent s') = reg_notif_events (sent s) @ (X @ Y)" using X(1) Y(1) by simp
  moreover have "list_all supported_event (X @ Y)" using supX Y(2) by (auto simp: list_all_iff)
  ultimately show "\<exists>X. reg_notif_events (sent s') = reg_notif_events (sent s) @ X
              \<and> list_all supported_event X" by blast
qed

theorem only_three_events_listed_and_registered_witness:
  "map (param_event_id (events_supported_caps
          [AVRC_EVT_PLAY_STATUS_CHANGE, AVRC_EVT_BATTERY_STATUS_CHANGE, AVRC_EVT_TRACK_CHANGE]))
     [0..<3]
     = [AVRC_EVT_PLAY_STATUS_CHANGE, AVRC_EVT_BATTERY_STATUS_CHANGE, AVRC_EVT_TRACK_CHANGE]
   \<and> map event_id (event_list (handle_get_capability_response
        (events_supported_caps
          [AVRC_EVT_PLAY_STATUS_CHANGE, AVRC_EVT_BATTERY_STATUS_CHANGE, AVRC_EVT_TRACK_CHANGE])
        events_query_sent))
     = [AVRC_EVT_PLAY_STATUS_CHANGE, AVRC_EVT_TRACK_CHANGE]
   \<and> (\<exists>s'. rc_run
              [Meta_msg_rsp (vendor_rsp AVRC_RSP_IMPL_STBL 0)
                 (Rsp_get_caps (events_supported_caps
                    [AVRC_EVT_PLAY_STATUS_CHANGE, AVRC_EVT_BATTERY_STATUS_CHANGE,
                     AVRC_EVT_TRACK_CHANGE])),
               Meta_msg_rsp (vendor_rsp AVRC_RSP_INTERIM 1)
                 (notif_rsp AVRC_EVT_PLAY_STATUS_CHANGE 1)]
              events_query_sent = Some s'
          \<and> reg_notif_events (sent s')
              = [AVRC_EVT_PLAY_STATUS_CHANGE, AVRC_EVT_TRACK_CHANGE]
          \<and> (\<exists>X. reg_notif_events (sent s') = reg_notif_events (sent events_query_sent) @ X
                \<and> list_all supported_event X))"
proof -
  let ?r = "events_supported_caps
          [AVRC_EVT_PLAY_STATUS_CHANGE, AVRC_EVT_BATTERY_STATUS_CHANGE, AVRC_EVT_TRACK_CHANGE]"
  let ?es = "[Meta_msg_rsp (vendor_rsp AVRC_RSP_INTERIM 1)
                 (notif_rsp AVRC_EVT_PLAY_STATUS_CHANGE 1)]"
  have adv: "map (param_event_id ?r) [0..<3]
     = [AVRC_EVT_PLAY_STATUS_CHANGE, AVRC_EVT_BATTERY_STATUS_CHANGE, AVRC_EVT_TRACK_CHANGE]"
    by code_simp
  have r: "caps_status ?r = AVRC_STS_NO_ERROR" "capability_id ?r = AVRC_CAP_EVENTS_SUPPORTED"
    "unat (caps_count ?r) = 3"
    by (simp_all add: events_supported_caps_def)
  have m: "msg_opcode (vendor_rsp AVRC_RSP_IMPL_STBL 0) = AVRC_OP_VENDOR"
    "AVRC_RSP_NOT_IMPL \<le> msg_code (vendor_rsp AVRC_RSP_IMPL_STBL 0)"
    "msg_code (vendor_rsp AVRC_RSP_IMPL_STBL 0) \<le> AVRC_RSP_INTERIM"
    by (simp_all add: vendor_rsp_def AVRC_RSP_NOT_IMPL_def AVRC_RSP_INTERIM_def
        AVRC_RSP_IMPL_STBL_def)
  have kept: "filter supported_event
       [AVRC_EVT_PLAY_STATUS_CHANGE, AVRC_EVT_BATTERY_STATUS_CHANGE, AVRC_EVT_TRACK_CHANGE]
       = [AVRC_EVT_PLAY_STATUS_CHANGE, AVRC_EVT_TRACK_CHANGE]"
    by code_simp
  have run: "map_option (\<lambda>s. reg_notif_events (sent s))
               (rc_run (Meta_msg_rsp (vendor_rsp AVRC_RSP_IMPL_STBL 0) (Rsp_get_caps ?r) # ?es)
                  events_query_sent)
             = Some [AVRC_EVT_PLAY_STATUS_CHANGE, AVRC_EVT_TRACK_CHANGE]"
    by code_simp
  then obtain s' where s': "rc_run (Meta_msg_rsp (vendor_rsp AVRC_RSP_IMPL_STBL 0)
                              (Rsp_get_caps ?r) # ?es) events_query_sent = Some s'"
    "reg_notif_events (sent s') = [AVRC_EVT_PLAY_STATUS_CHANGE, AVRC_EVT_TRACK_CHANGE]"
    by blast
  from only_three_events_listed_and_registered [OF r(1,2) m s'(1)] adv kept r(3)
  have "map event_id (event_list (handle_get_capability_response ?r events_query_sent))
     = [AVRC_EVT_PLAY_STATUS_CHANGE, AVRC_EVT_TRACK_CHANGE]"
    and "\<exists>X. reg_notif_events (sent s') = reg_notif_events (sent events_query_sent) @ X
                \<and> list_all supported_event X"
    by simp_all
  with adv s' show ?thesis by blast
qed
subsection \<open>The completion flag\<close>

lemma refetch_status_command:
  "\<exists>X. sent (snd (get_element_attribute_cmd ids s)) = sent s @ X \<and> list_all refetch_action X"
proof -
  from sent_status_command [of AVRC_PDU_GET_ELEMENT_ATTR "Cmd_get_elem_attrs ids" s]
  show ?thesis
    unfolding get_element_attribute_cmd_def
  proof
    assume "sent (snd (status_command AVRC_PDU_GET_ELEMENT_ATTR (Cmd_get_elem_attrs ids) s)) = sent s"
    then show "\<exists>X. sent (snd (status_command AVRC_PDU_GET_ELEMENT_ATTR (Cmd_get_elem_attrs ids) s))
                 = sent s @ X \<and> list_all refetch_action X"
      by (intro exI [of _ "[]"]) simp
  next
    assume "\<exists>l. sent (snd (status_command AVRC_PDU_GET_ELEMENT_ATTR (Cmd_get_elem_attrs ids) s))
                = sent s @ [BTA_AvVendorCmd (rc_handle (btif_rc_cb s)) l AVRC_CMD_STATUS
                             (Cmd_get_elem_attrs ids)]"
    then obtain l where
      "sent (snd (status_command AVRC_PDU_GET_ELEMENT_ATTR (Cmd_get_elem_attrs ids) s))
                = sent s @ [BTA_AvVendorCmd (rc_handle (btif_rc_cb s)) l AVRC_CMD_STATUS
                             (Cmd_get_elem_attrs ids)]" ..
    then show "\<exists>X. sent (snd (status_command AVRC_PDU_GET_ELEMENT_ATTR (Cmd_get_elem_attrs ids) s))
                 = sent s @ X \<and> list_all refetch_action X"
      by (intro exI [of _ "[BTA_AvVendorCmd (rc_handle (btif_rc_cb s)) l AVRC_CMD_STATUS
                             (Cmd_get_elem_attrs ids)]"]) simp
  qed
qed

lemma changed_track_refetches:
  assumes "handle_notification_changed r s = Some s'"
    and "rn_event_id r = AVRC_EVT_TRACK_CHANGE"
  shows "\<exists>X. sent s' = sent s @ X \<and> list_all refetch_action X"
    and "rc_procedure_complete (btif_rc_cb s') = rc_procedure_complete (btif_rc_cb s)"
    and "rc_app_settings (btif_rc_cb s') = rc_app_settings (btif_rc_cb s)"
proof -
  from assms obtain evs where evs: "rc_supported_event_list (btif_rc_cb s) = Some evs"
    by (auto simp: handle_notification_changed_def split: option.splits)
  define t where "t = set_event_list
                 (case first_index (\<lambda>e. event_id e = rn_event_id r) evs of
                    None \<Rightarrow> (evs, s)
                  | Some p_event \<Rightarrow>
                      register_for_event_notification p_event
                        (evs[p_event := (evs ! p_event)\<lparr>status := eNOT_REGISTERED\<rparr>]) s)"
  have t: "(\<exists>X. sent t = sent s @ X \<and> list_all refetch_action X)
         \<and> rc_procedure_complete (btif_rc_cb t) = rc_procedure_complete (btif_rc_cb s)
         \<and> rc_app_settings (btif_rc_cb t) = rc_app_settings (btif_rc_cb s)"
  proof (cases "first_index (\<lambda>e. event_id e = rn_event_id r) evs")
    case None
    then show ?thesis by (simp add: t_def)
  next
    case (Some p)
    from first_index_Some [OF Some] assms(2)
    have p: "p < length evs" "event_id (evs ! p) = AVRC_EVT_TRACK_CHANGE" by simp_all
    let ?evs = "evs[p := (evs ! p)\<lparr>status := eNOT_REGISTERED\<rparr>]"
    have id: "event_id (?evs ! p) = AVRC_EVT_TRACK_CHANGE" using p by simp
    show ?thesis
    proof (cases rule: register_for_event_notification_cases [of p ?evs s])
      case (fail d)
      with Some show ?thesis by (simp add: t_def)
    next
      case (silent d l)
      with Some show ?thesis by (simp add: t_def)
    next
      case (sent d l)
      have "list_all refetch_action [BTA_AvVendorCmd (rc_handle (btif_rc_cb s)) l AVRC_CMD_NOTIF
                       (Cmd_reg_notif (event_id (?evs ! p)) 0)]"
        by (simp only: id) simp
      with sent Some show ?thesis by (simp add: t_def)
    qed
  qed
  have s': "s' = (if \<not> rc_is_track_id_valid (param_track r) then t
                  else snd (get_element_attribute_cmd attr_list t))"
    using assms evs
    by (auto simp: handle_notification_changed_def Let_def t_def AVRC_EVT_TRACK_CHANGE_def
        AVRC_EVT_PLAY_STATUS_CHANGE_def)
  from t obtain X where X: "sent t = sent s @ X" "list_all refetch_action X" by blast
  from refetch_status_command [of attr_list t] obtain Y where
    Y: "sent (snd (get_element_attribute_cmd attr_list t)) = sent t @ Y" "list_all refetch_action Y"
    by blast
  show "\<exists>X. sent s' = sent s @ X \<and> list_all refetch_action X"
  proof (cases "rc_is_track_id_valid (param_track r)")
    case False
    with s' X show ?thesis by auto
  next
    case True
    with s' X Y have "sent s' = sent s @ (X @ Y)" "list_all refetch_action (X @ Y)" by simp_all
    then show ?thesis by blast
  qed
  show "rc_procedure_complete (btif_rc_cb s') = rc_procedure_complete (btif_rc_cb s)"
    using t s' by (simp add: get_element_attribute_cmd_def)
  show "rc_app_settings (btif_rc_cb s') = rc_app_settings (btif_rc_cb s)"
    using t s' by (simp add: get_element_attribute_cmd_def)
qed

text \<open>
  Claim C9. \<open>rc_ctrl_procedure_complete\<close> sets the flag \<open>rc_procedure_complete\<close>; once
  the flag is set the function returns the state as it is (nothing is sent), and no
  response or timeout clears the flag. A changed response for a track change, with the
  flag set, leaves the flag and the application settings as they are and sends nothing
  but the registration of the track-change notification and the request for the element
  attributes.
\<close>

theorem procedure_complete_is_sticky:
  "rc_procedure_complete (btif_rc_cb (rc_ctrl_procedure_complete s))
   \<and> (rc_procedure_complete (btif_rc_cb s) \<longrightarrow> rc_ctrl_procedure_complete s = s)
   \<and> (rc_procedure_complete (btif_rc_cb s) \<and> rc_run es s = Some s'
        \<longrightarrow> rc_procedure_complete (btif_rc_cb s'))
   \<and> (rc_procedure_complete (btif_rc_cb s) \<and> msg_opcode m = AVRC_OP_VENDOR
        \<and> msg_code m = AVRC_RSP_CHANGED \<and> rn_event_id r = AVRC_EVT_TRACK_CHANGE
        \<and> handle_avk_rc_metamsg_rsp m (Rsp_reg_notif r) s = Some t
        \<longrightarrow> rc_procedure_complete (btif_rc_cb t)
            \<and> rc_app_settings (btif_rc_cb t) = rc_app_settings (btif_rc_cb s)
            \<and> (\<exists>X. sent t = sent s @ X \<and> list_all refetch_action X))"
proof (intro conjI impI)
  show "rc_procedure_complete (btif_rc_cb (rc_ctrl_procedure_complete s))"
    by (simp add: rc_ctrl_procedure_complete_def get_element_attribute_cmd_def)
  show "rc_ctrl_procedure_complete s = s" if "rc_procedure_complete (btif_rc_cb s)"
    using that by (simp add: rc_ctrl_procedure_complete_def)
  show "rc_procedure_complete (btif_rc_cb s')"
    if "rc_procedure_complete (btif_rc_cb s) \<and> rc_run es s = Some s'"
    using that flags_kept_rc_run [of es s s'] by (simp add: flags_kept_def)
  assume a: "rc_procedure_complete (btif_rc_cb s) \<and> msg_opcode m = AVRC_OP_VENDOR
        \<and> msg_code m = AVRC_RSP_CHANGED \<and> rn_event_id r = AVRC_EVT_TRACK_CHANGE
        \<and> handle_avk_rc_metamsg_rsp m (Rsp_reg_notif r) s = Some t"
  then obtain s1 where s1: "handle_notification_changed r s = Some s1"
    and t: "t = release (msg_label m) s1"
    by (auto simp: handle_avk_rc_metamsg_rsp_def handle_notification_response_def
        AVRC_RSP_CHANGED_def AVRC_RSP_INTERIM_def AVRC_RSP_NOT_IMPL_def
        split: option.splits if_splits)
  from a have ev: "rn_event_id r = AVRC_EVT_TRACK_CHANGE" by simp
  note c = changed_track_refetches [OF s1 ev]
  show "rc_procedure_complete (btif_rc_cb t)" using a c(2) t by simp
  show "rc_app_settings (btif_rc_cb t) = rc_app_settings (btif_rc_cb s)" using c(3) t by simp
  show "\<exists>X. sent t = sent s @ X \<and> list_all refetch_action X" using c(1) t by simp
qed

theorem procedure_complete_is_sticky_witness:
  "rc_procedure_complete (btif_rc_cb example_completed)
   \<and> rc_ctrl_procedure_complete example_completed = example_completed
   \<and> (\<exists>t. handle_avk_rc_metamsg_rsp (vendor_rsp AVRC_RSP_CHANGED 2)
              (notif_rsp AVRC_EVT_TRACK_CHANGE 0) example_completed = Some t
          \<and> rc_procedure_complete (btif_rc_cb t)
          \<and> rc_app_settings (btif_rc_cb t) = rc_app_settings (btif_rc_cb example_completed)
          \<and> (\<exists>X. sent t = sent example_completed @ X \<and> list_all refetch_action X))
   \<and> (\<exists>s'. rc_run [Meta_msg_rsp (vendor_rsp AVRC_RSP_INTERIM 1)
                      (notif_rsp AVRC_EVT_PLAY_STATUS_CHANGE 1), Play_status_timeout]
              example_completed = Some s'
          \<and> rc_procedure_complete (btif_rc_cb s'))"
proof -
  let ?es = "[Meta_msg_rsp (vendor_rsp AVRC_RSP_INTERIM 1)
                (notif_rsp AVRC_EVT_PLAY_STATUS_CHANGE 1), Play_status_timeout]"
  define r where "r = notif AVRC_EVT_TRACK_CHANGE 0"
  have r: "notif_rsp AVRC_EVT_TRACK_CHANGE 0 = Rsp_reg_notif r"
    "rn_event_id r = AVRC_EVT_TRACK_CHANGE"
    by (simp_all add: notif_rsp_def notif_def r_def)
  have m: "msg_opcode (vendor_rsp AVRC_RSP_CHANGED 2) = AVRC_OP_VENDOR"
    "msg_code (vendor_rsp AVRC_RSP_CHANGED 2) = AVRC_RSP_CHANGED"
    by (simp_all add: vendor_rsp_def)
  have flag: "rc_procedure_complete (btif_rc_cb example_completed)" by code_simp
  have "map_option (\<lambda>s. rc_procedure_complete (btif_rc_cb s))
          (handle_avk_rc_metamsg_rsp (vendor_rsp AVRC_RSP_CHANGED 2)
             (notif_rsp AVRC_EVT_TRACK_CHANGE 0) example_completed) = Some True"
    by code_simp
  then obtain t where t: "handle_avk_rc_metamsg_rsp (vendor_rsp AVRC_RSP_CHANGED 2)
             (Rsp_reg_notif r) example_completed = Some t"
    by (auto simp: r(1))
  have "map_option (\<lambda>s. rc_procedure_complete (btif_rc_cb s)) (rc_run ?es example_completed)
          = Some True"
    by code_simp
  then obtain s' where s': "rc_run ?es example_completed = Some s'" by auto
  from procedure_complete_is_sticky
         [where s = example_completed and es = ?es and s' = s'
            and m = "vendor_rsp AVRC_RSP_CHANGED 2" and r = r and t = t]
    flag m r(2) t s'
  have "rc_ctrl_procedure_complete example_completed = example_completed"
    and "rc_procedure_complete (btif_rc_cb s')"
    and "rc_procedure_complete (btif_rc_cb t)
          \<and> rc_app_settings (btif_rc_cb t) = rc_app_settings (btif_rc_cb example_completed)
          \<and> (\<exists>X. sent t = sent example_completed @ X \<and> list_all refetch_action X)"
    by simp_all
  with flag t s' r(1) show ?thesis by auto
qed
subsection \<open>A registration that timed out\<close>

lemma iterate_timeout_first:
  "first_index (\<lambda>e. label e = l) evs = Some k \<Longrightarrow>
     iterate_supported_event_list_for_timeout l evs = take k evs @ drop (Suc k) evs"
proof (induction evs arbitrary: k)
  case Nil then show ?case by simp
next
  case (Cons e evs)
  show ?case
  proof (cases "label e = l")
    case True
    with Cons.prems show ?thesis by simp
  next
    case False
    with Cons.prems obtain k' where k': "first_index (\<lambda>e. label e = l) evs = Some k'" "k = Suc k'"
      by auto
    from Cons.IH [OF k'(1)] False k'(2) show ?thesis by simp
  qed
qed

lemma distinct_ids_removed:
  assumes "distinct (map event_id evs)" "k < length evs"
  shows "event_id (evs ! k) \<notin> event_id ` set (take k evs @ drop (Suc k) evs)"
proof -
  have "evs = take k evs @ evs ! k # drop (Suc k) evs"
    using assms(2) by (rule id_take_nth_drop)
  then have "distinct (map event_id (take k evs @ evs ! k # drop (Suc k) evs))"
    using assms(1) by simp
  then show ?thesis by auto
qed

lemma timeout_drops_event:
  assumes evs: "rc_supported_event_list (btif_rc_cb s) = Some evs"
    and k: "first_index (\<lambda>e. label e = l) evs = Some k"
    and d: "distinct (map event_id evs)"
  shows "\<exists>s1. rc_notification_interim_timout l s = Some s1
           \<and> map event_id (event_list s1)
               = map event_id (take k evs) @ map event_id (drop (Suc k) evs)
           \<and> event_id (evs ! k) \<notin> event_ids s1
           \<and> (\<exists>X. reg_notif_events (sent s1) = reg_notif_events (sent s) @ X
                  \<and> event_id (evs ! k) \<notin> set X)
           \<and> keeps s s1"
proof -
  define evs0 where "evs0 = take k evs @ drop (Suc k) evs"
  define s1 where "s1 = set_event_list (register_first_not_registered evs0 s)"
  have s1: "rc_notification_interim_timout l s = Some s1"
    using evs iterate_timeout_first [OF k]
    by (simp add: rc_notification_interim_timout_def s1_def evs0_def)
  obtain evs' t where rf: "register_first_not_registered evs0 s = (evs', t)"
    by (cases "register_first_not_registered evs0 s")
  from first_index_Some [OF k] have klen: "k < length evs" by simp
  have gone: "event_id (evs ! k) \<notin> event_id ` set evs0"
    unfolding evs0_def by (rule distinct_ids_removed [OF d klen])
  have ids: "map event_id (event_list s1) = map event_id evs0"
    using register_first_not_registered_summary(2) [OF rf] by (simp add: s1_def rf)
  have 1: "map event_id (event_list s1)
               = map event_id (take k evs) @ map event_id (drop (Suc k) evs)"
    using ids by (simp add: evs0_def)
  have 2: "event_id (evs ! k) \<notin> event_ids s1"
    using gone set_event_list_register_first(2) [of evs0 s] by (simp add: s1_def)
  from set_event_list_register_first(3) [of evs0 s] obtain X where
    X: "reg_notif_events (sent s1) = reg_notif_events (sent s) @ X" "set X \<subseteq> event_id ` set evs0"
    by (auto simp: s1_def)
  from X(2) gone have "event_id (evs ! k) \<notin> set X" by auto
  with X(1) have 3: "\<exists>X. reg_notif_events (sent s1) = reg_notif_events (sent s) @ X
                  \<and> event_id (evs ! k) \<notin> set X" by blast
  have 4: "keeps s s1"
    unfolding s1_def by (rule keeps_register_first_not_registered) (rule keeps_refl)
  from s1 1 2 3 4 show ?thesis by blast
qed

text \<open>
  What the timeout handler achieves. Let the timer of a \<open>REGISTER_NOTIFICATION\<close>
  transaction with label \<open>l\<close> fire while entry \<open>k\<close> of the supported-event list is the
  first one holding label \<open>l\<close>, the list holds every event id once, and the pool is well
  formed. The handler returns; entry \<open>k\<close> is gone from the list, the other entries are
  kept in order, and the slot of \<open>l\<close> is not in use. As long as no capabilities response
  follows, the event id stays out of the list and no \<open>REGISTER_NOTIFICATION\<close> is sent for
  it.
\<close>

lemma timeout_drops_event_while_list_is_kept:
  assumes "rc_supported_event_list (btif_rc_cb s) = Some evs"
    and "first_index (\<lambda>e. label e = ctx_label c) evs = Some k"
    and "distinct (map event_id evs)"
    and "ctx_pdu_id c = AVRC_PDU_REGISTER_NOTIFICATION"
    and "pool_wf (device s)"
    and "unat (ctx_label c) < MAX_TRANSACTIONS_PER_SESSION"
  shows "\<exists>s1. btif_rc_status_cmd_timeout_handler c s = Some s1
           \<and> map event_id (event_list s1)
               = map event_id (take k evs) @ map event_id (drop (Suc k) evs)
           \<and> event_id (evs ! k) \<notin> event_ids s1
           \<and> \<not> in_use (device s1 ! unat (ctx_label c))
           \<and> (\<forall>es s'. rc_run es s1 = Some s' \<and> list_all (\<lambda>e. \<not> builds_event_list e) es
                 \<longrightarrow> event_id (evs ! k) \<notin> event_ids s'
                     \<and> (\<exists>X. reg_notif_events (sent s') = reg_notif_events (sent s) @ X
                            \<and> event_id (evs ! k) \<notin> set X))"
proof -
  from timeout_drops_event [OF assms(1-3)] obtain s0 X where
    s0: "rc_notification_interim_timout (ctx_label c) s = Some s0"
    and ids: "map event_id (event_list s0)
               = map event_id (take k evs) @ map event_id (drop (Suc k) evs)"
    and gone: "event_id (evs ! k) \<notin> event_ids s0"
    and X: "reg_notif_events (sent s0) = reg_notif_events (sent s) @ X"
      "event_id (evs ! k) \<notin> set X"
    and k: "keeps s s0"
    by blast
  define s1 where "s1 = release (ctx_label c) s0"
  have step: "btif_rc_status_cmd_timeout_handler c s = Some s1"
    using s0 assms(4) by (simp add: btif_rc_status_cmd_timeout_handler_def s1_def)
  have list: "event_list s1 = event_list s0" by (simp add: s1_def event_list_def)
  have gone1: "event_id (evs ! k) \<notin> event_ids s1" using gone by (simp add: s1_def)
  from k assms(5) have "length (device s0) = MAX_TRANSACTIONS_PER_SESSION"
    by (simp add: keeps_def pool_kept_def pool_wf_def)
  from release_frees [OF this assms(6)]
  have free: "\<not> in_use (device s1 ! unat (ctx_label c))" by (simp add: s1_def)
  have later: "event_id (evs ! k) \<notin> event_ids s'
                     \<and> (\<exists>X. reg_notif_events (sent s') = reg_notif_events (sent s) @ X
                            \<and> event_id (evs ! k) \<notin> set X)"
    if run: "rc_run es s1 = Some s'" and es: "list_all (\<lambda>e. \<not> builds_event_list e) es"
    for es s'
  proof -
    from es have "\<forall>e\<in>set es. \<not> builds_event_list e" by (simp add: list_all_iff)
    from tame_rc_run [OF run this] obtain Y where
      sub: "event_ids s' \<subseteq> event_ids s1"
      and Y: "reg_notif_events (sent s') = reg_notif_events (sent s1) @ Y" "set Y \<subseteq> event_ids s1"
      by (auto simp: tame_def)
    have "reg_notif_events (sent s') = reg_notif_events (sent s) @ (X @ Y)"
      using X(1) Y(1) by (simp add: s1_def)
    moreover have "event_id (evs ! k) \<notin> set (X @ Y)" using X(2) Y(2) gone1 by auto
    ultimately show ?thesis using sub gone1 by blast
  qed
  from step ids list gone1 free later show ?thesis by auto
qed

text \<open>
  Claim C6. The timeout handler removes one entry and releases the label, but the event is
  not out for the rest of the connection. When the peer advertised the play-status event
  twice, the handler removes the first entry and at once registers the second: a
  \<open>REGISTER_NOTIFICATION\<close> for the event that timed out is sent again, and the event is
  still in the list. When a second answer to the events query arrives after the timeout,
  the list is built anew and the event is registered again.
\<close>

theorem timed_out_event_is_registered_again:
  "map_option (reg_notif_events \<circ> sent) (rc_run (butlast example_duplicate_run) events_query_sent)
     = Some [AVRC_EVT_PLAY_STATUS_CHANGE]
   \<and> map_option (map label \<circ> event_list)
         (rc_run (butlast example_duplicate_run) events_query_sent)
     = Some [1, 0]
   \<and> map_option (reg_notif_events \<circ> sent) (rc_run example_duplicate_run events_query_sent)
     = Some [AVRC_EVT_PLAY_STATUS_CHANGE, AVRC_EVT_PLAY_STATUS_CHANGE]
   \<and> map_option (map event_id \<circ> event_list) (rc_run example_duplicate_run events_query_sent)
     = Some [AVRC_EVT_PLAY_STATUS_CHANGE]
   \<and> map_option (take 2 \<circ> map in_use \<circ> device) (rc_run example_duplicate_run events_query_sent)
     = Some [True, False]
   \<and> map_option (reg_notif_events \<circ> sent) (rc_run (butlast example_rebuilt_run) events_query_sent)
     = Some [AVRC_EVT_PLAY_STATUS_CHANGE, AVRC_EVT_TRACK_CHANGE]
   \<and> map_option (map event_id \<circ> event_list)
         (rc_run (butlast example_rebuilt_run) events_query_sent)
     = Some [AVRC_EVT_TRACK_CHANGE]
   \<and> map_option (reg_notif_events \<circ> sent) (rc_run example_rebuilt_run events_query_sent)
     = Some [AVRC_EVT_PLAY_STATUS_CHANGE, AVRC_EVT_TRACK_CHANGE, AVRC_EVT_PLAY_STATUS_CHANGE]
   \<and> map_option (map event_id \<circ> event_list) (rc_run example_rebuilt_run events_query_sent)
     = Some [AVRC_EVT_PLAY_STATUS_CHANGE, AVRC_EVT_TRACK_CHANGE]"
  by code_simp
subsection \<open>The walk through the event list\<close>

lemma handle_notification_interim_walk:
  assumes "handle_notification_interim r s = Some s'"
  obtains (unhandled) "s' = s"
  | (walk) s1 evs1 s2 where "quiet s s1"
      and "s2 = set_event_list (register_first_not_registered evs1 s1)"
      and "s' = s2
           \<or> (first_index (\<lambda>e. status e = eNOT_REGISTERED) evs1 = None
              \<and> \<not> query_started (rc_app_settings (btif_rc_cb s2))
              \<and> (s' = snd (list_player_app_setting_attrib_cmd (set_query_started s2))
                 \<or> s' = rc_ctrl_procedure_complete (set_query_started s2)))"
proof (cases "notification_event_handled (rn_event_id r)")
  case False
  with assms have "s' = s" by (simp add: handle_notification_interim_def)
  then show ?thesis by (rule unhandled)
next
  case True
  define s1 where "s1 =
               (if rn_event_id r = AVRC_EVT_PLAY_STATUS_CHANGE
                then emit (HAL_CBACK (play_status_changed_cb (param_play_status r)))
                       (if param_play_status r = AVRC_PLAYSTATE_PLAYING
                        then rc_start_play_status_timer s else s)
                else if rn_event_id r = AVRC_EVT_TRACK_CHANGE
                then (if \<not> rc_is_track_id_valid (param_track r) then s
                      else s\<lparr>btif_rc_cb := (btif_rc_cb s)
                               \<lparr>rc_playing_uid := BE_STREAM_TO_UINT64 (param_track r)\<rparr>\<rparr>)
                else s)"
  have uid: "quiet s (s\<lparr>btif_rc_cb := (btif_rc_cb s)\<lparr>rc_playing_uid := u\<rparr>\<rparr>)" for u
    by (simp add: quiet_def)
  have q1: "quiet s s1"
    unfolding s1_def by (intro quiet_intros uid)
  from assms True obtain evs where evs: "rc_supported_event_list (btif_rc_cb s1) = Some evs"
    by (auto simp: handle_notification_interim_def Let_def s1_def [symmetric] split: option.splits)
  define evs1 where "evs1 = iterate_supported_event_list_for_interim_rsp (rn_event_id r) evs"
  define s2 where "s2 = set_event_list (register_first_not_registered evs1 s1)"
  define p_null where "p_null =
                        (if evs1 = [] then p_event_uninit_null s
                         else first_index (\<lambda>e. status e = eNOT_REGISTERED) evs1 = None)"
  have none: "first_index (\<lambda>e. status e = eNOT_REGISTERED) evs1 = None" if p_null
    using that by (cases "evs1 = []") (simp_all add: p_null_def)
  have "handle_notification_interim r s = Some
                       (if p_null \<and> \<not> query_started (rc_app_settings (btif_rc_cb s2))
                        then (if rc_features (btif_rc_cb s2) AND BTA_AV_FEAT_APP_SETTING \<noteq> 0
                              then snd (list_player_app_setting_attrib_cmd (set_query_started s2))
                              else rc_ctrl_procedure_complete (set_query_started s2))
                        else s2)"
    unfolding handle_notification_interim_def Let_def s1_def [symmetric]
    using True evs by (simp only: evs1_def s2_def p_null_def if_False not_True_eq_False
        option.case simp_thms)
  with assms none have
    "s' = s2 \<or> (first_index (\<lambda>e. status e = eNOT_REGISTERED) evs1 = None
        \<and> \<not> query_started (rc_app_settings (btif_rc_cb s2))
        \<and> (s' = snd (list_player_app_setting_attrib_cmd (set_query_started s2))
           \<or> s' = rc_ctrl_procedure_complete (set_query_started s2)))"
    by (auto split: if_splits)
  with q1 s2_def show ?thesis by (rule walk)
qed

lemma registered_first_register_first:
  assumes "reg_notif_events (sent s1) = reg_notif_events (sent s)"
  shows "registered_first s (set_event_list (register_first_not_registered evs s1))"
proof (cases "first_index (\<lambda>e. status e = eNOT_REGISTERED) evs")
  case None
  then show ?thesis using assms
    by (simp add: register_first_not_registered_def registered_first_def)
next
  case (Some k)
  from first_index_Some [OF Some]
  have k: "k < length evs" "\<forall>j<k. status (evs ! j) \<noteq> eNOT_REGISTERED" by simp_all
  have rf: "register_first_not_registered evs s1 = register_for_event_notification k evs s1"
    using Some by (simp add: register_first_not_registered_def)
  show ?thesis
  proof (cases rule: register_for_event_notification_cases [of k evs s1])
    case (fail d)
    then show ?thesis using assms rf by (simp add: registered_first_def)
  next
    case (silent d l)
    then show ?thesis using assms rf by (simp add: registered_first_def)
  next
    case (sent d l)
    let ?evs' = "evs[k := (evs ! k)\<lparr>label := l, status := eREGISTERED\<rparr>]"
    let ?t = "set_event_list (register_first_not_registered evs s1)"
    have list: "event_list ?t = ?evs'" using sent rf by simp
    have tr: "reg_notif_events (sent ?t) = reg_notif_events (sent s) @ [event_id (evs ! k)]"
      using sent rf assms by simp
    have "k < length (event_list ?t)
        \<and> reg_notif_events (sent ?t) = reg_notif_events (sent s) @ [event_id (event_list ?t ! k)]
        \<and> status (event_list ?t ! k) = eREGISTERED
        \<and> (\<forall>j < k. status (event_list ?t ! j) \<noteq> eNOT_REGISTERED)"
      unfolding list tr using k by simp
    then show ?thesis unfolding registered_first_def by blast
  qed
qed

lemma signal_keeps_list:
  "event_list (snd (list_player_app_setting_attrib_cmd (set_query_started s))) = event_list s"
  "reg_notif_events (sent (snd (list_player_app_setting_attrib_cmd (set_query_started s))))
     = reg_notif_events (sent s)"
  "event_list (rc_ctrl_procedure_complete (set_query_started s)) = event_list s"
  "reg_notif_events (sent (rc_ctrl_procedure_complete (set_query_started s)))
     = reg_notif_events (sent s)"
proof -
  have q: "event_list (set_query_started s) = event_list s"
    "sent (set_query_started s) = sent s"
    by (simp_all add: set_query_started_def event_list_def)
  show "event_list (snd (list_player_app_setting_attrib_cmd (set_query_started s))) = event_list s"
    using q(1) by (simp add: list_player_app_setting_attrib_cmd_def event_list_def)
  show "reg_notif_events (sent (snd (list_player_app_setting_attrib_cmd (set_query_started s))))
     = reg_notif_events (sent s)"
    using q(2) by (simp add: list_player_app_setting_attrib_cmd_def
        reg_notif_events_status_command)
  have "quiet (set_query_started s) (rc_ctrl_procedure_complete (set_query_started s))"
    by (rule quiet_rc_ctrl_procedure_complete) simp
  then show "event_list (rc_ctrl_procedure_complete (set_query_started s)) = event_list s"
    and "reg_notif_events (sent (rc_ctrl_procedure_complete (set_query_started s)))
     = reg_notif_events (sent s)"
    using q by (simp_all add: quiet_def event_list_def)
qed

lemma registered_first_same:
  assumes "registered_first s t" "event_list t' = event_list t"
    "reg_notif_events (sent t') = reg_notif_events (sent t)"
  shows "registered_first s t'"
  using assms by (simp add: registered_first_def)

lemma registered_first_handle_notification_interim:
  assumes "handle_notification_interim r s = Some s'" shows "registered_first s s'"
  using assms
proof (cases rule: handle_notification_interim_walk)
  case unhandled
  then show ?thesis by (simp add: registered_first_def)
next
  case (walk s1 evs1 s2)
  from walk(1) have "reg_notif_events (sent s1) = reg_notif_events (sent s)"
    by (simp add: quiet_def)
  from registered_first_register_first [OF this, of evs1]
  have r2: "registered_first s s2" by (simp add: walk(2))
  from walk(3) consider "s' = s2"
    | "s' = snd (list_player_app_setting_attrib_cmd (set_query_started s2))"
    | "s' = rc_ctrl_procedure_complete (set_query_started s2)" by blast
  then show ?thesis
  proof cases
    case 1 with r2 show ?thesis by simp
  next
    case 2
    show ?thesis unfolding 2 by (rule registered_first_same [OF r2 signal_keeps_list(1,2)])
  next
    case 3
    show ?thesis unfolding 3 by (rule registered_first_same [OF r2 signal_keeps_list(3,4)])
  qed
qed

lemma signal_only_when_walk_is_done:
  assumes "handle_notification_interim r s = Some s'"
    and "\<not> query_started (rc_app_settings (btif_rc_cb s))"
    and "query_started (rc_app_settings (btif_rc_cb s'))"
  shows "list_all (\<lambda>e. status e \<noteq> eNOT_REGISTERED) (event_list s')"
  using assms(1)
proof (cases rule: handle_notification_interim_walk)
  case unhandled
  with assms(2,3) show ?thesis by simp
next
  case (walk s1 evs1 s2)
  obtain evs' t where rf: "register_first_not_registered evs1 s1 = (evs', t)"
    by (cases "register_first_not_registered evs1 s1")
  from register_first_not_registered_summary(1) [OF rf] walk(1)
  have q2: "query_started (rc_app_settings (btif_rc_cb s2))
           = query_started (rc_app_settings (btif_rc_cb s))"
    by (simp add: walk(2) rf quiet_def)
  from walk(3) assms(2,3) q2
  have none: "first_index (\<lambda>e. status e = eNOT_REGISTERED) evs1 = None"
    and s': "s' = snd (list_player_app_setting_attrib_cmd (set_query_started s2))
           \<or> s' = rc_ctrl_procedure_complete (set_query_started s2)"
    by auto
  from none have "event_list s2 = evs1"
    by (simp add: walk(2) register_first_not_registered_def)
  moreover from s' have "event_list s' = event_list s2"
    using signal_keeps_list(1,3) by auto
  ultimately show ?thesis using none by (simp add: first_index_None list_all_iff)
qed

lemma registered_first_handle_get_capability_response:
  "registered_first s (handle_get_capability_response r s)"
proof (cases "caps_status r = AVRC_STS_NO_ERROR \<and> capability_id r = AVRC_CAP_EVENTS_SUPPORTED")
  case True
  then show ?thesis
    by (simp add: handle_get_capability_response_events registered_first_register_first)
next
  case False
  with handle_get_capability_response_cases [of r s]
  show ?thesis by (auto simp: quiet_def registered_first_def)
qed

lemma registered_first_rc_notification_interim_timout:
  assumes "rc_notification_interim_timout l s = Some s'" shows "registered_first s s'"
  using assms
  by (auto simp: rc_notification_interim_timout_def registered_first_register_first
      split: option.splits)


lemma changed_reregisters_own_event:
  assumes "handle_notification_changed r s = Some s'"
  shows "reg_notif_events (sent s') = reg_notif_events (sent s)
       \<or> reg_notif_events (sent s') = reg_notif_events (sent s) @ [rn_event_id r]"
proof -
  from assms obtain evs where evs: "rc_supported_event_list (btif_rc_cb s) = Some evs"
    by (auto simp: handle_notification_changed_def split: option.splits)
  define t where "t = set_event_list
                 (case first_index (\<lambda>e. event_id e = rn_event_id r) evs of
                    None \<Rightarrow> (evs, s)
                  | Some p_event \<Rightarrow>
                      register_for_event_notification p_event
                        (evs[p_event := (evs ! p_event)\<lparr>status := eNOT_REGISTERED\<rparr>]) s)"
  have t: "reg_notif_events (sent t) = reg_notif_events (sent s)
       \<or> reg_notif_events (sent t) = reg_notif_events (sent s) @ [rn_event_id r]"
  proof (cases "first_index (\<lambda>e. event_id e = rn_event_id r) evs")
    case None
    then show ?thesis by (simp add: t_def)
  next
    case (Some p)
    from first_index_Some [OF Some]
    have p: "p < length evs" "event_id (evs ! p) = rn_event_id r" by simp_all
    let ?evs = "evs[p := (evs ! p)\<lparr>status := eNOT_REGISTERED\<rparr>]"
    have id: "event_id (?evs ! p) = rn_event_id r" using p by simp
    obtain evs' u where rf: "register_for_event_notification p ?evs s = (evs', u)"
      by (cases "register_for_event_notification p ?evs s")
    from p(1) have "p < length ?evs" by simp
    from register_for_event_notification_summary(5) [OF rf this] Some rf
    show ?thesis by (simp add: t_def id del: nth_list_update_eq)
  qed
  have "handle_notification_changed r s = Some
                (if rn_event_id r = AVRC_EVT_PLAY_STATUS_CHANGE
                 then emit (HAL_CBACK (play_status_changed_cb (param_play_status r)))
                        (if param_play_status r = AVRC_PLAYSTATE_PLAYING
                         then rc_start_play_status_timer t else rc_stop_play_status_timer t)
                 else if rn_event_id r = AVRC_EVT_TRACK_CHANGE
                 then (if \<not> rc_is_track_id_valid (param_track r) then t
                       else snd (get_element_attribute_cmd attr_list t))
                 else if rn_event_id r = AVRC_EVT_APP_SETTING_CHANGE
                 then emit (HAL_CBACK (playerapplicationsetting_changed_cb
                              (map (\<lambda>xx. (ps_attr_id (param_player_setting r) xx,
                                           ps_attr_value (param_player_setting r) xx))
                                 [0..<unat (ps_num_attr (param_player_setting r))]))) t
                 else t)"
    unfolding handle_notification_changed_def Let_def t_def using evs by simp
  moreover have "quiet t
                (if rn_event_id r = AVRC_EVT_PLAY_STATUS_CHANGE
                 then emit (HAL_CBACK (play_status_changed_cb (param_play_status r)))
                        (if param_play_status r = AVRC_PLAYSTATE_PLAYING
                         then rc_start_play_status_timer t else rc_stop_play_status_timer t)
                 else if rn_event_id r = AVRC_EVT_TRACK_CHANGE
                 then (if \<not> rc_is_track_id_valid (param_track r) then t
                       else snd (get_element_attribute_cmd attr_list t))
                 else if rn_event_id r = AVRC_EVT_APP_SETTING_CHANGE
                 then emit (HAL_CBACK (playerapplicationsetting_changed_cb
                              (map (\<lambda>xx. (ps_attr_id (param_player_setting r) xx,
                                           ps_attr_value (param_player_setting r) xx))
                                 [0..<unat (ps_num_attr (param_player_setting r))]))) t
                 else t)"
    by (intro quiet_intros)
  ultimately have "quiet t s'" using assms by simp
  then have "reg_notif_events (sent s') = reg_notif_events (sent t)" by (simp add: quiet_def)
  with t show ?thesis by simp
qed

lemma status_command_sends:
  assumes "rc_connected (btif_rc_cb t)" "fst (get_transaction (device t)) = BT_STATUS_SUCCESS"
    and "AVRC_BldCommand t cmd = AVRC_STS_NO_ERROR"
  shows "\<exists>l. sent (snd (status_command pdu cmd t))
              = sent t @ [BTA_AvVendorCmd (rc_handle (btif_rc_cb t)) l AVRC_CMD_STATUS cmd]"
proof (cases "get_transaction_loop 0 (device t)")
  case None
  with assms(2) show ?thesis
    by (simp add: get_transaction_def BT_STATUS_NOMEM_def BT_STATUS_SUCCESS_def)
next
  case (Some p)
  with assms(1,3) show ?thesis
    by (simp add: status_command_def get_transaction_def emit_def)
qed

lemma iterate_interim_Nil:
  "iterate_supported_event_list_for_interim_rsp ev evs = [] \<longleftrightarrow> evs = []"
  by (cases evs) simp_all

lemma interim_raises_signal:
  assumes h: "notification_event_handled (rn_event_id r)"
    and evs: "rc_supported_event_list (btif_rc_cb s) = Some evs" and ne: "evs \<noteq> []"
    and dn: "list_all (\<lambda>e. status e \<noteq> eNOT_REGISTERED)
               (iterate_supported_event_list_for_interim_rsp (rn_event_id r) evs)"
    and q: "\<not> query_started (rc_app_settings (btif_rc_cb s))"
  shows "\<exists>s'. handle_notification_interim r s = Some s'
           \<and> query_started (rc_app_settings (btif_rc_cb s'))
           \<and> (rc_features (btif_rc_cb s) AND BTA_AV_FEAT_APP_SETTING = 0
                \<longrightarrow> rc_procedure_complete (btif_rc_cb s'))
           \<and> (rc_features (btif_rc_cb s) AND BTA_AV_FEAT_APP_SETTING \<noteq> 0
                \<and> rc_connected (btif_rc_cb s)
                \<and> fst (get_transaction (device s)) = BT_STATUS_SUCCESS
                \<and> AVRC_BldCommand s Cmd_list_app_attr = AVRC_STS_NO_ERROR
                \<longrightarrow> list_app_attr_cmds (sent s') = list_app_attr_cmds (sent s) + 1)"
proof -
  define s1 where "s1 =
               (if rn_event_id r = AVRC_EVT_PLAY_STATUS_CHANGE
                then emit (HAL_CBACK (play_status_changed_cb (param_play_status r)))
                       (if param_play_status r = AVRC_PLAYSTATE_PLAYING
                        then rc_start_play_status_timer s else s)
                else if rn_event_id r = AVRC_EVT_TRACK_CHANGE
                then (if \<not> rc_is_track_id_valid (param_track r) then s
                      else s\<lparr>btif_rc_cb := (btif_rc_cb s)
                               \<lparr>rc_playing_uid := BE_STREAM_TO_UINT64 (param_track r)\<rparr>\<rparr>)
                else s)"
  have same: "device s1 = device s" "AVRC_BldCommand s1 = AVRC_BldCommand s"
    "rc_connected (btif_rc_cb s1) = rc_connected (btif_rc_cb s)"
    "rc_features (btif_rc_cb s1) = rc_features (btif_rc_cb s)"
    "rc_supported_event_list (btif_rc_cb s1) = Some evs"
    "\<not> query_started (rc_app_settings (btif_rc_cb s1))"
    "list_app_attr_cmds (sent s1) = list_app_attr_cmds (sent s)"
    unfolding s1_def using evs q
    by (simp_all add: emit_def rc_start_play_status_timer_def)
  define evs1 where "evs1 = iterate_supported_event_list_for_interim_rsp (rn_event_id r) evs"
  define s2 where "s2 = set_event_list (register_first_not_registered evs1 s1)"
  define p_null where "p_null =
                        (if evs1 = [] then p_event_uninit_null s
                         else first_index (\<lambda>e. status e = eNOT_REGISTERED) evs1 = None)"
  have none: "first_index (\<lambda>e. status e = eNOT_REGISTERED) evs1 = None"
    using dn by (simp add: first_index_None list_all_iff evs1_def)
  have ne1: "evs1 \<noteq> []" using ne by (simp add: evs1_def iterate_interim_Nil)
  have s2: "s2 = set_event_list (evs1, s1)"
    using none by (simp add: s2_def register_first_not_registered_def)
  have pn: p_null using none ne1 by (simp add: p_null_def)
  have q2: "\<not> query_started (rc_app_settings (btif_rc_cb s2))"
    using same(6) by (simp add: s2)
  define t where "t = set_query_started s2"
  have t: "device t = device s" "AVRC_BldCommand t = AVRC_BldCommand s"
    "rc_connected (btif_rc_cb t) = rc_connected (btif_rc_cb s)"
    "query_started (rc_app_settings (btif_rc_cb t))"
    "list_app_attr_cmds (sent t) = list_app_attr_cmds (sent s)"
    "rc_features (btif_rc_cb s2) = rc_features (btif_rc_cb s)"
    using same by (simp_all add: t_def set_query_started_def s2 set_event_list_def)
  define s' where "s' = (if rc_features (btif_rc_cb s2) AND BTA_AV_FEAT_APP_SETTING \<noteq> 0
                        then snd (list_player_app_setting_attrib_cmd t)
                        else rc_ctrl_procedure_complete t)"
  have "handle_notification_interim r s = Some
                       (if p_null \<and> \<not> query_started (rc_app_settings (btif_rc_cb s2))
                        then (if rc_features (btif_rc_cb s2) AND BTA_AV_FEAT_APP_SETTING \<noteq> 0
                              then snd (list_player_app_setting_attrib_cmd (set_query_started s2))
                              else rc_ctrl_procedure_complete (set_query_started s2))
                        else s2)"
    unfolding handle_notification_interim_def Let_def s1_def [symmetric]
    using h same(5) by (simp only: evs1_def s2_def p_null_def if_False not_True_eq_False
        option.case simp_thms)
  with pn q2 have ret: "handle_notification_interim r s = Some s'"
    by (simp add: s'_def t_def)
  have "quiet t (rc_ctrl_procedure_complete t)"
    by (rule quiet_rc_ctrl_procedure_complete) simp
  then have 1: "query_started (rc_app_settings (btif_rc_cb s'))"
    using t(4) by (simp add: s'_def list_player_app_setting_attrib_cmd_def quiet_def)
  have 2: "rc_procedure_complete (btif_rc_cb s')"
    if "rc_features (btif_rc_cb s) AND BTA_AV_FEAT_APP_SETTING = 0"
    using that t(6)
    by (simp add: s'_def rc_ctrl_procedure_complete_def get_element_attribute_cmd_def)
  have 3: "list_app_attr_cmds (sent s') = list_app_attr_cmds (sent s) + 1"
    if "rc_features (btif_rc_cb s) AND BTA_AV_FEAT_APP_SETTING \<noteq> 0
                \<and> rc_connected (btif_rc_cb s)
                \<and> fst (get_transaction (device s)) = BT_STATUS_SUCCESS
                \<and> AVRC_BldCommand s Cmd_list_app_attr = AVRC_STS_NO_ERROR"
  proof -
    from that t have "rc_connected (btif_rc_cb t)"
      "fst (get_transaction (device t)) = BT_STATUS_SUCCESS"
      "AVRC_BldCommand t Cmd_list_app_attr = AVRC_STS_NO_ERROR"
      by simp_all
    from status_command_sends [OF this, of AVRC_PDU_LIST_PLAYER_APP_ATTR] obtain l where
      "sent (snd (status_command AVRC_PDU_LIST_PLAYER_APP_ATTR Cmd_list_app_attr t))
         = sent t @ [BTA_AvVendorCmd (rc_handle (btif_rc_cb t)) l AVRC_CMD_STATUS
                       Cmd_list_app_attr]" ..
    then show ?thesis
      using that t(5,6) by (simp add: s'_def list_player_app_setting_attrib_cmd_def)
  qed
  from ret 1 2 3 show ?thesis by blast
qed

text \<open>
  Claim C3, as the code has it. The capabilities response, an interim response and the
  timeout of a registration each send at most one \<open>REGISTER_NOTIFICATION\<close>, and then for
  an entry of the list that no \<open>eNOT_REGISTERED\<close> entry precedes: the first one that was
  not registered. A changed response sends at most one, for its own event, whatever else
  is out. When an interim response leaves no \<open>eNOT_REGISTERED\<close> entry in the list and
  \<open>query_started\<close> is clear, the handler returns with \<open>query_started\<close> set, and it has
  completed the procedure (peer without application settings) or sent the
  \<open>LIST_PLAYER_APP_ATTR\<close> command (peer with them, when the command can be sent).
  Conversely an interim response that sets \<open>query_started\<close> leaves no \<open>eNOT_REGISTERED\<close>
  entry. Over any run of responses and timeouts \<open>query_started\<close> is never cleared and at
  most one \<open>LIST_PLAYER_APP_ATTR\<close> command is sent, none once the flag is set: the signal
  is raised once.
\<close>

theorem registration_walks_the_list_and_signals_once:
  "registered_first s (handle_get_capability_response c s)
   \<and> (handle_notification_response AVRC_RSP_INTERIM r s = Some s1 \<longrightarrow> registered_first s s1)
   \<and> (rc_notification_interim_timout l s = Some s2 \<longrightarrow> registered_first s s2)
   \<and> (handle_notification_response AVRC_RSP_CHANGED r s = Some s3 \<longrightarrow>
         reg_notif_events (sent s3) = reg_notif_events (sent s)
         \<or> reg_notif_events (sent s3) = reg_notif_events (sent s) @ [rn_event_id r])
   \<and> (notification_event_handled (rn_event_id r)
        \<and> rc_supported_event_list (btif_rc_cb s) = Some evs \<and> evs \<noteq> []
        \<and> list_all (\<lambda>e. status e \<noteq> eNOT_REGISTERED)
             (iterate_supported_event_list_for_interim_rsp (rn_event_id r) evs)
        \<and> \<not> query_started (rc_app_settings (btif_rc_cb s))
        \<longrightarrow> (\<exists>s4. handle_notification_response AVRC_RSP_INTERIM r s = Some s4
               \<and> query_started (rc_app_settings (btif_rc_cb s4))
               \<and> (rc_features (btif_rc_cb s) AND BTA_AV_FEAT_APP_SETTING = 0
                    \<longrightarrow> rc_procedure_complete (btif_rc_cb s4))
               \<and> (rc_features (btif_rc_cb s) AND BTA_AV_FEAT_APP_SETTING \<noteq> 0
                    \<and> rc_connected (btif_rc_cb s)
                    \<and> fst (get_transaction (device s)) = BT_STATUS_SUCCESS
                    \<and> AVRC_BldCommand s Cmd_list_app_attr = AVRC_STS_NO_ERROR
                    \<longrightarrow> list_app_attr_cmds (sent s4) = list_app_attr_cmds (sent s) + 1)))
   \<and> (handle_notification_response AVRC_RSP_INTERIM r s = Some s1
        \<and> \<not> query_started (rc_app_settings (btif_rc_cb s))
        \<and> query_started (rc_app_settings (btif_rc_cb s1))
        \<longrightarrow> list_all (\<lambda>e. status e \<noteq> eNOT_REGISTERED) (event_list s1))
   \<and> (rc_run es s = Some s' \<longrightarrow>
         list_app_attr_cmds (sent s') \<le> list_app_attr_cmds (sent s) + 1
         \<and> (query_started (rc_app_settings (btif_rc_cb s)) \<longrightarrow>
              query_started (rc_app_settings (btif_rc_cb s'))
              \<and> list_app_attr_cmds (sent s') = list_app_attr_cmds (sent s)))"
proof (intro conjI impI)
  have i: "handle_notification_response AVRC_RSP_INTERIM r s = handle_notification_interim r s"
    by (simp add: handle_notification_response_def)
  have ch: "handle_notification_response AVRC_RSP_CHANGED r s = handle_notification_changed r s"
    by (simp add: handle_notification_response_def AVRC_RSP_CHANGED_def AVRC_RSP_INTERIM_def)
  show "registered_first s (handle_get_capability_response c s)"
    by (rule registered_first_handle_get_capability_response)
  show "registered_first s s1"
    if "handle_notification_response AVRC_RSP_INTERIM r s = Some s1"
    using that registered_first_handle_notification_interim by (simp add: i)
  show "registered_first s s2" if "rc_notification_interim_timout l s = Some s2"
    using that by (rule registered_first_rc_notification_interim_timout)
  show "reg_notif_events (sent s3) = reg_notif_events (sent s)
         \<or> reg_notif_events (sent s3) = reg_notif_events (sent s) @ [rn_event_id r]"
    if "handle_notification_response AVRC_RSP_CHANGED r s = Some s3"
    using that changed_reregisters_own_event by (simp add: ch)
  show "\<exists>s4. handle_notification_response AVRC_RSP_INTERIM r s = Some s4
               \<and> query_started (rc_app_settings (btif_rc_cb s4))
               \<and> (rc_features (btif_rc_cb s) AND BTA_AV_FEAT_APP_SETTING = 0
                    \<longrightarrow> rc_procedure_complete (btif_rc_cb s4))
               \<and> (rc_features (btif_rc_cb s) AND BTA_AV_FEAT_APP_SETTING \<noteq> 0
                    \<and> rc_connected (btif_rc_cb s)
                    \<and> fst (get_transaction (device s)) = BT_STATUS_SUCCESS
                    \<and> AVRC_BldCommand s Cmd_list_app_attr = AVRC_STS_NO_ERROR
                    \<longrightarrow> list_app_attr_cmds (sent s4) = list_app_attr_cmds (sent s) + 1)"
    if "notification_event_handled (rn_event_id r)
        \<and> rc_supported_event_list (btif_rc_cb s) = Some evs \<and> evs \<noteq> []
        \<and> list_all (\<lambda>e. status e \<noteq> eNOT_REGISTERED)
             (iterate_supported_event_list_for_interim_rsp (rn_event_id r) evs)
        \<and> \<not> query_started (rc_app_settings (btif_rc_cb s))"
    unfolding i using that interim_raises_signal [of r s evs] by blast
  show "list_all (\<lambda>e. status e \<noteq> eNOT_REGISTERED) (event_list s1)"
    if "handle_notification_response AVRC_RSP_INTERIM r s = Some s1
        \<and> \<not> query_started (rc_app_settings (btif_rc_cb s))
        \<and> query_started (rc_app_settings (btif_rc_cb s1))"
    using that signal_only_when_walk_is_done [of r s s1] by (simp add: i)
  assume run: "rc_run es s = Some s'"
  note fk = flags_kept_rc_run [OF run]
  show "list_app_attr_cmds (sent s') \<le> list_app_attr_cmds (sent s) + 1"
    using fk by (simp add: flags_kept_def)
  show "query_started (rc_app_settings (btif_rc_cb s'))"
    if "query_started (rc_app_settings (btif_rc_cb s))"
    using fk that by (simp add: flags_kept_def)
  show "list_app_attr_cmds (sent s') = list_app_attr_cmds (sent s)"
    if "query_started (rc_app_settings (btif_rc_cb s))"
    using fk that by (simp add: flags_kept_def)
qed

theorem changed_response_registers_while_another_is_out:
  "map_option (map status \<circ> event_list) (rc_run example_changed_run events_query_sent)
     = Some [eREGISTERED, eREGISTERED, eNOT_REGISTERED]
   \<and> map_option in_flight (rc_run example_changed_run events_query_sent) = Some 2
   \<and> map_option (reg_notif_events \<circ> sent) (rc_run example_changed_run events_query_sent)
     = Some [AVRC_EVT_PLAY_STATUS_CHANGE, AVRC_EVT_TRACK_CHANGE, AVRC_EVT_PLAY_STATUS_CHANGE]"
  by code_simp

theorem registration_walks_the_list_and_signals_once_witness:
  "(\<exists>s1. handle_notification_response AVRC_RSP_INTERIM (notif AVRC_EVT_PLAY_STATUS_CHANGE 1)
             example_registering = Some s1
         \<and> registered_first example_registering s1
         \<and> reg_notif_events (sent s1)
             = reg_notif_events (sent example_registering) @ [AVRC_EVT_TRACK_CHANGE]
         \<and> \<not> query_started (rc_app_settings (btif_rc_cb s1))
         \<and> (\<exists>s4. handle_notification_response AVRC_RSP_INTERIM (notif AVRC_EVT_TRACK_CHANGE 0) s1
                    = Some s4
                \<and> query_started (rc_app_settings (btif_rc_cb s4))
                \<and> list_all (\<lambda>e. status e \<noteq> eNOT_REGISTERED) (event_list s4)))
   \<and> (\<exists>s2. rc_notification_interim_timout 1 example_registering = Some s2
          \<and> registered_first example_registering s2)
   \<and> (\<exists>s3. handle_notification_response AVRC_RSP_CHANGED (notif AVRC_EVT_PLAY_STATUS_CHANGE 2)
              example_registering = Some s3
          \<and> reg_notif_events (sent s3)
              = reg_notif_events (sent example_registering) @ [AVRC_EVT_PLAY_STATUS_CHANGE])
   \<and> (\<exists>s'. rc_run [Meta_msg_rsp (vendor_rsp AVRC_RSP_INTERIM 1)
                      (notif_rsp AVRC_EVT_PLAY_STATUS_CHANGE 1),
                    Meta_msg_rsp (vendor_rsp AVRC_RSP_INTERIM 0)
                      (notif_rsp AVRC_EVT_TRACK_CHANGE 0)] example_registering = Some s'
          \<and> list_app_attr_cmds (sent s') = 1
          \<and> list_app_attr_cmds (sent s') \<le> list_app_attr_cmds (sent example_registering) + 1)
   \<and> map status (event_list example_last_registration) = [eREGISTERED]
   \<and> \<not> query_started (rc_app_settings (btif_rc_cb example_last_registration))
   \<and> (\<exists>s4. handle_notification_response AVRC_RSP_INTERIM
              (notif AVRC_EVT_PLAY_STATUS_CHANGE 1) example_last_registration = Some s4
          \<and> query_started (rc_app_settings (btif_rc_cb s4))
          \<and> list_app_attr_cmds (sent s4)
              = list_app_attr_cmds (sent example_last_registration) + 1)"
proof -
  let ?P = "notif AVRC_EVT_PLAY_STATUS_CHANGE 1"
  let ?T = "notif AVRC_EVT_TRACK_CHANGE 0"
  let ?C = "notif AVRC_EVT_PLAY_STATUS_CHANGE 2"
  let ?es = "[Meta_msg_rsp (vendor_rsp AVRC_RSP_INTERIM 1) (notif_rsp AVRC_EVT_PLAY_STATUS_CHANGE 1),
              Meta_msg_rsp (vendor_rsp AVRC_RSP_INTERIM 0) (notif_rsp AVRC_EVT_TRACK_CHANGE 0)]"
  have base: "reg_notif_events (sent example_registering) = [AVRC_EVT_PLAY_STATUS_CHANGE]"
    by code_simp
  have "map_option (\<lambda>s. (reg_notif_events (sent s), query_started (rc_app_settings (btif_rc_cb s))))
          (handle_notification_response AVRC_RSP_INTERIM ?P example_registering)
        = Some ([AVRC_EVT_PLAY_STATUS_CHANGE, AVRC_EVT_TRACK_CHANGE], False)"
    by code_simp
  then obtain s1 where
    s1: "handle_notification_response AVRC_RSP_INTERIM ?P example_registering = Some s1"
      "reg_notif_events (sent s1) = [AVRC_EVT_PLAY_STATUS_CHANGE, AVRC_EVT_TRACK_CHANGE]"
      "\<not> query_started (rc_app_settings (btif_rc_cb s1))"
    by auto
  have "map_option (\<lambda>s. query_started (rc_app_settings (btif_rc_cb s)))
          (Option.bind (handle_notification_response AVRC_RSP_INTERIM ?P example_registering)
             (handle_notification_response AVRC_RSP_INTERIM ?T))
        = Some True"
    by code_simp
  with s1(1) obtain s4 where
    s4: "handle_notification_response AVRC_RSP_INTERIM ?T s1 = Some s4"
      "query_started (rc_app_settings (btif_rc_cb s4))"
    by auto
  have "map_option (\<lambda>s. True) (rc_notification_interim_timout 1 example_registering) = Some True"
    by code_simp
  then obtain s2 where s2: "rc_notification_interim_timout 1 example_registering = Some s2"
    by auto
  have "map_option (\<lambda>s. reg_notif_events (sent s))
          (handle_notification_response AVRC_RSP_CHANGED ?C example_registering)
        = Some [AVRC_EVT_PLAY_STATUS_CHANGE, AVRC_EVT_PLAY_STATUS_CHANGE]"
    by code_simp
  then obtain s3 where
    s3: "handle_notification_response AVRC_RSP_CHANGED ?C example_registering = Some s3"
      "reg_notif_events (sent s3) = [AVRC_EVT_PLAY_STATUS_CHANGE, AVRC_EVT_PLAY_STATUS_CHANGE]"
    by auto
  have "map_option (\<lambda>s. list_app_attr_cmds (sent s)) (rc_run ?es example_registering) = Some 1"
    by code_simp
  then obtain s' where s': "rc_run ?es example_registering = Some s'"
    "list_app_attr_cmds (sent s') = 1"
    by auto
  note a = registration_walks_the_list_and_signals_once
             [where s = example_registering and r = ?P and ?s1.0 = s1 and l = 1 and ?s2.0 = s2
                and es = ?es and s' = s']
  note b = registration_walks_the_list_and_signals_once [where s = s1 and r = ?T and ?s1.0 = s4]
  from a s1(1) have 1: "registered_first example_registering s1" by blast
  from a s2 have 2: "registered_first example_registering s2" by blast
  from a s' have 3: "list_app_attr_cmds (sent s') \<le> list_app_attr_cmds (sent example_registering) + 1"
    by blast
  from b s4 s1(3) have 4: "list_all (\<lambda>e. status e \<noteq> eNOT_REGISTERED) (event_list s4)" by blast
  from s1 s4 4 1 base have A: "\<exists>s1. handle_notification_response AVRC_RSP_INTERIM ?P
             example_registering = Some s1
         \<and> registered_first example_registering s1
         \<and> reg_notif_events (sent s1)
             = reg_notif_events (sent example_registering) @ [AVRC_EVT_TRACK_CHANGE]
         \<and> \<not> query_started (rc_app_settings (btif_rc_cb s1))
         \<and> (\<exists>s4. handle_notification_response AVRC_RSP_INTERIM ?T s1 = Some s4
                \<and> query_started (rc_app_settings (btif_rc_cb s4))
                \<and> list_all (\<lambda>e. status e \<noteq> eNOT_REGISTERED) (event_list s4))"
    by auto
  from s3 base have C: "\<exists>s3. handle_notification_response AVRC_RSP_CHANGED ?C
              example_registering = Some s3
          \<and> reg_notif_events (sent s3)
              = reg_notif_events (sent example_registering) @ [AVRC_EVT_PLAY_STATUS_CHANGE]"
    by auto
  let ?L = example_last_registration
  have L1: "rc_supported_event_list (btif_rc_cb ?L) = Some (event_list ?L)" by code_simp
  have L2: "event_list ?L \<noteq> []" by code_simp
  have L3: "list_all (\<lambda>e. status e \<noteq> eNOT_REGISTERED)
              (iterate_supported_event_list_for_interim_rsp (rn_event_id ?P) (event_list ?L))"
    by code_simp
  have L4: "\<not> query_started (rc_app_settings (btif_rc_cb ?L))" by code_simp
  have L5: "notification_event_handled (rn_event_id ?P)" by code_simp
  have L6: "rc_features (btif_rc_cb ?L) AND BTA_AV_FEAT_APP_SETTING \<noteq> 0"
    "rc_connected (btif_rc_cb ?L)" "fst (get_transaction (device ?L)) = BT_STATUS_SUCCESS"
    "AVRC_BldCommand ?L Cmd_list_app_attr = AVRC_STS_NO_ERROR"
    by code_simp+
  have L7: "map status (event_list ?L) = [eREGISTERED]" by code_simp
  from registration_walks_the_list_and_signals_once
         [where s = ?L and r = ?P and evs = "event_list ?L"] L1 L2 L3 L4 L5 L6
  have D: "\<exists>s4. handle_notification_response AVRC_RSP_INTERIM ?P ?L = Some s4
          \<and> query_started (rc_app_settings (btif_rc_cb s4))
          \<and> list_app_attr_cmds (sent s4) = list_app_attr_cmds (sent ?L) + 1"
    by blast
  from A 2 s2 C s' 3 L7 L4 D show ?thesis by blast
qed
subsection \<open>Responses the dispatcher should not act on\<close>

text \<open>
  Claim C2. Label 5 is not in use once the events query is out under label 0, and the
  lookup says so. The dispatcher does not look the label up: a capabilities response
  carrying label 5 is handled like any other, the supported-event list is built and the
  registration of the first event is sent.
\<close>

theorem response_under_unused_label_is_handled:
  "get_transaction_by_lbl 5 (device events_query_sent) = None
   \<and> event_list events_query_sent = []
   \<and> reg_notif_events (sent events_query_sent) = []
   \<and> map_option (map event_id \<circ> event_list)
         (handle_avk_rc_metamsg_rsp (vendor_rsp AVRC_RSP_IMPL_STBL 5)
            (events_supported_rsp [AVRC_EVT_PLAY_STATUS_CHANGE]) events_query_sent)
       = Some [AVRC_EVT_PLAY_STATUS_CHANGE]
   \<and> map_option (reg_notif_events \<circ> sent)
         (handle_avk_rc_metamsg_rsp (vendor_rsp AVRC_RSP_IMPL_STBL 5)
            (events_supported_rsp [AVRC_EVT_PLAY_STATUS_CHANGE]) events_query_sent)
       = Some [AVRC_EVT_PLAY_STATUS_CHANGE]"
  by code_simp

subsection \<open>Error responses in the application-settings query\<close>

text \<open>
  Claim C4. The query for the values of the one attribute is out under label 1 when the
  peer rejects it (status 1, not the timeout status). \<open>handle_app_val_response\<close> returns
  the state as it is: no callback is made, no command is sent and the procedure is not
  completed; once the dispatcher has released the label no transaction is left that
  could move the procedure on. \<open>handle_app_cur_val_response\<close> returns in the same way.
\<close>

theorem rejected_values_response_stalls_the_procedure:
  "handle_app_val_response rejected_values example_values_pending
     = Some example_values_pending
   \<and> handle_app_cur_val_response rejected_cur_values example_values_pending
       = example_values_pending
   \<and> handle_avk_rc_metamsg_rsp (vendor_rsp AVRC_RSP_REJ 1) (Rsp_list_app_values rejected_values)
         example_values_pending
       = Some (release 1 example_values_pending)
   \<and> sent (release 1 example_values_pending) = sent example_values_pending
   \<and> \<not> rc_procedure_complete (btif_rc_cb (release 1 example_values_pending))
   \<and> get_transaction_by_lbl 1 (device example_values_pending) = Some 1
   \<and> in_use_count (device (release 1 example_values_pending)) = 0"
proof -
  have v: "handle_app_val_response rejected_values s = Some s" for s
    by (simp add: handle_app_val_response_def rejected_values_def AVRC_STS_NO_ERROR_def)
  have c: "handle_app_cur_val_response rejected_cur_values s = s" for s
    by (simp add: handle_app_cur_val_response_def rejected_cur_values_def AVRC_STS_NO_ERROR_def)
  have d: "handle_avk_rc_metamsg_rsp (vendor_rsp AVRC_RSP_REJ 1)
             (Rsp_list_app_values rejected_values) example_values_pending
           = Some (release 1 example_values_pending)"
    by (simp add: handle_avk_rc_metamsg_rsp_def vendor_rsp_def v AVRC_OP_VENDOR_def
        AVRC_RSP_REJ_def AVRC_RSP_NOT_IMPL_def AVRC_RSP_INTERIM_def)
  have f: "\<not> rc_procedure_complete (btif_rc_cb (release 1 example_values_pending))"
    by code_simp
  have l: "get_transaction_by_lbl 1 (device example_values_pending) = Some 1" by code_simp
  have n: "in_use_count (device (release 1 example_values_pending)) = 0" by code_simp
  from v c d f l n show ?thesis by simp
qed

subsection \<open>Volume responses\<close>

lemma register_volumechange_keeps [simp]:
  "btif_rc_cb (register_volumechange l s) = btif_rc_cb s"
  "device (register_volumechange l s) = device s"
  by (simp_all add: register_volumechange_def split: option.splits)

lemma upstreams_keeps_pool [simp]:
  "device (btif_rc_upstreams_rsp_evt r c s) = device s"
  "rc_vol_label (btif_rc_cb (btif_rc_upstreams_rsp_evt r c s)) = rc_vol_label (btif_rc_cb s)"
  by (simp_all add: btif_rc_upstreams_rsp_evt_def split: tAVRC_RESPONSE.splits)

text \<open>
  Claim C8, as the code has it. \<open>rc_volume\<close> takes the volume of a
  \<open>SET_ABSOLUTE_VOLUME\<close> response exactly when the response is accepted, and the volume
  of a volume-change notification exactly when it is a changed response under the volume
  label (vendor opcode, parsed without error); otherwise it keeps its value. A
  volume-change notification that is an interim or a changed response, parsed without
  error, leaves the pool and \<open>rc_vol_label\<close> as they are: the changed response does not
  release the label but registers the notification again under it.
\<close>

theorem volume_cached_on_accept_and_changed_label_kept:
  assumes "rn_event_id n = AVRC_EVT_VOLUME_CHANGE"
  shows "rc_volume (btif_rc_cb (handle_rc_metamsg_rsp m st (Rsp_volume v) s))
           = (if msg_opcode m = AVRC_OP_VENDOR \<and> msg_code m = AVRC_RSP_ACCEPT
                 \<and> st = AVRC_STS_NO_ERROR
              then ucast v else rc_volume (btif_rc_cb s))
       \<and> rc_volume (btif_rc_cb (handle_rc_metamsg_rsp m st (Rsp_reg_notif n) s))
           = (if msg_opcode m = AVRC_OP_VENDOR \<and> msg_code m = AVRC_RSP_CHANGED
                 \<and> st = AVRC_STS_NO_ERROR \<and> rc_vol_label (btif_rc_cb s) = msg_label m
              then ucast (param_volume n) else rc_volume (btif_rc_cb s))
       \<and> (st = AVRC_STS_NO_ERROR
            \<and> (msg_code m = AVRC_RSP_INTERIM \<or> msg_code m = AVRC_RSP_CHANGED) \<longrightarrow>
            device (handle_rc_metamsg_rsp m st (Rsp_reg_notif n) s) = device s
            \<and> rc_vol_label (btif_rc_cb (handle_rc_metamsg_rsp m st (Rsp_reg_notif n) s))
                = rc_vol_label (btif_rc_cb s))
       \<and> (msg_opcode m = AVRC_OP_VENDOR \<and> msg_code m = AVRC_RSP_CHANGED
            \<and> st = AVRC_STS_NO_ERROR \<and> rc_vol_label (btif_rc_cb s) = msg_label m
            \<and> AVRC_BldCommand s (Cmd_reg_notif AVRC_EVT_VOLUME_CHANGE 0) = AVRC_STS_NO_ERROR
            \<and> get_transaction_by_lbl (msg_label m) (device s) = Some p \<longrightarrow>
            sent (handle_rc_metamsg_rsp m st (Rsp_reg_notif n) s)
              = sent s @ [BTA_AvMetaCmd (rc_handle (btif_rc_cb s)) (lbl (device s ! p))
                            AVRC_CMD_NOTIF (Cmd_reg_notif AVRC_EVT_VOLUME_CHANGE 0),
                          HAL_CBACK (volume_change_cb (param_volume n) AVRC_RSP_CHANGED)])"
proof (intro conjI impI)
  have codes: "AVRC_RSP_ACCEPT \<noteq> AVRC_RSP_CHANGED" "AVRC_RSP_ACCEPT \<noteq> AVRC_RSP_INTERIM"
    "AVRC_RSP_ACCEPT \<noteq> AVRC_RSP_REJ" "AVRC_RSP_ACCEPT \<noteq> AVRC_RSP_NOT_IMPL"
    "AVRC_RSP_CHANGED \<noteq> AVRC_RSP_INTERIM" "AVRC_RSP_CHANGED \<noteq> AVRC_RSP_REJ"
    "AVRC_RSP_CHANGED \<noteq> AVRC_RSP_NOT_IMPL"
    by (simp_all add: AVRC_RSP_ACCEPT_def AVRC_RSP_CHANGED_def AVRC_RSP_INTERIM_def
        AVRC_RSP_REJ_def AVRC_RSP_NOT_IMPL_def)
  have vol: "is_volume_change_notif (Rsp_reg_notif n)" "\<not> is_volume_change_notif (Rsp_volume v)"
    "rsp_pdu (Rsp_volume v) = AVRC_PDU_SET_ABSOLUTE_VOLUME"
    "rsp_pdu (Rsp_reg_notif n) \<noteq> AVRC_PDU_SET_ABSOLUTE_VOLUME"
    using assms
    by (simp_all add: is_volume_change_notif_def rsp_pdu_def AVRC_PDU_SET_ABSOLUTE_VOLUME_def
        AVRC_PDU_REGISTER_NOTIFICATION_def)
  show "rc_volume (btif_rc_cb (handle_rc_metamsg_rsp m st (Rsp_volume v) s))
           = (if msg_opcode m = AVRC_OP_VENDOR \<and> msg_code m = AVRC_RSP_ACCEPT
                 \<and> st = AVRC_STS_NO_ERROR
              then ucast v else rc_volume (btif_rc_cb s))"
    using codes by (auto simp: handle_rc_metamsg_rsp_def vol btif_rc_upstreams_rsp_evt_def)
  show "rc_volume (btif_rc_cb (handle_rc_metamsg_rsp m st (Rsp_reg_notif n) s))
           = (if msg_opcode m = AVRC_OP_VENDOR \<and> msg_code m = AVRC_RSP_CHANGED
                 \<and> st = AVRC_STS_NO_ERROR \<and> rc_vol_label (btif_rc_cb s) = msg_label m
              then ucast (param_volume n) else rc_volume (btif_rc_cb s))"
    using codes by (auto simp: handle_rc_metamsg_rsp_def vol btif_rc_upstreams_rsp_evt_def)
  show "device (handle_rc_metamsg_rsp m st (Rsp_reg_notif n) s) = device s"
    if "st = AVRC_STS_NO_ERROR \<and> (msg_code m = AVRC_RSP_INTERIM \<or> msg_code m = AVRC_RSP_CHANGED)"
    using that by (auto simp: handle_rc_metamsg_rsp_def vol)
  show "rc_vol_label (btif_rc_cb (handle_rc_metamsg_rsp m st (Rsp_reg_notif n) s))
                = rc_vol_label (btif_rc_cb s)"
    if "st = AVRC_STS_NO_ERROR \<and> (msg_code m = AVRC_RSP_INTERIM \<or> msg_code m = AVRC_RSP_CHANGED)"
    using that by (auto simp: handle_rc_metamsg_rsp_def vol)
  show "sent (handle_rc_metamsg_rsp m st (Rsp_reg_notif n) s)
              = sent s @ [BTA_AvMetaCmd (rc_handle (btif_rc_cb s)) (lbl (device s ! p))
                            AVRC_CMD_NOTIF (Cmd_reg_notif AVRC_EVT_VOLUME_CHANGE 0),
                          HAL_CBACK (volume_change_cb (param_volume n) AVRC_RSP_CHANGED)]"
    if "msg_opcode m = AVRC_OP_VENDOR \<and> msg_code m = AVRC_RSP_CHANGED
            \<and> st = AVRC_STS_NO_ERROR \<and> rc_vol_label (btif_rc_cb s) = msg_label m
            \<and> AVRC_BldCommand s (Cmd_reg_notif AVRC_EVT_VOLUME_CHANGE 0) = AVRC_STS_NO_ERROR
            \<and> get_transaction_by_lbl (msg_label m) (device s) = Some p"
    using that
    by (simp add: handle_rc_metamsg_rsp_def vol btif_rc_upstreams_rsp_evt_def
        register_volumechange_def emit_def)
qed

theorem volume_cached_on_accept_and_changed_label_kept_witness:
  "rn_event_id (volume_notif 5) = AVRC_EVT_VOLUME_CHANGE
   \<and> rc_volume (btif_rc_cb example_volume_subscribed) = 128
   \<and> get_transaction_by_lbl 0 (device example_volume_subscribed) = Some 0
   \<and> rc_volume (btif_rc_cb (handle_rc_metamsg_rsp (vendor_rsp AVRC_RSP_CHANGED 0)
         AVRC_STS_NO_ERROR (Rsp_volume 7) example_volume_subscribed)) = 128
   \<and> rc_volume (btif_rc_cb (handle_rc_metamsg_rsp (vendor_rsp AVRC_RSP_CHANGED 0)
         AVRC_STS_NO_ERROR (Rsp_reg_notif (volume_notif 5)) example_volume_subscribed)) = 5
   \<and> device (handle_rc_metamsg_rsp (vendor_rsp AVRC_RSP_CHANGED 0)
         AVRC_STS_NO_ERROR (Rsp_reg_notif (volume_notif 5)) example_volume_subscribed)
       = device example_volume_subscribed
   \<and> rc_vol_label (btif_rc_cb (handle_rc_metamsg_rsp (vendor_rsp AVRC_RSP_CHANGED 0)
         AVRC_STS_NO_ERROR (Rsp_reg_notif (volume_notif 5)) example_volume_subscribed))
       = rc_vol_label (btif_rc_cb example_volume_subscribed)
   \<and> sent (handle_rc_metamsg_rsp (vendor_rsp AVRC_RSP_CHANGED 0)
         AVRC_STS_NO_ERROR (Rsp_reg_notif (volume_notif 5)) example_volume_subscribed)
       = sent example_volume_subscribed
           @ [BTA_AvMetaCmd (rc_handle (btif_rc_cb example_volume_subscribed))
                (lbl (device example_volume_subscribed ! 0)) AVRC_CMD_NOTIF
                (Cmd_reg_notif AVRC_EVT_VOLUME_CHANGE 0),
              HAL_CBACK (volume_change_cb (param_volume (volume_notif 5)) AVRC_RSP_CHANGED)]"
proof -
  let ?m = "vendor_rsp AVRC_RSP_CHANGED 0"
  have n: "rn_event_id (volume_notif 5) = AVRC_EVT_VOLUME_CHANGE"
    "param_volume (volume_notif 5) = 5"
    by (simp_all add: volume_notif_def)
  have m: "msg_opcode ?m = AVRC_OP_VENDOR" "msg_code ?m = AVRC_RSP_CHANGED" "msg_label ?m = 0"
    by (simp_all add: vendor_rsp_def)
  have ne: "AVRC_RSP_CHANGED \<noteq> AVRC_RSP_ACCEPT"
    by (simp add: AVRC_RSP_CHANGED_def AVRC_RSP_ACCEPT_def)
  have vol: "rc_volume (btif_rc_cb example_volume_subscribed) = 128" by code_simp
  have lab: "rc_vol_label (btif_rc_cb example_volume_subscribed) = 0" by code_simp
  have bld: "AVRC_BldCommand example_volume_subscribed (Cmd_reg_notif AVRC_EVT_VOLUME_CHANGE 0)
               = AVRC_STS_NO_ERROR"
    by (simp add: example_volume_subscribed_def connected_state_def)
  have p: "get_transaction_by_lbl 0 (device example_volume_subscribed) = Some 0" by code_simp
  from volume_cached_on_accept_and_changed_label_kept
         [OF n(1), of ?m AVRC_STS_NO_ERROR 7 example_volume_subscribed 0]
    n m ne vol lab bld p
  show ?thesis by simp
qed

theorem changed_volume_response_keeps_the_volume_label:
  "rc_vol_label (btif_rc_cb example_volume_subscribed) = 0
   \<and> in_use (device example_volume_subscribed ! 0)
   \<and> in_use (device (handle_rc_metamsg_rsp (vendor_rsp AVRC_RSP_CHANGED 0) AVRC_STS_NO_ERROR
                (Rsp_reg_notif (volume_notif 5)) example_volume_subscribed) ! 0)
   \<and> rc_vol_label (btif_rc_cb (handle_rc_metamsg_rsp (vendor_rsp AVRC_RSP_CHANGED 0)
         AVRC_STS_NO_ERROR (Rsp_reg_notif (volume_notif 5)) example_volume_subscribed)) = 0
   \<and> in_use_count (device (handle_rc_metamsg_rsp (vendor_rsp AVRC_RSP_CHANGED 0)
         AVRC_STS_NO_ERROR (Rsp_reg_notif (volume_notif 5)) example_volume_subscribed)) = 1"
  by code_simp

end
